(* ===== verification/Prelude.thy ===== *)
theory Prelude
  imports Main "HOL-Library.Word" "HOL-Library.Char_ord" "HOL-Library.List_Lexorder"
    "HOL-Library.Product_Lexorder" "HOL-Library.Option_ord"
    "HOL-Library.Code_Target_Nat"
begin

text \<open>
  Shared vocabulary of the development: machine integers, the operations on Rust byte
  strings the sources call, decimal printing and \<open>str::parse\<close> for unsigned integers,
  ordered maps (\<open>BTreeMap\<close>) as sorted association lists behind a locale of map laws,
  and the enumerated error-accumulating \<open>for\<close> loop with its locale.

  A Rust \<open>String\<close> is a UTF-8 byte sequence; it is modelled as a \<open>string\<close> whose
  characters are the bytes, so \<open>len()\<close> is \<open>length\<close> and the derived \<open>Ord\<close> is
  the lexicographic order of \<open>List_Lexorder\<close>.
\<close>

named_theorems ascii_defs \<open>definitions of the byte classifications\<close>
named_theorems loop_rules \<open>when an error-accumulating loop reports nothing\<close>

type_synonym u8 = "8 word"
type_synonym u16 = "16 word"
type_synonym u32 = "32 word"
type_synonym u64 = "64 word"

lemma unit_option_neq_Some [simp]: "(x :: unit option) \<noteq> Some () \<longleftrightarrow> x = None"
  by (cases x) auto

section \<open>Bytes and strings\<close>

abbreviation byte :: "char \<Rightarrow> nat" where
  "byte c \<equiv> of_char c"

definition is_ascii_lowercase :: "char \<Rightarrow> bool" where
  [ascii_defs]: "is_ascii_lowercase c \<longleftrightarrow> 97 \<le> byte c \<and> byte c \<le> 122"

definition is_ascii_uppercase :: "char \<Rightarrow> bool" where
  [ascii_defs]: "is_ascii_uppercase c \<longleftrightarrow> 65 \<le> byte c \<and> byte c \<le> 90"

definition is_ascii_digit :: "char \<Rightarrow> bool" where
  [ascii_defs]: "is_ascii_digit c \<longleftrightarrow> 48 \<le> byte c \<and> byte c \<le> 57"

definition is_ascii_alphanumeric :: "char \<Rightarrow> bool" where
  [ascii_defs]: "is_ascii_alphanumeric c \<longleftrightarrow>
     is_ascii_lowercase c \<or> is_ascii_uppercase c \<or> is_ascii_digit c"

definition is_ascii_whitespace :: "char \<Rightarrow> bool" where
  [ascii_defs]: "is_ascii_whitespace c \<longleftrightarrow> byte c = 32 \<or> (9 \<le> byte c \<and> byte c \<le> 13)"

definition ascii_lower :: "char \<Rightarrow> char" where
  "ascii_lower c = (if is_ascii_uppercase c then char_of (byte c + 32) else c)"

definition to_ascii_lowercase :: "string \<Rightarrow> string" where
  "to_ascii_lowercase s = map ascii_lower s"

definition eq_ignore_ascii_case :: "string \<Rightarrow> string \<Rightarrow> bool" where
  "eq_ignore_ascii_case a b \<longleftrightarrow> to_ascii_lowercase a = to_ascii_lowercase b"

definition trim_end_matches :: "char \<Rightarrow> string \<Rightarrow> string" where
  "trim_end_matches c s = rev (dropWhile (\<lambda>x. x = c) (rev s))"

definition ends_with :: "string \<Rightarrow> string \<Rightarrow> bool" where
  "ends_with s suf \<longleftrightarrow> length suf \<le> length s \<and> drop (length s - length suf) s = suf"

definition starts_with :: "string \<Rightarrow> string \<Rightarrow> bool" where
  "starts_with s pre \<longleftrightarrow> take (length pre) s = pre"

text \<open>\<open>str::trim\<close> on the ASCII texts the sources apply it to.\<close>

definition str_trim :: "string \<Rightarrow> string" where
  "str_trim s = rev (dropWhile is_ascii_whitespace (rev (dropWhile is_ascii_whitespace s)))"

text \<open>\<open>str::split(char)\<close>: there is always at least one piece.\<close>

fun split_char :: "char \<Rightarrow> string \<Rightarrow> string list" where
  "split_char sep [] = [[]]"
| "split_char sep (c # cs) =
     (if c = sep then [] # split_char sep cs
      else case split_char sep cs of [] \<Rightarrow> [[c]] | p # ps \<Rightarrow> (c # p) # ps)"

text \<open>\<open>str::split_once(char)\<close> and \<open>str::rsplit_once(char)\<close>.\<close>

fun split_once :: "char \<Rightarrow> string \<Rightarrow> (string \<times> string) option" where
  "split_once sep [] = None"
| "split_once sep (c # cs) =
     (if c = sep then Some ([], cs)
      else map_option (\<lambda>(a, b). (c # a, b)) (split_once sep cs))"

definition rsplit_once :: "char \<Rightarrow> string \<Rightarrow> (string \<times> string) option" where
  "rsplit_once sep s = map_option (\<lambda>(a, b). (rev b, rev a)) (split_once sep (rev s))"

text \<open>\<open>[String]::join\<close>.\<close>

fun join :: "string \<Rightarrow> string list \<Rightarrow> string" where
  "join sep [] = []"
| "join sep [x] = x"
| "join sep (x # y # zs) = x @ sep @ join sep (y # zs)"

lemma split_char_nonempty [simp]: "split_char c s \<noteq> []"
  by (induction s) (auto split: list.splits)

lemma split_char_notin: "c \<notin> set s \<Longrightarrow> split_char c s = [s]"
  by (induction s) auto

lemma split_char_append:
  "c \<notin> set p \<Longrightarrow> split_char c (p @ c # s) = p # split_char c s"
  by (induction p) auto

lemma split_char_join:
  "xs \<noteq> [] \<Longrightarrow> \<forall>x\<in>set xs. c \<notin> set x \<Longrightarrow> split_char c (join [c] xs) = xs"
  by (induction "[c]" xs rule: join.induct) (auto simp: split_char_notin split_char_append)

lemma join_nil_iff: "join [c] xs = [] \<longleftrightarrow> xs = [] \<or> xs = [[]]"
  by (induction "[c]" xs rule: join.induct) auto

lemma eq_ignore_ascii_case_refl [simp]: "eq_ignore_ascii_case s s"
  by (simp add: eq_ignore_ascii_case_def)

lemma eq_ignore_ascii_case_sym: "eq_ignore_ascii_case a b \<longleftrightarrow> eq_ignore_ascii_case b a"
  by (auto simp: eq_ignore_ascii_case_def)

section \<open>Decimal printing and parsing of unsigned integers\<close>

definition digit_char :: "nat \<Rightarrow> char" where
  "digit_char d = char_of (48 + d)"

fun nat_to_string :: "nat \<Rightarrow> string" where
  "nat_to_string n =
     (if n < 10 then [digit_char n] else nat_to_string (n div 10) @ [digit_char (n mod 10)])"

declare nat_to_string.simps [simp del]

text \<open>\<open>char::to_digit\<close> for radix 10 and 16.\<close>

definition to_digit :: "nat \<Rightarrow> char \<Rightarrow> nat option" where
  "to_digit radix c =
     (let d = (if is_ascii_digit c then byte c - 48
               else if is_ascii_lowercase c then byte c - 87
               else if is_ascii_uppercase c then byte c - 55 else 99)
      in if d < radix then Some d else None)"

fun parse_digits :: "nat \<Rightarrow> nat \<Rightarrow> nat \<Rightarrow> string \<Rightarrow> nat option" where
  "parse_digits radix bound acc [] = Some acc"
| "parse_digits radix bound acc (c # cs) =
     (case to_digit radix c of
        None \<Rightarrow> None
      | Some d \<Rightarrow> (let v = acc * radix + d
                  in if bound \<le> v then None else parse_digits radix bound v cs))"

text \<open>
  \<open>uN::from_str_radix\<close>: an optional plus sign, then at least one digit; a value that
  does not fit is an error. \<open>bound\<close> is \<open>2 ^ N\<close>.
\<close>

definition parse_uint :: "nat \<Rightarrow> nat \<Rightarrow> string \<Rightarrow> nat option" where
  "parse_uint radix bound s =
     (let body = (case s of c # cs \<Rightarrow> if c = CHR ''+'' then cs else s | [] \<Rightarrow> [])
      in if body = [] then None else parse_digits radix bound 0 body)"

definition parse_u16 :: "nat \<Rightarrow> string \<Rightarrow> u16 option" where
  "parse_u16 radix s = map_option word_of_nat (parse_uint radix 65536 s)"

definition u16_to_string :: "u16 \<Rightarrow> string" where
  "u16_to_string w = nat_to_string (unat w)"

lemma byte_digit_char: "d < 10 \<Longrightarrow> byte (digit_char d) = 48 + d"
  by (simp add: digit_char_def)

lemma to_digit_digit_char [simp]: "d < 10 \<Longrightarrow> to_digit 10 (digit_char d) = Some d"
  by (simp add: to_digit_def byte_digit_char ascii_defs)

lemma parse_digits_append:
  "parse_digits r b acc (xs @ ys) =
     (case parse_digits r b acc xs of None \<Rightarrow> None | Some v \<Rightarrow> parse_digits r b v ys)"
  by (induction xs arbitrary: acc) (auto simp: Let_def split: option.splits)

lemma nat_to_string_nonempty [simp]: "nat_to_string n \<noteq> []"
  by (subst nat_to_string.simps) simp

lemma parse_nat_to_string: "n < b \<Longrightarrow> parse_digits 10 b 0 (nat_to_string n) = Some n"
proof (induction n rule: nat_to_string.induct)
  case (1 n)
  show ?case
  proof (cases "n < 10")
    case True
    with 1 show ?thesis by (simp add: nat_to_string.simps [of n] Let_def)
  next
    case False
    then have "parse_digits 10 b 0 (nat_to_string (n div 10)) = Some (n div 10)"
      using 1 by simp
    with False "1.prems" show ?thesis
      by (simp add: nat_to_string.simps [of n] parse_digits_append Let_def)
  qed
qed

lemma nat_to_string_digits: "c \<in> set (nat_to_string n) \<Longrightarrow> is_ascii_digit c"
proof (induction n rule: nat_to_string.induct)
  case (1 n)
  then show ?case
    by (cases "n < 10")
      (auto simp: nat_to_string.simps [of n] byte_digit_char ascii_defs)
qed

lemma nat_to_string_inj:
  assumes "nat_to_string m = nat_to_string n"
  shows "m = n"
proof -
  have "Some m = parse_digits 10 (Suc (m + n)) 0 (nat_to_string m)"
    by (rule parse_nat_to_string [symmetric]) simp
  also have "\<dots> = parse_digits 10 (Suc (m + n)) 0 (nat_to_string n)"
    by (simp only: assms)
  also have "\<dots> = Some n"
    by (rule parse_nat_to_string) simp
  finally show ?thesis by simp
qed

lemma nat_to_string_head: "nat_to_string n = c # cs \<Longrightarrow> c \<noteq> CHR ''+''"
  using nat_to_string_digits [of c n] by (auto simp: ascii_defs)

lemma parse_uint_nat_to_string: "n < b \<Longrightarrow> parse_uint 10 b (nat_to_string n) = Some n"
  using nat_to_string_head [of n]
  by (cases "nat_to_string n") (auto simp: parse_uint_def parse_nat_to_string [symmetric])

lemma parse_u16_to_string [simp]: "parse_u16 10 (u16_to_string w) = Some w"
proof -
  have "unat w < 2 ^ LENGTH(16)" by (rule unsigned_less)
  then have "unat w < 65536" by simp
  then show ?thesis
    by (simp add: parse_u16_def u16_to_string_def parse_uint_nat_to_string del: map_option_eq_Some)
qed

section \<open>Ordered maps\<close>

text \<open>
  The laws of a finite map with last-write-wins insertion, and what a client that builds a
  map by inserting a list of entries can rely on. \<open>entries\<close> is what iteration yields.
\<close>

locale finite_map =
  fixes empty :: 'm
    and insert :: "'k \<Rightarrow> 'v \<Rightarrow> 'm \<Rightarrow> 'm"
    and get :: "'m \<Rightarrow> 'k \<Rightarrow> 'v option"
    and entries :: "'m \<Rightarrow> ('k \<times> 'v) list"
    and inv :: "'m \<Rightarrow> bool"
  assumes get_empty: "get empty k = None"
    and get_insert: "inv m \<Longrightarrow> get (insert k v m) k' = (if k' = k then Some v else get m k')"
    and inv_empty: "inv empty"
    and inv_insert: "inv m \<Longrightarrow> inv (insert k v m)"
    and entries_get: "inv m \<Longrightarrow> (k, v) \<in> set (entries m) \<longleftrightarrow> get m k = Some v"
    and entries_distinct: "inv m \<Longrightarrow> distinct (map fst (entries m))"
begin

abbreviation insert_all :: "('k \<times> 'v) list \<Rightarrow> 'm \<Rightarrow> 'm" where
  "insert_all kvs m \<equiv> fold (\<lambda>(k, v). insert k v) kvs m"

lemma inv_insert_all: "inv m \<Longrightarrow> inv (insert_all kvs m)"
  by (induction kvs arbitrary: m) (auto simp: inv_insert)

lemma get_insert_all:
  "inv m \<Longrightarrow> get (insert_all kvs m) k =
     (case map_of (rev kvs) k of None \<Rightarrow> get m k | Some v \<Rightarrow> Some v)"
proof (induction kvs arbitrary: m)
  case Nil
  then show ?case by simp
next
  case (Cons kv kvs)
  then show ?case
    by (cases kv)
      (auto simp: inv_insert get_insert map_add_Some_iff map_add_None
         split: option.splits)
qed

lemma get_insert_all_distinct:
  "distinct (map fst kvs) \<Longrightarrow> get (insert_all kvs empty) k = map_of kvs k"
proof -
  assume "distinct (map fst kvs)"
  then have "map_of (rev kvs) = map_of kvs"
    by (subst map_of_inject_set) (simp_all add: rev_map [symmetric])
  then show ?thesis
    by (simp add: get_insert_all inv_empty get_empty split: option.splits)
qed

lemma dom_insert_all:
  "get (insert_all kvs empty) k = None \<longleftrightarrow> k \<notin> fst ` set kvs"
proof -
  have "map_of (rev kvs) k = None \<longleftrightarrow> k \<notin> fst ` set kvs"
    by (simp add: map_of_eq_None_iff)
  then show ?thesis
    by (cases "map_of (rev kvs) k") (auto simp: get_insert_all inv_empty get_empty)
qed

end

text \<open>\<open>BTreeMap\<close>: the association list in key order.\<close>

type_synonym ('k, 'v) btree = "('k \<times> 'v) list"

abbreviation bt_empty :: "('k, 'v) btree" where
  "bt_empty \<equiv> []"

abbreviation bt_get :: "('k, 'v) btree \<Rightarrow> 'k \<Rightarrow> 'v option" where
  "bt_get m k \<equiv> map_of m k"

definition bt_insert :: "'k::linorder \<Rightarrow> 'v \<Rightarrow> ('k, 'v) btree \<Rightarrow> ('k, 'v) btree" where
  "bt_insert k v m = filter (\<lambda>e. fst e < k) m @ (k, v) # filter (\<lambda>e. k < fst e) m"

definition bt_inv :: "('k::linorder, 'v) btree \<Rightarrow> bool" where
  "bt_inv m \<longleftrightarrow> sorted_wrt (<) (map fst m)"

lemma bt_inv_distinct: "bt_inv m \<Longrightarrow> distinct (map fst m)"
  by (simp add: bt_inv_def strict_sorted_iff)

lemma map_of_filter_key:
  "map_of (filter (\<lambda>e. P (fst e)) m) k = (if P k then map_of m k else None)"
  by (induction m) auto

lemmas map_of_filter_order =
  map_of_filter_key [where P = "\<lambda>x. x < b" for b]
  map_of_filter_key [where P = "\<lambda>x. b < x" for b]

lemma bt_get_insert [simp]:
  "bt_get (bt_insert k v m) k' = (if k' = k then Some v else bt_get m k')"
  by (auto simp: bt_insert_def map_add_def map_of_filter_order split: option.splits)

lemma bt_inv_insert: "bt_inv m \<Longrightarrow> bt_inv (bt_insert k v m)"
  by (auto simp: bt_inv_def bt_insert_def sorted_wrt_append sorted_wrt_map sorted_wrt_filter)

lemma bt_inv_filter: "bt_inv m \<Longrightarrow> bt_inv (filter P m)"
  by (simp add: bt_inv_def sorted_wrt_map sorted_wrt_filter)

lemma bt_insert_nonempty [simp]: "bt_insert k v m \<noteq> []"
  by (simp add: bt_insert_def)

interpretation bt: finite_map bt_empty bt_insert map_of "\<lambda>m. m" bt_inv
  by unfold_locales (auto simp: bt_inv_def[of "[]"] bt_inv_insert bt_inv_distinct map_of_eq_Some_iff)

lemma length_bt_insert:
  assumes "bt_inv m"
  shows "length (bt_insert k v m) = (if k \<in> fst ` set m then length m else Suc (length m))"
proof -
  have "length (bt_insert k v m) = card (fst ` set (bt_insert k v m))"
    using distinct_card [OF bt_inv_distinct [OF bt_inv_insert [OF assms]]] by simp
  also have "fst ` set (bt_insert k v m) = insert k (fst ` set m)"
    by (auto simp: bt_insert_def image_iff)
  also have "card \<dots> = (if k \<in> fst ` set m then length m else Suc (length m))"
    using distinct_card [OF bt_inv_distinct [OF assms]] by (simp add: card_insert_if)
  finally show ?thesis .
qed

lemma disjoint_insert_subset: "a \<notin> A \<Longrightarrow> A \<inter> M = {} \<Longrightarrow> B \<subseteq> insert a M \<Longrightarrow> A \<inter> B = {}"
  by blast

lemma length_insert_all_distinct:
  assumes "distinct (map fst kvs)" and "bt_inv m" and "fst ` set kvs \<inter> fst ` set m = {}"
  shows "length (fold (\<lambda>(k, v). bt_insert k v) kvs m) = length kvs + length m"
  using assms
proof (induction kvs arbitrary: m)
  case Nil
  then show ?case by simp
next
  case (Cons kv kvs)
  have "fst ` set kvs \<inter> fst ` set (bt_insert (fst kv) (snd kv) m) = {}"
  proof (rule disjoint_insert_subset)
    show "fst kv \<notin> fst ` set kvs" and "fst ` set kvs \<inter> fst ` set m = {}"
      using Cons.prems(1,3) by auto
    show "fst ` set (bt_insert (fst kv) (snd kv) m) \<subseteq> insert (fst kv) (fst ` set m)"
      by (auto simp: bt_insert_def)
  qed
  moreover have "length (bt_insert (fst kv) (snd kv) m) = Suc (length m)"
    using Cons.prems by (auto simp: length_bt_insert)
  ultimately show ?case
    using Cons.IH [of "bt_insert (fst kv) (snd kv) m"] Cons.prems
    by (simp add: case_prod_beta bt_inv_insert)
qed

text \<open>\<open>xs.iter().map(|x| (x.id.clone(), x)).collect::<BTreeMap<_, _>>()\<close>\<close>

definition bt_index :: "('a \<Rightarrow> 'k::linorder) \<Rightarrow> 'a list \<Rightarrow> ('k, 'a) btree" where
  "bt_index key xs = fold (\<lambda>x. bt_insert (key x) x) xs bt_empty"

lemma fold_bt_insert_map:
  "fold (\<lambda>x. bt_insert (f x) (g x)) xs m =
     fold (\<lambda>(k, v). bt_insert k v) (map (\<lambda>x. (f x, g x)) xs) m"
  by (simp add: fold_map comp_def)

lemma bt_index_get:
  assumes "distinct (map key xs)"
  shows "bt_get (bt_index key xs) k = Some x \<longleftrightarrow> x \<in> set xs \<and> key x = k"
proof -
  have d: "distinct (map fst (map (\<lambda>x. (key x, x)) xs))"
    using assms by (simp add: comp_def)
  then have "bt_get (bt_index key xs) k = map_of (map (\<lambda>x. (key x, x)) xs) k"
    unfolding bt_index_def fold_bt_insert_map by (rule bt.get_insert_all_distinct)
  then show ?thesis using d by (auto simp: map_of_eq_Some_iff)
qed

lemma fold_fold_concat: "fold (\<lambda>x. fold f (g x)) xs s = fold f (concat (map g xs)) s"
  by (induction xs arbitrary: s) auto

section \<open>Enumerated loops that push errors\<close>

text \<open>
  \<open>for (index, x) in xs.iter().enumerate()\<close> with a mutable state and a shared error
  vector: the body yields the new state and the errors it pushes, in order.
\<close>

fun for_each :: "(nat \<Rightarrow> 'a \<Rightarrow> 's \<Rightarrow> 's \<times> 'e list) \<Rightarrow> nat \<Rightarrow> 'a list \<Rightarrow> 's \<Rightarrow> 's \<times> 'e list" where
  "for_each body i [] s = (s, [])"
| "for_each body i (x # xs) s =
     (let (s1, e1) = body i x s; (s2, e2) = for_each body (Suc i) xs s1 in (s2, e1 @ e2))"

lemma for_each_errors_Cons:
  "snd (for_each body i (x # xs) s) =
     snd (body i x s) @ snd (for_each body (Suc i) xs (fst (body i x s)))"
  by (simp add: Let_def split: prod.splits)

lemma for_each_state_Cons:
  "fst (for_each body i (x # xs) s) = fst (for_each body (Suc i) xs (fst (body i x s)))"
  by (simp add: Let_def split: prod.splits)

lemmas for_each_Cons = for_each_errors_Cons for_each_state_Cons

declare for_each.simps(2) [simp del]

text \<open>
  The common loop of the validators: each element is entered under its key, a key already
  present is an error, and so is an element that is not \<open>ok\<close> on its own.
\<close>

locale keyed_loop =
  fixes body :: "nat \<Rightarrow> 'a \<Rightarrow> ('k::linorder, 'v) btree \<Rightarrow> ('k, 'v) btree \<times> 'e list"
    and key :: "'a \<Rightarrow> 'k"
    and entry :: "nat \<Rightarrow> 'a \<Rightarrow> 'v"
    and ok :: "'a \<Rightarrow> bool"
  assumes body_map: "fst (body i x m) = bt_insert (key x) (entry i x) m"
    and body_errors: "snd (body i x m) = [] \<longleftrightarrow> ok x \<and> bt_get m (key x) = None"
begin

lemma loop_errors_from:
  "snd (for_each body i xs m) = [] \<longleftrightarrow>
     (\<forall>x\<in>set xs. ok x \<and> bt_get m (key x) = None) \<and> distinct (map key xs)"
proof (induction xs arbitrary: i m)
  case Nil
  then show ?case by simp
next
  case (Cons x xs)
  show ?case
    unfolding for_each_Cons append_is_Nil_conv body_errors body_map Cons.IH
    by (auto simp: image_iff split: if_splits)
qed

lemma loop_errors [loop_rules]:
  "snd (for_each body i xs bt_empty) = [] \<longleftrightarrow> (\<forall>x\<in>set xs. ok x) \<and> distinct (map key xs)"
  by (simp add: loop_errors_from)

lemma loop_map:
  "fst (for_each body i xs m) =
     fold (\<lambda>(k, v). bt_insert k v) (map (\<lambda>(j, x). (key x, entry j x)) (enumerate i xs)) m"
  by (induction xs arbitrary: i m) (simp_all add: for_each_Cons body_map)

lemma loop_dom:
  "bt_get (fst (for_each body i xs bt_empty)) k = None \<longleftrightarrow> k \<notin> key ` set xs"
proof -
  have "fst ` set (map (\<lambda>(j, x). (key x, entry j x)) (enumerate i xs)) = key ` set xs"
    by (induction xs arbitrary: i) auto
  then show ?thesis by (simp only: loop_map bt.dom_insert_all)
qed

lemma loop_get:
  assumes "distinct (map key xs)"
  shows "bt_get (fst (for_each body i xs bt_empty)) k = Some v \<longleftrightarrow>
     (\<exists>j < length xs. key (xs ! j) = k \<and> v = entry (i + j) (xs ! j))"
proof -
  let ?kvs = "map (\<lambda>(j, x). (key x, entry j x)) (enumerate i xs)"
  have keys: "map fst ?kvs = map key xs"
    by (induction xs arbitrary: i) auto
  have "bt_get (fst (for_each body i xs bt_empty)) k = map_of ?kvs k"
    using assms by (simp only: loop_map keys bt.get_insert_all_distinct)
  also have "\<dots> = Some v \<longleftrightarrow> (k, v) \<in> set ?kvs"
    using assms by (simp only: map_of_eq_Some_iff keys)
  also have "\<dots> \<longleftrightarrow> (\<exists>j < length xs. key (xs ! j) = k \<and> v = entry (i + j) (xs ! j))"
    by (fastforce simp: in_set_conv_nth nth_enumerate_eq)
  finally show ?thesis .
qed

end

section \<open>Loops that may panic\<close>

text \<open>
  A loop whose body indexes a map (\<open>map[&key]\<close>) panics when the key is absent; \<open>None\<close>
  is the panic.
\<close>

fun fold_option :: "('a \<Rightarrow> 's \<Rightarrow> 's option) \<Rightarrow> 'a list \<Rightarrow> 's \<Rightarrow> 's option" where
  "fold_option f [] s = Some s"
| "fold_option f (x # xs) s = (case f x s of None \<Rightarrow> None | Some s' \<Rightarrow> fold_option f xs s')"

lemma fold_option_total:
  "(\<And>x s. x \<in> set xs \<Longrightarrow> f x s = Some (g x s)) \<Longrightarrow> fold_option f xs s = Some (fold g xs s)"
  by (induction xs arbitrary: s) auto

section \<open>Results\<close>

text \<open>
  \<open>Result<T, E>\<close> is \<open>'e + 't\<close> with \<open>Inl\<close> the error; \<open>and_then\<close> is the \<open>?\<close> operator, and
  \<open>reject_if\<close> the early return \<open>if condition { return Err(e) }\<close>.
\<close>

primrec and_then :: "'e + 'a \<Rightarrow> ('a \<Rightarrow> 'e + 'b) \<Rightarrow> 'e + 'b" where
  "and_then (Inl e) f = Inl e"
| "and_then (Inr a) f = f a"

definition reject_if :: "bool \<Rightarrow> 'e \<Rightarrow> 'e + unit" where
  "reject_if bad e = (if bad then Inl e else Inr ())"

lemma and_then_Inr: "and_then r f = Inr b \<longleftrightarrow> (\<exists>a. r = Inr a \<and> f a = Inr b)"
  by (cases r) auto

lemma and_then_Inl: "and_then r f = Inl e \<longleftrightarrow> r = Inl e \<or> (\<exists>a. r = Inr a \<and> f a = Inl e)"
  by (cases r) auto

lemma reject_if_Inr: "reject_if bad e = Inr u \<longleftrightarrow> \<not> bad"
  by (simp add: reject_if_def)

lemma reject_if_Inl: "reject_if bad e = Inl e' \<longleftrightarrow> bad \<and> e' = e"
  by (auto simp: reject_if_def)

lemmas result_simps = and_then_Inr and_then_Inl reject_if_Inr reject_if_Inl

text \<open>\<open>iter.map(f).collect::<Result<Vec<_>, _>>()\<close>\<close>

fun collect_results :: "('a \<Rightarrow> 'e + 'b) \<Rightarrow> 'a list \<Rightarrow> 'e + 'b list" where
  "collect_results f [] = Inr []"
| "collect_results f (x # xs) =
     and_then (f x) (\<lambda>y. and_then (collect_results f xs) (\<lambda>ys. Inr (y # ys)))"

lemma collect_results_total:
  "(\<And>x. x \<in> set xs \<Longrightarrow> f x = Inr (g x)) \<Longrightarrow> collect_results f xs = Inr (map g xs)"
  by (induction xs) auto

lemma collect_results_Inr: "collect_results f xs = Inr ys \<longleftrightarrow> map f xs = map Inr ys"
  by (induction xs arbitrary: ys) (auto simp: and_then_Inr Cons_eq_map_conv)

lemma collect_results_in:
  assumes "collect_results f xs = Inr ys" and "y \<in> set ys"
  shows "\<exists>x\<in>set xs. f x = Inr y"
proof -
  have "Inr y \<in> set (map f xs)" using assms by (simp add: collect_results_Inr)
  then show ?thesis by auto
qed

section \<open>Signed 64-bit integers\<close>

text \<open>An \<open>i64\<close> is an \<open>int\<close> in range; the range is written out where the sources check it.\<close>

type_synonym i64 = int

definition in_i64 :: "int \<Rightarrow> bool" where
  "in_i64 x \<longleftrightarrow> - (2 ^ 63) \<le> x \<and> x < 2 ^ 63"

definition i64_checked_add :: "i64 \<Rightarrow> i64 \<Rightarrow> i64 option" where
  "i64_checked_add a b = (if in_i64 (a + b) then Some (a + b) else None)"

definition u64_to_i64 :: "u64 \<Rightarrow> i64 option" where
  "u64_to_i64 w = (if in_i64 (uint w) then Some (uint w) else None)"

definition int_to_string :: "int \<Rightarrow> string" where
  "int_to_string n = (if n < 0 then CHR ''-'' # nat_to_string (nat (- n)) else nat_to_string (nat n))"

section \<open>Unicode white space\<close>

text \<open>
  \<open>char::is_whitespace\<close> on UTF-8 text: the length in bytes of the white-space character a
  text starts with, 0 when it does not start with one.
\<close>

definition whitespace_len :: "string \<Rightarrow> nat" where
  "whitespace_len s =
     (case map byte (take 3 s) of
        [] \<Rightarrow> 0
      | b # bs \<Rightarrow>
          if b = 32 \<or> 9 \<le> b \<and> b \<le> 13 then 1
          else if b = 194 \<and> bs \<noteq> [] \<and> (hd bs = 133 \<or> hd bs = 160) then 2
          else if b # bs \<in> set [[225, 154, 128], [226, 128, 168], [226, 128, 169], [226, 128, 175],
                  [226, 129, 159], [227, 128, 128]] then 3
          else if b = 226 \<and> length bs = 2 \<and> hd bs = 128 \<and> 128 \<le> last bs \<and> last bs \<le> 138 then 3
          else 0)"

lemma whitespace_len_nonempty [simp]: "whitespace_len [] = 0"
  by (simp add: whitespace_len_def)

function trim_start :: "string \<Rightarrow> string" where
  "trim_start s = (if whitespace_len s = 0 then s else trim_start (drop (whitespace_len s) s))"
  by auto
termination
proof (relation "measure length")
  show "(drop (whitespace_len s) s, s) \<in> measure length" if "whitespace_len s \<noteq> 0" for s
    using that by (cases s) auto
qed simp

declare trim_start.simps [simp del]

text \<open>\<open>value.trim().is_empty()\<close> and \<open>value.chars().any(char::is_whitespace)\<close>\<close>

definition is_blank :: "string \<Rightarrow> bool" where
  "is_blank s \<longleftrightarrow> trim_start s = []"

fun contains_whitespace :: "string \<Rightarrow> bool" where
  "contains_whitespace [] = False"
| "contains_whitespace (c # cs) \<longleftrightarrow> whitespace_len (c # cs) \<noteq> 0 \<or> contains_whitespace cs"

lemma is_blank_empty [simp]: "is_blank []"
  by (simp add: is_blank_def trim_start.simps)

lemma not_blank_nonempty: "\<not> is_blank s \<Longrightarrow> s \<noteq> []"
  by auto

section \<open>Bounded logs\<close>

text \<open>
  The contract of a log that keeps its newest entries: pushing an entry appends it and drops
  the oldest ones beyond the capacity. \<open>entry\<close> is what the log stores for a pushed item.
\<close>

definition last_n :: "nat \<Rightarrow> 'a list \<Rightarrow> 'a list" where
  "last_n n xs = drop (length xs - n) xs"

lemma last_n_length [simp]: "length (last_n n xs) = min n (length xs)"
  by (auto simp: last_n_def)

lemma last_n_short [simp]: "length xs \<le> n \<Longrightarrow> last_n n xs = xs"
  by (simp add: last_n_def)

lemma last_n_append: "last_n n (last_n n xs @ ys) = last_n n (xs @ ys)"
  by (cases "length xs \<le> n") (auto simp: last_n_def min_def add.commute)

definition push_bounded :: "nat \<Rightarrow> 'a \<Rightarrow> 'a list \<Rightarrow> 'a list" where
  "push_bounded cap x xs = (if length xs = cap then drop 1 xs else xs) @ [x]"

lemma push_bounded_last_n:
  "0 < cap \<Longrightarrow> length xs \<le> cap \<Longrightarrow> push_bounded cap x xs = last_n cap (xs @ [x])"
  by (cases xs) (auto simp: push_bounded_def last_n_def Suc_diff_le)

locale bounded_log =
  fixes log :: "'s \<Rightarrow> 'x list" and capacity :: "'s \<Rightarrow> nat"
    and entry :: "'e \<Rightarrow> 's \<Rightarrow> 'x" and push :: "'e \<Rightarrow> 's \<Rightarrow> 's"
  assumes push_log: "length (log s) \<le> capacity s \<Longrightarrow>
      log (push e s) = last_n (capacity s) (log s @ [entry e s])"
    and push_capacity: "capacity (push e s) = capacity s"
begin

primrec entries :: "'e list \<Rightarrow> 's \<Rightarrow> 'x list" where
  "entries [] s = []"
| "entries (e # es) s = entry e s # entries es (push e s)"

lemma run_capacity: "capacity (fold push es s) = capacity s"
  by (induction es arbitrary: s) (auto simp: push_capacity)

lemma run_log:
  "length (log s) \<le> capacity s \<Longrightarrow>
     log (fold push es s) = last_n (capacity s) (log s @ entries es s)"
  by (induction es arbitrary: s) (auto simp: push_log push_capacity last_n_append)

lemma run_bounded: "length (log s) \<le> capacity s \<Longrightarrow> length (log (fold push es s)) \<le> capacity s"
  by (simp add: run_log)

end

section \<open>Servers\<close>

text \<open>
  The contract of a server whose handler keeps an invariant: \<open>step\<close> handles one input and
  may fail to answer (\<open>None\<close>); a run is a sequence of inputs. An invariant that the handler
  keeps, and under which it always answers, holds after every run, and no run gets stuck.
\<close>

locale server =
  fixes step :: "'i \<Rightarrow> 's \<Rightarrow> ('o \<times> 's) option" and inv :: "'s \<Rightarrow> bool" and ok :: "'i \<Rightarrow> bool"
  assumes step_total: "inv s \<Longrightarrow> ok i \<Longrightarrow> step i s \<noteq> None"
    and step_inv: "inv s \<Longrightarrow> ok i \<Longrightarrow> step i s = Some (out, s') \<Longrightarrow> inv s'"
begin

primrec run :: "'i list \<Rightarrow> 's \<Rightarrow> ('o list \<times> 's) option" where
  "run [] s = Some ([], s)"
| "run (i # is) s =
     (case step i s of
        None \<Rightarrow> None
      | Some (out, s') \<Rightarrow> map_option (\<lambda>(outs, s''). (out # outs, s'')) (run is s'))"

lemma run_inv: "inv s \<Longrightarrow> \<forall>i\<in>set is. ok i \<Longrightarrow> run is s = Some (outs, s') \<Longrightarrow> inv s'"
  by (induction "is" arbitrary: s outs) (auto split: option.splits intro: step_inv)

lemma run_total: "inv s \<Longrightarrow> \<forall>i\<in>set is. ok i \<Longrightarrow> \<exists>outs s'. run is s = Some (outs, s') \<and> length outs = length is"
proof (induction "is" arbitrary: s)
  case Nil
  then show ?case by simp
next
  case (Cons i "is")
  then obtain out s' where "step i s = Some (out, s')" using step_total [of s i] by auto
  moreover from this Cons have "inv s'" using step_inv by auto
  ultimately show ?case using Cons.IH [of s'] Cons.prems by auto
qed

end

end
