(* ===== verification/NetAddr.thy ===== *)
theory NetAddr
  imports Prelude
begin

text \<open>
  IP addresses as the router uses them from \<open>std::net\<close>: the type \<open>IpAddr\<close> with its
  derived order, the predicates \<open>is_loopback\<close>, \<open>is_unspecified\<close>, \<open>is_ipv4\<close>, and
  the textual parser behind \<open>str::parse::<IpAddr>\<close> (dotted decimal without leading
  zeros; RFC 4291 hexadecimal groups with one \<open>::\<close> and an optional trailing dotted
  IPv4 part).
\<close>

datatype ip_addr = V4 u32 | V6 "128 word"

instantiation ip_addr :: linorder
begin

fun less_eq_ip_addr :: "ip_addr \<Rightarrow> ip_addr \<Rightarrow> bool" where
  "less_eq_ip_addr (V4 a) (V4 b) = (a \<le> b)"
| "less_eq_ip_addr (V4 a) (V6 b) = True"
| "less_eq_ip_addr (V6 a) (V4 b) = False"
| "less_eq_ip_addr (V6 a) (V6 b) = (a \<le> b)"

definition less_ip_addr :: "ip_addr \<Rightarrow> ip_addr \<Rightarrow> bool" where
  "less_ip_addr a b \<longleftrightarrow> a \<le> b \<and> \<not> b \<le> a"

instance
proof
  fix x y z :: ip_addr
  show "x < y \<longleftrightarrow> x \<le> y \<and> \<not> y \<le> x" by (rule less_ip_addr_def)
  show "x \<le> x" by (cases x) simp_all
  show "x \<le> y \<Longrightarrow> y \<le> z \<Longrightarrow> x \<le> z" by (cases x; cases y; cases z) auto
  show "x \<le> y \<Longrightarrow> y \<le> x \<Longrightarrow> x = y" by (cases x; cases y) auto
  show "x \<le> y \<or> y \<le> x" by (cases x; cases y) auto
qed

end

fun is_loopback :: "ip_addr \<Rightarrow> bool" where
  "is_loopback (V4 a) \<longleftrightarrow> drop_bit 24 a = 127"
| "is_loopback (V6 a) \<longleftrightarrow> a = 1"

fun is_unspecified :: "ip_addr \<Rightarrow> bool" where
  "is_unspecified (V4 a) \<longleftrightarrow> a = 0"
| "is_unspecified (V6 a) \<longleftrightarrow> a = 0"

fun is_ipv4 :: "ip_addr \<Rightarrow> bool" where
  "is_ipv4 (V4 a) = True"
| "is_ipv4 (V6 a) = False"

lemma unspecified_not_loopback: "is_unspecified a \<Longrightarrow> \<not> is_loopback a"
  by (cases a) auto

section \<open>Parsing\<close>

text \<open>Every reader returns the value and the remaining input, or fails without consuming.\<close>

definition horner :: "nat \<Rightarrow> nat list \<Rightarrow> nat" where
  "horner b ds = foldl (\<lambda>a d. a * b + d) 0 ds"

definition read_number :: "nat \<Rightarrow> nat \<Rightarrow> bool \<Rightarrow> nat \<Rightarrow> string \<Rightarrow> (nat \<times> string) option" where
  "read_number radix max_digits allow_zero_prefix bound s =
     (let ds = takeWhile (\<lambda>c. to_digit radix c \<noteq> None) s;
          v = horner radix (map (\<lambda>c. case to_digit radix c of Some d \<Rightarrow> d | None \<Rightarrow> 0) ds)
      in if ds = [] \<or> max_digits < length ds
            \<or> (\<not> allow_zero_prefix \<and> take 1 ds = ''0'' \<and> 1 < length ds) \<or> bound \<le> v
         then None else Some (v, drop (length ds) s))"

definition read_separator ::
  "char \<Rightarrow> nat \<Rightarrow> (string \<Rightarrow> ('a \<times> string) option) \<Rightarrow> string \<Rightarrow> ('a \<times> string) option" where
  "read_separator sep index inner s =
     (if index = 0 then inner s
      else case s of [] \<Rightarrow> None | c # cs \<Rightarrow> if c = sep then inner cs else None)"

fun read_octets :: "nat \<Rightarrow> nat \<Rightarrow> string \<Rightarrow> (nat list \<times> string) option" where
  "read_octets 0 i s = Some ([], s)"
| "read_octets (Suc r) i s =
     (case read_separator CHR ''.'' i (read_number 10 3 False 256) s of
        None \<Rightarrow> None
      | Some (d, rest) \<Rightarrow> map_option (\<lambda>(ds, t). (d # ds, t)) (read_octets r (Suc i) rest))"

definition read_ipv4 :: "string \<Rightarrow> (nat \<times> string) option" where
  "read_ipv4 s = map_option (\<lambda>(ds, t). (horner 256 ds, t)) (read_octets 4 0 s)"

text \<open>
  \<open>read_groups r i s\<close> reads up to \<open>r\<close> further groups, the first of them having index
  \<open>i\<close>; the flag tells whether the last two came from a dotted IPv4 part.
\<close>

fun read_groups :: "nat \<Rightarrow> nat \<Rightarrow> string \<Rightarrow> nat list \<times> bool \<times> string" where
  "read_groups 0 i s = ([], False, s)"
| "read_groups (Suc r) i s =
     (case (if r = 0 then None else read_separator CHR '':'' i read_ipv4 s) of
        Some (v4, rest) \<Rightarrow> ([v4 div 65536, v4 mod 65536], True, rest)
      | None \<Rightarrow>
          (case read_separator CHR '':'' i (read_number 16 4 True 65536) s of
             None \<Rightarrow> ([], False, s)
           | Some (g, rest) \<Rightarrow>
               (let (gs, v4, t) = read_groups r (Suc i) rest in (g # gs, v4, t))))"

definition read_ipv6 :: "string \<Rightarrow> (nat \<times> string) option" where
  "read_ipv6 s =
     (let (hs, v4, rest) = read_groups 8 0 s
      in if length hs = 8 then Some (horner 65536 hs, rest)
         else if v4 then None
         else if take 2 rest = ''::''
         then (let (ts, _, t) = read_groups (8 - (length hs + 1)) 0 (drop 2 rest)
               in Some (horner 65536 (hs @ replicate (8 - length hs - length ts) 0 @ ts), t))
         else None)"

definition parse_ip_addr :: "string \<Rightarrow> ip_addr option" where
  "parse_ip_addr s =
     (case (case read_ipv4 s of
              Some (a, t) \<Rightarrow> Some (V4 (word_of_nat a), t)
            | None \<Rightarrow> map_option (\<lambda>(a, t). (V6 (word_of_nat a), t)) (read_ipv6 s)) of
        Some (a, []) \<Rightarrow> Some a
      | _ \<Rightarrow> None)"

definition parses_to_loopback :: "string \<Rightarrow> bool" where
  "parses_to_loopback host \<longleftrightarrow> (case parse_ip_addr host of None \<Rightarrow> False | Some a \<Rightarrow> is_loopback a)"

lemma parse_loopback_v4: "parse_ip_addr ''127.0.0.1'' = Some (V4 2130706433)"
  by code_simp

lemma parse_loopback_v6: "parse_ip_addr ''::1'' = Some (V6 1)"
  by code_simp

lemma parse_rejects_leading_zero: "parse_ip_addr ''127.0.0.01'' = None"
  by code_simp

lemma parse_rejects_names: "parse_ip_addr ''localhost'' = None"
  by code_simp

lemma parse_mapped_v6: "parse_ip_addr ''::ffff:10.0.0.1'' = Some (V6 281470849515521)"
  by code_simp

end
