(* ===== verification/RouterConfig.thy ===== *)
theory RouterConfig
  imports NetAddr
begin

text \<open>
  The router configuration schema of \<open>crates/router-config/src/v1alpha1.rs\<close>: its
  structs as records, its enums as datatypes, the accessors of \<open>RouterSpec\<close>, and the
  stand-alone validators (\<open>validate_identifier\<close>, \<open>validate_route_header_value\<close>,
  \<open>validate_provider_reference\<close>, the host classifications). The loops of
  \<open>RouterConfig::validate\<close> are in \<open>RouterValidate\<close>.

  The identifier newtypes (\<open>InstanceId\<close>, \<open>ComponentId\<close>, ...) wrap a string and are
  string synonyms here; a \<open>BTreeMap\<close> is an ordered association list.
\<close>

section \<open>The schema\<close>

type_synonym deployment_id = string
type_synonym instance_id = string
type_synonym component_id = string
type_synonym group_id = string
type_synonym binding_id = string
type_synonym route_slot_id = string
type_synonym route_snapshot_id = string

definition API_VERSION :: string where
  "API_VERSION = ''apmpr.dev/router/v1alpha1''"

definition KIND :: string where
  "KIND = ''RouterConfiguration''"

datatype protocol = Http | Https | Websocket | Grpc | Tcp

datatype connection_transition_policy = Close | Drain u64 | Pin

record connection_transition_policies =
  tp_http :: connection_transition_policy
  tp_https :: connection_transition_policy
  tp_websocket :: connection_transition_policy
  tp_grpc :: connection_transition_policy
  tp_tcp :: connection_transition_policy

record route_snapshot =
  snapshot_id :: route_snapshot_id
  snapshot_version :: u64
  snapshot_transitions :: connection_transition_policies

datatype gateway_exposure_mode = LoopbackMode | LanMode

record gateway_exposure =
  exposure_mode_of :: gateway_exposure_mode
  acknowledge_lan_exposure_risk :: bool
  publish_tailscale :: bool

datatype socket_address = SocketAddress (sa_host: ip_addr) (sa_port: u16)

datatype proxy_authentication_scheme = Basic

record proxy_authentication_cfg =
  auth_scheme :: proxy_authentication_scheme
  credential_file :: string

record tls_identity =
  tls_certificate :: string
  tls_private_key :: string

datatype listener_destination =
    CustomDomain route_slot_id string
  | LegacyLocalhost route_slot_id string
  | Loopback route_slot_id
  | ProxyTarget route_slot_id string u16

fun destination_slot_id :: "listener_destination \<Rightarrow> route_slot_id" where
  "destination_slot_id (CustomDomain slot _) = slot"
| "destination_slot_id (LegacyLocalhost slot _) = slot"
| "destination_slot_id (Loopback slot) = slot"
| "destination_slot_id (ProxyTarget slot _ _) = slot"

record listener =
  listener_consumer :: "instance_id option"
  listener_bind :: socket_address
  listener_protocol :: protocol
  listener_tls :: "tls_identity option"
  listener_destinations :: "listener_destination list"
  proxy_identity :: "binding_id option"
  proxy_authentication :: "proxy_authentication_cfg option"

record upstream_endpoint =
  endpoint_protocol :: protocol
  endpoint_host :: string
  endpoint_port :: u16

datatype health_check_protocol = HealthHttp | HealthHttps | HealthTcp

record health_check =
  check_protocol :: health_check_protocol
  check_path :: "string option"
  check_interval_ms :: u64
  check_timeout_ms :: u64

record provider =
  provider_id :: component_id
  provider_endpoint :: upstream_endpoint
  provider_health_check :: "health_check option"
  receive_identity_header :: bool

record transparent_member =
  member_component :: component_id
  member_host :: string
  member_ports :: "u16 list option"

record transparent_proxy =
  tproxy_consumer :: instance_id
  tproxy_port :: u16
  tproxy_members :: "transparent_member list"
  tproxy_connect_timeout_ms :: u64

record service_group =
  group_id_of :: group_id
  group_providers :: "(route_slot_id, component_id) btree"

record binding_cfg =
  binding_id_of :: binding_id
  binding_consumer :: instance_id
  binding_group :: group_id
  binding_required_slots :: "route_slot_id list"

record route_cfg =
  route_consumer :: instance_id
  route_slot :: route_slot_id
  route_provider :: component_id

datatype browser_identity =
    ExplicitHeader binding_id
  | Origin string
  | ProxyListener route_slot_id

record browser_route =
  browser_identity_of :: browser_identity
  browser_destination :: route_slot_id
  browser_provider :: component_id

record identity_policy =
  explicit_header_name :: string
  strip_before_forwarding :: bool

definition default_identity_policy :: identity_policy where
  "default_identity_policy =
     \<lparr>explicit_header_name = ''X-Apmpr-Route'', strip_before_forwarding = True\<rparr>"

record router_spec =
  spec_snapshot :: route_snapshot
  spec_exposure :: "gateway_exposure option"
  spec_listeners :: "listener list"
  spec_providers :: "provider list"
  spec_groups :: "service_group list"
  spec_bindings :: "binding_cfg list"
  spec_routes :: "route_cfg list"
  spec_browser_routes :: "browser_route list"
  spec_transparent_proxy :: "transparent_proxy option"
  spec_identity :: identity_policy

record router_config =
  api_version :: string
  config_kind :: string
  metadata_deployment :: deployment_id
  config_spec :: router_spec

section \<open>Exposure\<close>

definition exposure_mode :: "router_spec \<Rightarrow> gateway_exposure_mode" where
  "exposure_mode spec =
     (case spec_exposure spec of None \<Rightarrow> LoopbackMode | Some e \<Rightarrow> exposure_mode_of e)"

definition lan_exposure_acknowledged :: "router_spec \<Rightarrow> bool" where
  "lan_exposure_acknowledged spec =
     (case spec_exposure spec of
        None \<Rightarrow> False
      | Some e \<Rightarrow> exposure_mode_of e = LanMode \<and> acknowledge_lan_exposure_risk e)"

definition needs_interface_enumeration :: "router_spec \<Rightarrow> bool" where
  "needs_interface_enumeration spec \<longleftrightarrow>
     exposure_mode spec = LanMode \<and>
     list_ex (\<lambda>l. is_unspecified (sa_host (listener_bind l))) (spec_listeners spec)"

text \<open>
  \<open>BTreeSet<SocketAddr>\<close> iterates by address, then port: the set is the sorted list of
  pairs.
\<close>

record gateway_exposure_summary =
  summary_mode :: gateway_exposure_mode
  exposed_addresses :: "(ip_addr \<times> u16) list"

definition listener_addresses ::
  "gateway_exposure_mode \<Rightarrow> ip_addr list \<Rightarrow> listener \<Rightarrow> (ip_addr \<times> u16) list" where
  "listener_addresses mode interfaces l =
     (let host = sa_host (listener_bind l); port = sa_port (listener_bind l)
      in if mode = LanMode \<and> is_unspecified host
         then map (\<lambda>a. (a, port)) (filter (\<lambda>a. is_ipv4 a = is_ipv4 host) interfaces)
         else [(host, port)])"

definition exposure_summary :: "router_spec \<Rightarrow> ip_addr list \<Rightarrow> gateway_exposure_summary" where
  "exposure_summary spec interfaces =
     (let mode = exposure_mode spec
      in \<lparr>summary_mode = mode,
          exposed_addresses =
            fold insort_insert
              (concat (map (listener_addresses mode interfaces) (spec_listeners spec))) []\<rparr>)"

lemma set_fold_insort_insert: "set (fold insort_insert xs acc) = set xs \<union> set acc"
  by (induction xs arbitrary: acc) (auto simp: set_insort_insert)

lemma sorted_fold_insort_insert: "sorted acc \<Longrightarrow> sorted (fold insort_insert xs acc)"
  by (induction xs arbitrary: acc) (auto simp: sorted_insort_insert)

lemma distinct_fold_insort_insert: "distinct acc \<Longrightarrow> distinct (fold insort_insert xs acc)"
  by (induction xs arbitrary: acc) (auto simp: distinct_insort_insert)

section \<open>Validation errors\<close>

datatype validation_code =
    UnsupportedSchema | InvalidIdentifier | InvalidListener | DuplicateIdentifier
  | DuplicateListener | MissingProvider | MissingGroup | MissingRouteSlot
  | IncompatibleProtocol | IncompleteGroup | AmbiguousRoute | LanExposureNotEnabled
  | LanExposureRiskNotAcknowledged | TailscalePublicationRequiresLanExposure
  | UnsafeLanProvider

record validation_error =
  error_code :: validation_code
  error_path :: string
  error_message :: string
  error_context :: "(string, string) btree"

definition new_error :: "validation_code \<Rightarrow> string \<Rightarrow> string \<Rightarrow> validation_error" where
  "new_error code path message =
     \<lparr>error_code = code, error_path = path, error_message = message, error_context = bt_empty\<rparr>"

definition add_context :: "string \<Rightarrow> string \<Rightarrow> validation_error \<Rightarrow> validation_error" where
  "add_context k v e = e\<lparr>error_context := bt_insert k v (error_context e)\<rparr>"

text \<open>\<open>if condition { errors.push(...) }\<close>\<close>

definition when_error :: "bool \<Rightarrow> validation_error \<Rightarrow> validation_error list" where
  "when_error b e = (if b then [e] else [])"

lemma when_error_Nil [simp]: "when_error b e = [] \<longleftrightarrow> \<not> b"
  by (simp add: when_error_def)

section \<open>Stand-alone validators\<close>

definition valid_segment :: "string \<Rightarrow> bool" where
  "valid_segment segment \<longleftrightarrow>
     segment \<noteq> [] \<and> length segment \<le> 63 \<and>
     list_all (\<lambda>b. is_ascii_lowercase b \<or> is_ascii_digit b \<or> b = CHR ''-'') segment \<and>
     is_ascii_alphanumeric (hd segment) \<and> is_ascii_alphanumeric (last segment)"

definition valid_identifier :: "string \<Rightarrow> bool \<Rightarrow> bool" where
  "valid_identifier value allow_path \<longleftrightarrow>
     (if allow_path
      then list_all valid_segment (split_char CHR ''/'' value) \<and> count_list value CHR ''/'' \<le> 1
      else valid_segment value)"

definition validate_identifier :: "string \<Rightarrow> bool \<Rightarrow> string \<Rightarrow> validation_error list" where
  "validate_identifier value allow_path path =
     when_error (\<not> valid_identifier value allow_path)
       (add_context ''value'' value
         (new_error InvalidIdentifier path
           ''identifier must contain lowercase letters, digits, or interior hyphens''))"

text \<open>
  \<open>bytes[1..]\<close> would panic on the empty slice; the length guard before it is what the
  conjunction evaluates first.
\<close>

definition valid_route_header_value :: "string \<Rightarrow> bool" where
  "valid_route_header_value value \<longleftrightarrow>
     1 \<le> length value \<and> length value \<le> 128 \<and>
     (case value of
        [] \<Rightarrow> False
      | b # bs \<Rightarrow>
          (is_ascii_lowercase b \<or> is_ascii_digit b) \<and>
          list_all (\<lambda>b. is_ascii_lowercase b \<or> is_ascii_digit b \<or> b \<in> set ''._:-'') bs)"

definition validate_route_header_value :: "string \<Rightarrow> string \<Rightarrow> validation_error list" where
  "validate_route_header_value value path =
     when_error (\<not> valid_route_header_value value)
       (new_error InvalidIdentifier path
         ''route header value must be 1-128 lowercase ASCII letters, digits, `.`, `_`, `:`, or `-`, starting with a letter or digit'')"

definition protocols_compatible :: "protocol \<Rightarrow> protocol \<Rightarrow> bool" where
  "protocols_compatible listener provider \<longleftrightarrow>
     listener = provider \<or> (listener \<in> {Http, Https} \<and> provider \<in> {Http, Https})"

definition is_local_host :: "string \<Rightarrow> bool" where
  "is_local_host host \<longleftrightarrow>
     (let normalized = to_ascii_lowercase (trim_end_matches CHR ''.'' host)
      in normalized = ''localhost'' \<or> ends_with normalized ''.localhost''
         \<or> parses_to_loopback normalized)"

definition is_loopback_host :: "string \<Rightarrow> bool" where
  "is_loopback_host host \<longleftrightarrow>
     eq_ignore_ascii_case host ''localhost'' \<or> parses_to_loopback host"

text \<open>The \<open>Debug\<close> rendering of the unit variants of \<open>Protocol\<close>.\<close>

fun protocol_debug :: "protocol \<Rightarrow> string" where
  "protocol_debug Http = ''Http''"
| "protocol_debug Https = ''Https''"
| "protocol_debug Websocket = ''Websocket''"
| "protocol_debug Grpc = ''Grpc''"
| "protocol_debug Tcp = ''Tcp''"

type_synonym slot_table = "(route_slot_id, protocol \<times> string) btree"
type_synonym provider_table = "(component_id, provider) btree"

definition validate_provider_reference ::
  "string \<Rightarrow> route_slot_id \<Rightarrow> component_id \<Rightarrow> slot_table \<Rightarrow> provider_table
     \<Rightarrow> validation_error list" where
  "validate_provider_reference path slot pid slots providers =
     (case bt_get slots slot of
        None \<Rightarrow>
          [add_context ''slot'' slot
             (new_error MissingRouteSlot path ''route refers to an unknown listener destination'')]
      | Some (lproto, _) \<Rightarrow>
          (case bt_get providers pid of
             None \<Rightarrow>
               [add_context ''provider'' pid
                  (new_error MissingProvider path ''route refers to an unknown provider'')]
           | Some p \<Rightarrow>
               when_error
                 (\<not> protocols_compatible lproto (endpoint_protocol (provider_endpoint p)))
                 (add_context ''providerProtocol''
                    (protocol_debug (endpoint_protocol (provider_endpoint p)))
                    (add_context ''listenerProtocol'' (protocol_debug lproto)
                      (new_error IncompatibleProtocol path
                         ''listener and provider protocols are incompatible'')))))"

lemma validate_identifier_Nil [simp]:
  "validate_identifier v a p = [] \<longleftrightarrow> valid_identifier v a"
  by (simp add: validate_identifier_def)

lemma validate_route_header_value_Nil [simp]:
  "validate_route_header_value v p = [] \<longleftrightarrow> valid_route_header_value v"
  by (simp add: validate_route_header_value_def)

lemma validate_provider_reference_Nil:
  "validate_provider_reference path slot pid slots providers = [] \<longleftrightarrow>
     (\<exists>lp s p. bt_get slots slot = Some (lp, s) \<and> bt_get providers pid = Some p \<and>
        protocols_compatible lp (endpoint_protocol (provider_endpoint p)))"
  by (auto simp: validate_provider_reference_def split: option.splits)

end
