(* ===== verification/RouterValidate.thy ===== *)
theory RouterValidate
  imports RouterConfig
begin

text \<open>
  \<open>RouterConfig::validate\<close> loop by loop, in the order of the source, and its declarative
  specification \<open>valid_config\<close>. The loops over providers, groups, bindings, routes,
  browser routes and transparent members are instances of the locale \<open>keyed_loop\<close>; the
  listener loop keeps two tables and has its own invariant.
\<close>

definition indexed :: "string \<Rightarrow> nat \<Rightarrow> string" where
  "indexed base i = base @ ''['' @ nat_to_string i @ '']''"

section \<open>The checks, in source order\<close>

definition schema_errors :: "router_config \<Rightarrow> validation_error list" where
  "schema_errors c =
     when_error (api_version c \<noteq> API_VERSION \<or> config_kind c \<noteq> KIND)
       (new_error UnsupportedSchema ''apiVersion''
         ''configuration must use the supported router schema'')
     @ validate_identifier (metadata_deployment c) False ''metadata.deployment''
     @ validate_identifier (snapshot_id (spec_snapshot (config_spec c))) False ''spec.snapshot.id''"

definition exposure_errors :: "router_spec \<Rightarrow> validation_error list" where
  "exposure_errors spec =
     when_error
       (case spec_exposure spec of
          None \<Rightarrow> False
        | Some e \<Rightarrow> exposure_mode_of e = LanMode \<and> \<not> acknowledge_lan_exposure_risk e)
       (new_error LanExposureRiskNotAcknowledged ''spec.exposure.acknowledgeLanExposureRisk''
         ''LAN exposure requires acknowledgeLanExposureRisk: true'')
     @ when_error
       (case spec_exposure spec of
          None \<Rightarrow> False
        | Some e \<Rightarrow> publish_tailscale e \<and>
            (exposure_mode_of e \<noteq> LanMode \<or> \<not> acknowledge_lan_exposure_risk e))
       (new_error TailscalePublicationRequiresLanExposure ''spec.exposure.publishTailscale''
         ''Tailscale publication requires mode: lan and acknowledgeLanExposureRisk: true'')"

definition listener_field_errors ::
  "router_spec \<Rightarrow> string \<Rightarrow> listener \<Rightarrow> validation_error list" where
  "listener_field_errors spec path l =
     when_error (\<not> is_loopback (sa_host (listener_bind l)) \<and> \<not> lan_exposure_acknowledged spec)
       (new_error LanExposureNotEnabled (path @ ''.bind.host'')
         ''non-loopback listener binds require acknowledged LAN exposure'')
     @ when_error (sa_port (listener_bind l) = 0)
       (new_error InvalidListener (path @ ''.bind.port'') ''listener port must be nonzero'')
     @ when_error (listener_destinations l = [])
       (new_error InvalidListener (path @ ''.destinations'')
         ''listener must declare at least one destination'')
     @ when_error ((listener_protocol l = Https) \<noteq> (listener_tls l \<noteq> None))
       (new_error InvalidListener (path @ ''.tls'')
         ''HTTPS listeners require TLS and non-HTTPS listeners must not declare TLS'')
     @ (case listener_tls l of
          None \<Rightarrow> []
        | Some tls \<Rightarrow>
            when_error (tls_certificate tls = [] \<or> tls_private_key tls = [])
              (new_error InvalidListener (path @ ''.tls'')
                ''TLS certificate and private-key paths must be nonempty''))
     @ (case proxy_authentication l of
          None \<Rightarrow> []
        | Some authentication \<Rightarrow>
            when_error (credential_file authentication = [])
              (new_error InvalidListener (path @ ''.proxyAuthentication.credentialFile'')
                ''proxy credential path must be nonempty'')
            @ when_error (listener_protocol l \<noteq> Http)
              (new_error InvalidListener (path @ ''.proxyAuthentication'')
                ''proxy authentication requires a cleartext HTTP listener''))
     @ when_error (proxy_identity l \<noteq> None \<and> proxy_authentication l = None)
       (new_error InvalidListener (path @ ''.proxyAuthentication'')
         ''managed proxy listeners require proxy authentication'')
     @ (case listener_consumer l of
          None \<Rightarrow> []
        | Some consumer \<Rightarrow> validate_identifier consumer False (path @ ''.consumer''))"

type_synonym listener_key = "instance_id option \<times> ip_addr \<times> u16"

definition listener_key :: "listener \<Rightarrow> listener_key" where
  "listener_key l =
     (listener_consumer l, sa_host (listener_bind l), sa_port (listener_bind l))"

definition duplicate_listener_errors :: "string \<Rightarrow> string option \<Rightarrow> validation_error list" where
  "duplicate_listener_errors path previous =
     (case previous of
        None \<Rightarrow> []
      | Some first \<Rightarrow>
          [add_context ''first'' first
             (new_error DuplicateListener path
                ''listener address is already in use in this network namespace'')])"

fun proxy_target_errors ::
  "string \<Rightarrow> bool \<Rightarrow> listener_destination \<Rightarrow> validation_error list" where
  "proxy_target_errors path True (ProxyTarget _ host port) =
     when_error (port = 0 \<or> \<not> is_local_host host)
       (new_error InvalidListener (path @ ''.destinations'')
         ''managed proxy targets require a nonzero port and local host'')"
| "proxy_target_errors path True _ =
     [new_error InvalidListener (path @ ''.destinations'')
        ''managed proxy listeners require exact host-and-port proxy targets'']"
| "proxy_target_errors path False (ProxyTarget _ _ _) =
     [new_error InvalidListener (path @ ''.destinations'')
        ''proxy targets are valid only on managed proxy listeners'']"
| "proxy_target_errors path False _ = []"

definition conflicting_slot_errors ::
  "string \<Rightarrow> protocol \<Rightarrow> route_slot_id \<Rightarrow> (protocol \<times> string) option
     \<Rightarrow> validation_error list" where
  "conflicting_slot_errors path proto slot previous =
     (case previous of
        None \<Rightarrow> []
      | Some first \<Rightarrow>
          when_error (fst first \<noteq> proto)
            (add_context ''first'' (snd first) (add_context ''slot'' slot
               (new_error DuplicateIdentifier path
                  ''route slot is declared with conflicting protocols''))))"

definition destination_step ::
  "listener \<Rightarrow> string \<Rightarrow> nat \<Rightarrow> listener_destination \<Rightarrow> slot_table
     \<Rightarrow> slot_table \<times> validation_error list" where
  "destination_step l path _ d slots =
     (let slot = destination_slot_id d
      in (bt_insert slot (listener_protocol l, path) slots,
          validate_identifier slot False (path @ ''.destinations'')
          @ conflicting_slot_errors path (listener_protocol l) slot (bt_get slots slot)
          @ proxy_target_errors path (proxy_identity l \<noteq> None) d))"

definition listener_step ::
  "router_spec \<Rightarrow> nat \<Rightarrow> listener \<Rightarrow> (listener_key, string) btree \<times> slot_table
     \<Rightarrow> ((listener_key, string) btree \<times> slot_table) \<times> validation_error list" where
  "listener_step spec i l = (\<lambda>(listener_keys, slots).
     (let path = indexed ''spec.listeners'' i;
          key = listener_key l;
          (slots', destination_errors) =
            for_each (destination_step l path) 0 (listener_destinations l) slots
      in ((bt_insert key path listener_keys, slots'),
          listener_field_errors spec path l
          @ duplicate_listener_errors path (bt_get listener_keys key)
          @ destination_errors)))"

definition member_step ::
  "nat \<Rightarrow> transparent_member \<Rightarrow> (component_id, unit) btree
     \<Rightarrow> (component_id, unit) btree \<times> validation_error list" where
  "member_step i m seen =
     (let path = indexed ''spec.transparentProxy.members'' i
      in (bt_insert (member_component m) () seen,
          validate_identifier (member_component m) True (path @ ''.component'')
          @ when_error (member_host m = [])
            (new_error MissingProvider (path @ ''.host'')
              ''transparent group member host must be nonempty'')
          @ (case member_ports m of
               None \<Rightarrow> []
             | Some ports \<Rightarrow>
                 when_error (ports = [] \<or> 0 \<in> set ports)
                   (new_error InvalidListener (path @ ''.ports'')
                     ''declared transparent member ports must be nonempty and nonzero'')
                 @ when_error (length (fold insort_insert ports []) \<noteq> length ports)
                   (new_error DuplicateIdentifier (path @ ''.ports'')
                     ''declared transparent member ports must be unique''))
          @ when_error (bt_get seen (member_component m) \<noteq> None)
            (new_error DuplicateIdentifier (path @ ''.component'')
              ''transparent group member is already listed'')))"

definition transparent_errors :: "router_spec \<Rightarrow> validation_error list" where
  "transparent_errors spec =
     (case spec_transparent_proxy spec of
        None \<Rightarrow> []
      | Some proxy \<Rightarrow>
          validate_identifier (tproxy_consumer proxy) False ''spec.transparentProxy.consumer''
          @ when_error (tproxy_port proxy = 0)
            (new_error InvalidListener ''spec.transparentProxy.port''
              ''transparent interception port must be nonzero'')
          @ when_error (tproxy_connect_timeout_ms proxy = 0)
            (new_error InvalidListener ''spec.transparentProxy.connectTimeoutMs''
              ''transparent connection timeout must be nonzero'')
          @ snd (for_each member_step 0 (tproxy_members proxy) bt_empty))"

definition provider_step ::
  "router_spec \<Rightarrow> nat \<Rightarrow> provider \<Rightarrow> provider_table
     \<Rightarrow> provider_table \<times> validation_error list" where
  "provider_step spec i p providers =
     (let path = indexed ''spec.providers'' i
      in (bt_insert (provider_id p) p providers,
          when_error
            (exposure_mode spec = LanMode \<and> \<not> is_loopback_host (endpoint_host (provider_endpoint p)))
            (new_error UnsafeLanProvider (path @ ''.endpoint.host'')
              ''LAN exposure does not permit non-loopback provider upstreams'')
          @ validate_identifier (provider_id p) True (path @ ''.id'')
          @ when_error (bt_get providers (provider_id p) \<noteq> None)
            (new_error DuplicateIdentifier (path @ ''.id'')
              ''provider identifier is declared more than once'')))"

definition group_step ::
  "slot_table \<Rightarrow> provider_table \<Rightarrow> nat \<Rightarrow> service_group \<Rightarrow> (group_id, service_group) btree
     \<Rightarrow> (group_id, service_group) btree \<times> validation_error list" where
  "group_step slots providers i g groups =
     (let path = indexed ''spec.groups'' i
      in (bt_insert (group_id_of g) g groups,
          validate_identifier (group_id_of g) False (path @ ''.id'')
          @ when_error (bt_get groups (group_id_of g) \<noteq> None)
            (new_error DuplicateIdentifier (path @ ''.id'')
              ''group identifier is declared more than once'')
          @ concat (map (\<lambda>(slot, pid). validate_provider_reference path slot pid slots providers)
              (group_providers g))))"

definition missing_slots :: "binding_cfg \<Rightarrow> service_group \<Rightarrow> route_slot_id list" where
  "missing_slots b g =
     filter (\<lambda>slot. bt_get (group_providers g) slot = None) (binding_required_slots b)"

definition binding_step ::
  "(group_id, service_group) btree \<Rightarrow> nat \<Rightarrow> binding_cfg \<Rightarrow> (instance_id, string) btree
     \<Rightarrow> (instance_id, string) btree \<times> validation_error list" where
  "binding_step groups i b bound =
     (let path = indexed ''spec.bindings'' i
      in (bt_insert (binding_consumer b) path bound,
          validate_identifier (binding_id_of b) False (path @ ''.id'')
          @ validate_identifier (binding_consumer b) False (path @ ''.consumer'')
          @ (case bt_get bound (binding_consumer b) of
               None \<Rightarrow> []
             | Some first \<Rightarrow>
                 [add_context ''first'' first (add_context ''consumer'' (binding_consumer b)
                    (new_error AmbiguousRoute path
                       ''consumer has more than one selected service group''))])
          @ (case bt_get groups (binding_group b) of
               None \<Rightarrow>
                 [add_context ''group'' (binding_group b)
                    (new_error MissingGroup (path @ ''.group'')
                       ''binding refers to an unknown group'')]
             | Some g \<Rightarrow>
                 when_error (missing_slots b g \<noteq> [])
                   (add_context ''missingSlots'' (join '','' (missing_slots b g))
                     (add_context ''group'' (binding_group b)
                       (new_error IncompleteGroup (path @ ''.requiredSlots'')
                          ''selected group does not provide every required slot''))))))"

definition route_step ::
  "slot_table \<Rightarrow> provider_table \<Rightarrow> nat \<Rightarrow> route_cfg
     \<Rightarrow> (instance_id \<times> route_slot_id, string) btree
     \<Rightarrow> (instance_id \<times> route_slot_id, string) btree \<times> validation_error list" where
  "route_step slots providers i r direct =
     (let path = indexed ''spec.routes'' i; key = (route_consumer r, route_slot r)
      in (bt_insert key path direct,
          (case bt_get direct key of
             None \<Rightarrow> []
           | Some first \<Rightarrow>
               [add_context ''first'' first (add_context ''slot'' (route_slot r)
                  (add_context ''consumer'' (route_consumer r)
                    (new_error AmbiguousRoute path
                       ''consumer route is declared more than once'')))])
          @ validate_provider_reference path (route_slot r) (route_provider r) slots providers))"

fun identity_text :: "browser_identity \<Rightarrow> string" where
  "identity_text (ExplicitHeader value) = ''header:'' @ value"
| "identity_text (Origin origin) = ''origin:'' @ origin"
| "identity_text (ProxyListener listener) = ''proxy:'' @ listener"

fun identity_errors :: "string \<Rightarrow> browser_identity \<Rightarrow> validation_error list" where
  "identity_errors path (ExplicitHeader value) =
     validate_route_header_value value (path @ ''.identity.value'')"
| "identity_errors path _ = []"

definition browser_step ::
  "slot_table \<Rightarrow> provider_table \<Rightarrow> nat \<Rightarrow> browser_route
     \<Rightarrow> (route_slot_id \<times> string, string) btree
     \<Rightarrow> (route_slot_id \<times> string, string) btree \<times> validation_error list" where
  "browser_step slots providers i r seen =
     (let path = indexed ''spec.browserRoutes'' i;
          identity = identity_text (browser_identity_of r);
          key = (browser_destination r, identity)
      in (bt_insert key path seen,
          identity_errors path (browser_identity_of r)
          @ (case bt_get seen key of
               None \<Rightarrow> []
             | Some first \<Rightarrow>
                 [add_context ''first'' first (add_context ''identity'' identity
                    (add_context ''destination'' (browser_destination r)
                      (new_error AmbiguousRoute path
                         ''browser identity route is declared more than once'')))])
          @ validate_provider_reference path (browser_destination r) (browser_provider r)
              slots providers))"

definition validate :: "router_config \<Rightarrow> validation_error list + unit" where
  "validate c =
     (let spec = config_spec c;
          ((listener_keys, slots), listener_errors) =
            for_each (listener_step spec) 0 (spec_listeners spec) (bt_empty, bt_empty);
          (providers, provider_errors) =
            for_each (provider_step spec) 0 (spec_providers spec) bt_empty;
          (groups, group_errors) =
            for_each (group_step slots providers) 0 (spec_groups spec) bt_empty;
          (bound_consumers, binding_errors) =
            for_each (binding_step groups) 0 (spec_bindings spec) bt_empty;
          (direct_routes, route_errors) =
            for_each (route_step slots providers) 0 (spec_routes spec) bt_empty;
          (browser_routes, browser_errors) =
            for_each (browser_step slots providers) 0 (spec_browser_routes spec) bt_empty;
          errors = schema_errors c @ exposure_errors spec @ listener_errors
            @ transparent_errors spec @ provider_errors @ group_errors @ binding_errors
            @ route_errors @ browser_errors
      in if errors = [] then Inr () else Inl errors)"

section \<open>The declarative specification\<close>

definition schema_ok :: "router_config \<Rightarrow> bool" where
  "schema_ok c \<longleftrightarrow>
     api_version c = API_VERSION \<and> config_kind c = KIND \<and>
     valid_identifier (metadata_deployment c) False \<and>
     valid_identifier (snapshot_id (spec_snapshot (config_spec c))) False"

definition exposure_ok :: "router_spec \<Rightarrow> bool" where
  "exposure_ok spec \<longleftrightarrow>
     (\<forall>e. spec_exposure spec = Some e \<longrightarrow>
        (exposure_mode_of e = LanMode \<longrightarrow> acknowledge_lan_exposure_risk e) \<and>
        (publish_tailscale e \<longrightarrow> exposure_mode_of e = LanMode))"

definition destination_ok :: "listener \<Rightarrow> listener_destination \<Rightarrow> bool" where
  "destination_ok l d \<longleftrightarrow>
     valid_identifier (destination_slot_id d) False \<and>
     (proxy_identity l \<noteq> None \<longleftrightarrow> (\<exists>slot host port. d = ProxyTarget slot host port)) \<and>
     (\<forall>slot host port. d = ProxyTarget slot host port \<longrightarrow> port \<noteq> 0 \<and> is_local_host host)"

definition listener_ok :: "router_spec \<Rightarrow> listener \<Rightarrow> bool" where
  "listener_ok spec l \<longleftrightarrow>
     (is_loopback (sa_host (listener_bind l)) \<or> lan_exposure_acknowledged spec) \<and>
     sa_port (listener_bind l) \<noteq> 0 \<and>
     listener_destinations l \<noteq> [] \<and>
     (listener_protocol l = Https \<longleftrightarrow> listener_tls l \<noteq> None) \<and>
     (\<forall>tls. listener_tls l = Some tls \<longrightarrow> tls_certificate tls \<noteq> [] \<and> tls_private_key tls \<noteq> []) \<and>
     (\<forall>a. proxy_authentication l = Some a \<longrightarrow>
        credential_file a \<noteq> [] \<and> listener_protocol l = Http) \<and>
     (proxy_identity l \<noteq> None \<longrightarrow> proxy_authentication l \<noteq> None) \<and>
     (\<forall>consumer. listener_consumer l = Some consumer \<longrightarrow> valid_identifier consumer False) \<and>
     (\<forall>d\<in>set (listener_destinations l). destination_ok l d)"

text \<open>Which slots the listeners declare, and with which protocol.\<close>

definition slot_declarations :: "listener list \<Rightarrow> (route_slot_id \<times> protocol) set" where
  "slot_declarations ls =
     {(destination_slot_id d, listener_protocol l) |l d.
        l \<in> set ls \<and> d \<in> set (listener_destinations l)}"

definition single_protocol :: "(route_slot_id \<times> protocol) set \<Rightarrow> bool" where
  "single_protocol D \<longleftrightarrow> (\<forall>s p q. (s, p) \<in> D \<longrightarrow> (s, q) \<in> D \<longrightarrow> p = q)"

definition member_ok :: "transparent_member \<Rightarrow> bool" where
  "member_ok m \<longleftrightarrow>
     valid_identifier (member_component m) True \<and> member_host m \<noteq> [] \<and>
     (\<forall>ports. member_ports m = Some ports \<longrightarrow> ports \<noteq> [] \<and> 0 \<notin> set ports \<and> distinct ports)"

definition transparent_ok :: "router_spec \<Rightarrow> bool" where
  "transparent_ok spec \<longleftrightarrow>
     (\<forall>proxy. spec_transparent_proxy spec = Some proxy \<longrightarrow>
        valid_identifier (tproxy_consumer proxy) False \<and> tproxy_port proxy \<noteq> 0 \<and>
        tproxy_connect_timeout_ms proxy \<noteq> 0 \<and> (\<forall>m\<in>set (tproxy_members proxy). member_ok m) \<and>
        distinct (map member_component (tproxy_members proxy)))"

definition provider_ok :: "router_spec \<Rightarrow> provider \<Rightarrow> bool" where
  "provider_ok spec p \<longleftrightarrow>
     (exposure_mode spec = LanMode \<longrightarrow> is_loopback_host (endpoint_host (provider_endpoint p))) \<and>
     valid_identifier (provider_id p) True"

text \<open>A reference from a slot to a provider is resolvable and protocol-compatible.\<close>

definition resolves :: "router_spec \<Rightarrow> route_slot_id \<Rightarrow> component_id \<Rightarrow> bool" where
  "resolves spec slot pid \<longleftrightarrow>
     (\<exists>lp p. (slot, lp) \<in> slot_declarations (spec_listeners spec) \<and>
        p \<in> set (spec_providers spec) \<and> provider_id p = pid \<and>
        protocols_compatible lp (endpoint_protocol (provider_endpoint p)))"

definition group_ok :: "router_spec \<Rightarrow> service_group \<Rightarrow> bool" where
  "group_ok spec g \<longleftrightarrow>
     valid_identifier (group_id_of g) False \<and>
     (\<forall>(slot, pid)\<in>set (group_providers g). resolves spec slot pid)"

definition binding_ok :: "router_spec \<Rightarrow> binding_cfg \<Rightarrow> bool" where
  "binding_ok spec b \<longleftrightarrow>
     valid_identifier (binding_id_of b) False \<and> valid_identifier (binding_consumer b) False \<and>
     (\<exists>g\<in>set (spec_groups spec). group_id_of g = binding_group b \<and>
        set (binding_required_slots b) \<subseteq> fst ` set (group_providers g))"

definition browser_route_ok :: "router_spec \<Rightarrow> browser_route \<Rightarrow> bool" where
  "browser_route_ok spec r \<longleftrightarrow>
     (\<forall>value. browser_identity_of r = ExplicitHeader value \<longrightarrow> valid_route_header_value value) \<and>
     resolves spec (browser_destination r) (browser_provider r)"

definition valid_config :: "router_config \<Rightarrow> bool" where
  "valid_config c \<longleftrightarrow>
     (let spec = config_spec c
      in schema_ok c \<and> exposure_ok spec \<and>
         ((\<forall>l\<in>set (spec_listeners spec). listener_ok spec l) \<and>
          distinct (map listener_key (spec_listeners spec)) \<and>
          single_protocol (slot_declarations (spec_listeners spec))) \<and>
         transparent_ok spec \<and>
         ((\<forall>p\<in>set (spec_providers spec). provider_ok spec p) \<and>
          distinct (map provider_id (spec_providers spec))) \<and>
         ((\<forall>g\<in>set (spec_groups spec). group_ok spec g) \<and>
          distinct (map group_id_of (spec_groups spec))) \<and>
         ((\<forall>b\<in>set (spec_bindings spec). binding_ok spec b) \<and>
          distinct (map binding_consumer (spec_bindings spec))) \<and>
         ((\<forall>r\<in>set (spec_routes spec). resolves spec (route_slot r) (route_provider r)) \<and>
          distinct (map (\<lambda>r. (route_consumer r, route_slot r)) (spec_routes spec))) \<and>
         ((\<forall>r\<in>set (spec_browser_routes spec). browser_route_ok spec r) \<and>
          distinct (map (\<lambda>r. (browser_destination r, browser_identity_of r))
            (spec_browser_routes spec))))"

section \<open>The validator decides the specification\<close>

subsection \<open>Straight-line checks\<close>

lemma schema_errors_Nil: "schema_errors c = [] \<longleftrightarrow> schema_ok c"
  by (auto simp: schema_errors_def schema_ok_def)

lemma exposure_errors_Nil: "exposure_errors spec = [] \<longleftrightarrow> exposure_ok spec"
  by (auto simp: exposure_errors_def exposure_ok_def split: option.splits)

lemma proxy_target_errors_Nil:
  "proxy_target_errors path managed d = [] \<longleftrightarrow>
     (managed \<longleftrightarrow> (\<exists>slot host port. d = ProxyTarget slot host port)) \<and>
     (\<forall>slot host port. d = ProxyTarget slot host port \<longrightarrow> port \<noteq> 0 \<and> is_local_host host)"
  by (cases managed; cases d) auto

lemma listener_field_errors_Nil:
  "listener_field_errors spec path l = [] \<and> (\<forall>d\<in>set (listener_destinations l). destination_ok l d)
     \<longleftrightarrow> listener_ok spec l"
  unfolding listener_field_errors_def listener_ok_def
  by (auto split: option.splits)

subsection \<open>The listener loop\<close>

definition protos :: "slot_table \<Rightarrow> route_slot_id \<Rightarrow> protocol option" where
  "protos slots s = map_option fst (bt_get slots s)"

lemma protos_insert: "protos (bt_insert s (p, path) slots) = (protos slots)(s \<mapsto> p)"
  by (auto simp: protos_def)

definition agrees :: "slot_table \<Rightarrow> (route_slot_id \<times> protocol) set \<Rightarrow> bool" where
  "agrees slots D \<longleftrightarrow> (\<forall>s p. (s, p) \<in> D \<longrightarrow> protos slots s \<in> {None, Some p})"

lemma conflicting_slot_errors_Nil:
  "conflicting_slot_errors path p s (bt_get slots s) = [] \<longleftrightarrow> agrees slots {(s, p)}"
  by (auto simp: conflicting_slot_errors_def agrees_def protos_def split: option.splits)

lemma destination_step_result:
  "fst (destination_step l path i d slots) =
     bt_insert (destination_slot_id d) (listener_protocol l, path) slots"
  "snd (destination_step l path i d slots) = [] \<longleftrightarrow>
     destination_ok l d \<and> agrees slots {(destination_slot_id d, listener_protocol l)}"
  unfolding destination_step_def Let_def fst_conv snd_conv append_is_Nil_conv
    conflicting_slot_errors_Nil proxy_target_errors_Nil destination_ok_def
  by auto

definition declared :: "listener \<Rightarrow> listener_destination list \<Rightarrow> (route_slot_id \<times> protocol) set" where
  "declared l ds = (\<lambda>d. (destination_slot_id d, listener_protocol l)) ` set ds"

lemma agrees_declared:
  "agrees slots (declared l ds) \<longleftrightarrow>
     (\<forall>d\<in>set ds. protos slots (destination_slot_id d) \<in> {None, Some (listener_protocol l)})"
  by (auto simp: agrees_def declared_def)

lemma destinations_loop:
  "snd (for_each (destination_step l path) i ds slots) = [] \<longleftrightarrow>
     (\<forall>d\<in>set ds. destination_ok l d) \<and> agrees slots (declared l ds)"
  "protos (fst (for_each (destination_step l path) i ds slots)) s =
     (if s \<in> destination_slot_id ` set ds then Some (listener_protocol l) else protos slots s)"
proof (induction ds arbitrary: i slots)
  case Nil
  {
    case 1
    show ?case by (simp add: agrees_def declared_def)
  next
    case 2
    show ?case by simp
  }
next
  case (Cons d ds)
  {
    case 1
    show ?case
      unfolding for_each_Cons append_is_Nil_conv destination_step_result Cons.IH agrees_declared
      by (auto simp: agrees_def protos_insert split: if_splits)
  next
    case 2
    show ?case
      unfolding for_each_Cons destination_step_result Cons.IH
      by (auto simp: protos_insert)
  }
qed

lemma listener_step_result:
  "fst (listener_step spec i l (keys, slots)) =
     (bt_insert (listener_key l) (indexed ''spec.listeners'' i) keys,
      fst (for_each (destination_step l (indexed ''spec.listeners'' i)) 0
        (listener_destinations l) slots))"
  "snd (listener_step spec i l (keys, slots)) = [] \<longleftrightarrow>
     listener_ok spec l \<and> bt_get keys (listener_key l) = None \<and>
     agrees slots (declared l (listener_destinations l))"
proof -
  show "fst (listener_step spec i l (keys, slots)) =
     (bt_insert (listener_key l) (indexed ''spec.listeners'' i) keys,
      fst (for_each (destination_step l (indexed ''spec.listeners'' i)) 0
        (listener_destinations l) slots))"
    by (simp add: listener_step_def Let_def split: prod.splits)
  have "snd (listener_step spec i l (keys, slots)) = [] \<longleftrightarrow>
      listener_field_errors spec (indexed ''spec.listeners'' i) l = [] \<and>
      bt_get keys (listener_key l) = None \<and>
      snd (for_each (destination_step l (indexed ''spec.listeners'' i)) 0
        (listener_destinations l) slots) = []"
    by (simp add: listener_step_def duplicate_listener_errors_def Let_def
        split: prod.splits option.splits)
  then show "snd (listener_step spec i l (keys, slots)) = [] \<longleftrightarrow>
     listener_ok spec l \<and> bt_get keys (listener_key l) = None \<and>
     agrees slots (declared l (listener_destinations l))"
    unfolding destinations_loop
    using listener_field_errors_Nil [of spec "indexed ''spec.listeners'' i" l] by blast
qed

lemma slot_declarations_Cons:
  "slot_declarations (l # ls) = declared l (listener_destinations l) \<union> slot_declarations ls"
  by (auto simp: slot_declarations_def declared_def)

lemma slot_declarations_Nil [simp]: "slot_declarations [] = {}"
  by (simp add: slot_declarations_def)

lemma declared_single:
  "(s, p) \<in> declared l ds \<longleftrightarrow> s \<in> destination_slot_id ` set ds \<and> p = listener_protocol l"
  by (auto simp: declared_def)

lemma agrees_extend:
  assumes D: "\<And>s p. (s, p) \<in> D \<longleftrightarrow> s \<in> S \<and> p = q"
    and slots': "\<And>s. protos slots' s = (if s \<in> S then Some q else protos slots s)"
  shows "agrees slots D \<and> agrees slots' E \<and> single_protocol E \<longleftrightarrow>
     agrees slots (D \<union> E) \<and> single_protocol (D \<union> E)"
proof
  assume L: "agrees slots D \<and> agrees slots' E \<and> single_protocol E"
  then have old: "protos slots s \<in> {None, Some q}" if "s \<in> S" for s
    using that by (simp add: agrees_def D)
  have E: "p = q" if "(s, p) \<in> E" "s \<in> S" for s p
    using L that by (fastforce simp: agrees_def slots')
  have E': "protos slots s \<in> {None, Some p}" if "(s, p) \<in> E" for s p
  proof (cases "s \<in> S")
    case True
    with E [OF that] old show ?thesis by simp
  next
    case False
    with L that have "protos slots' s \<in> {None, Some p}" by (simp add: agrees_def)
    with False show ?thesis by (simp add: slots')
  qed
  have "agrees slots (D \<union> E)" using L E' by (auto simp: agrees_def)
  moreover have "single_protocol (D \<union> E)"
    using L E by (fastforce simp: single_protocol_def D)
  ultimately show "agrees slots (D \<union> E) \<and> single_protocol (D \<union> E)" ..
next
  assume R: "agrees slots (D \<union> E) \<and> single_protocol (D \<union> E)"
  then have "agrees slots D" and "single_protocol E"
    by (auto simp: agrees_def single_protocol_def)
  moreover have "p = q" if "(s, p) \<in> E" "s \<in> S" for s p
    using R that D [of s q] unfolding single_protocol_def by blast
  with R have "agrees slots' E" by (auto simp: agrees_def slots')
  ultimately show "agrees slots D \<and> agrees slots' E \<and> single_protocol E" by blast
qed

lemma listeners_loop_errors:
  "snd (for_each (listener_step spec) i ls (keys, slots)) = [] \<longleftrightarrow>
     (\<forall>l\<in>set ls. listener_ok spec l \<and> bt_get keys (listener_key l) = None) \<and>
     distinct (map listener_key ls) \<and>
     agrees slots (slot_declarations ls) \<and> single_protocol (slot_declarations ls)"
proof (induction ls arbitrary: i keys slots)
  case Nil
  show ?case by (simp add: agrees_def single_protocol_def)
next
  case (Cons l ls)
  let ?D = "declared l (listener_destinations l)" and ?E = "slot_declarations ls"
  let ?slots = "fst (for_each (destination_step l (indexed ''spec.listeners'' i)) 0
        (listener_destinations l) slots)"
  have slots: "agrees slots ?D \<and> agrees ?slots ?E \<and> single_protocol ?E \<longleftrightarrow>
      agrees slots (?D \<union> ?E) \<and> single_protocol (?D \<union> ?E)"
    by (rule agrees_extend [OF declared_single destinations_loop(2)])
  show ?case
    unfolding for_each_Cons append_is_Nil_conv listener_step_result Cons.IH slot_declarations_Cons
    using slots by (auto simp: image_iff split: if_splits)
qed

lemma listeners_loop_slots:
  assumes "single_protocol (slot_declarations ls)" and "agrees slots (slot_declarations ls)"
  shows "protos (snd (fst (for_each (listener_step spec) i ls (keys, slots)))) s = Some p \<longleftrightarrow>
     (s, p) \<in> slot_declarations ls \<or> protos slots s = Some p"
  using assms
proof (induction ls arbitrary: i keys slots)
  case Nil
  then show ?case by simp
next
  case (Cons l ls)
  let ?slots = "fst (for_each (destination_step l (indexed ''spec.listeners'' i)) 0
        (listener_destinations l) slots)"
  let ?D = "declared l (listener_destinations l)" and ?E = "slot_declarations ls"
  have ext: "agrees slots ?D \<and> agrees ?slots ?E \<and> single_protocol ?E"
    using Cons.prems unfolding slot_declarations_Cons
    by (simp only: agrees_extend [OF declared_single destinations_loop(2)])
  then have single: "single_protocol ?E" and agree: "agrees ?slots ?E" by simp_all
  have "(protos ?slots s = Some p) = ((s, p) \<in> ?D \<or> protos slots s = Some p)"
    using ext unfolding destinations_loop declared_single
    by (auto simp: agrees_def declared_single)
  then have "protos ?slots s = Some p \<or> (s, p) \<in> ?E \<longleftrightarrow>
      (s, p) \<in> slot_declarations (l # ls) \<or> protos slots s = Some p"
    unfolding slot_declarations_Cons by blast
  then show ?case
    unfolding for_each_Cons listener_step_result fst_conv snd_conv Cons.IH [OF single agree] by blast
qed

subsection \<open>The keyed loops\<close>

definition ref_ok :: "slot_table \<Rightarrow> provider_table \<Rightarrow> route_slot_id \<Rightarrow> component_id \<Rightarrow> bool" where
  "ref_ok slots providers slot pid \<longleftrightarrow>
     (\<exists>lp p. protos slots slot = Some lp \<and> bt_get providers pid = Some p \<and>
        protocols_compatible lp (endpoint_protocol (provider_endpoint p)))"

lemma validate_provider_reference_ref_ok:
  "validate_provider_reference path slot pid slots providers = [] \<longleftrightarrow>
     ref_ok slots providers slot pid"
  by (auto simp: validate_provider_reference_Nil ref_ok_def protos_def)

lemma length_fold_insort_insert: "length (fold insort_insert xs []) = card (set xs)"
  using distinct_card [OF distinct_fold_insort_insert [of "[]" xs]]
  by (simp add: set_fold_insort_insert)

lemma ports_unique: "length (fold insort_insert xs []) = length xs \<longleftrightarrow> distinct xs"
  by (simp add: length_fold_insort_insert card_distinct distinct_card iffI)

interpretation members: keyed_loop member_step member_component "\<lambda>_ _. ()" member_ok
  by unfold_locales
    (auto simp: member_step_def member_ok_def ports_unique Let_def split: option.splits)

interpretation providers: keyed_loop "provider_step spec" provider_id "\<lambda>_ p. p" "provider_ok spec"
  for spec
  by unfold_locales (auto simp: provider_step_def provider_ok_def Let_def)

interpretation groups: keyed_loop "group_step slots providers" group_id_of "\<lambda>_ g. g"
    "\<lambda>g. valid_identifier (group_id_of g) False \<and>
         (\<forall>(slot, pid)\<in>set (group_providers g). ref_ok slots providers slot pid)"
  for slots providers
  by unfold_locales
    (auto simp: group_step_def validate_provider_reference_ref_ok Let_def)

interpretation bindings: keyed_loop "binding_step groups" binding_consumer
    "\<lambda>i _. indexed ''spec.bindings'' i"
    "\<lambda>b. valid_identifier (binding_id_of b) False \<and> valid_identifier (binding_consumer b) False \<and>
         (\<exists>g. bt_get groups (binding_group b) = Some g \<and> missing_slots b g = [])"
  for groups
  by unfold_locales (auto simp: binding_step_def Let_def split: option.splits)

interpretation routes: keyed_loop "route_step slots providers"
    "\<lambda>r. (route_consumer r, route_slot r)" "\<lambda>i _. indexed ''spec.routes'' i"
    "\<lambda>r. ref_ok slots providers (route_slot r) (route_provider r)"
  for slots providers
  by unfold_locales
    (auto simp: route_step_def validate_provider_reference_ref_ok Let_def split: option.splits)

lemma identity_errors_Nil:
  "identity_errors path i = [] \<longleftrightarrow>
     (\<forall>value. i = ExplicitHeader value \<longrightarrow> valid_route_header_value value)"
  by (cases i) auto

interpretation browser_routes: keyed_loop "browser_step slots providers"
    "\<lambda>r. (browser_destination r, identity_text (browser_identity_of r))"
    "\<lambda>i _. indexed ''spec.browserRoutes'' i"
    "\<lambda>r. (\<forall>value. browser_identity_of r = ExplicitHeader value \<longrightarrow> valid_route_header_value value) \<and>
         ref_ok slots providers (browser_destination r) (browser_provider r)"
  for slots providers
  by unfold_locales
    (auto simp: browser_step_def validate_provider_reference_ref_ok identity_errors_Nil Let_def
      split: option.splits)

lemma transparent_errors_Nil: "transparent_errors spec = [] \<longleftrightarrow> transparent_ok spec"
  by (auto simp: transparent_errors_def transparent_ok_def loop_rules split: option.splits)

subsection \<open>The theorem\<close>

lemma identity_text_inj: "identity_text i = identity_text j \<Longrightarrow> i = j"
  by (cases i; cases j) auto

text \<open>The tables the validator builds, as the code leaves them after each loop.\<close>

definition slots_of :: "router_spec \<Rightarrow> slot_table" where
  "slots_of spec =
     snd (fst (for_each (listener_step spec) 0 (spec_listeners spec) (bt_empty, bt_empty)))"

definition providers_of :: "router_spec \<Rightarrow> provider_table" where
  "providers_of spec = fst (for_each (provider_step spec) 0 (spec_providers spec) bt_empty)"

definition groups_of :: "router_spec \<Rightarrow> (group_id, service_group) btree" where
  "groups_of spec =
     fst (for_each (group_step (slots_of spec) (providers_of spec)) 0 (spec_groups spec) bt_empty)"

lemma validate_OK_iff:
  "validate c = Inr () \<longleftrightarrow>
     (let spec = config_spec c; slots = slots_of spec; providers = providers_of spec
      in schema_errors c = [] \<and> exposure_errors spec = [] \<and>
         snd (for_each (listener_step spec) 0 (spec_listeners spec) (bt_empty, bt_empty)) = [] \<and>
         transparent_errors spec = [] \<and>
         snd (for_each (provider_step spec) 0 (spec_providers spec) bt_empty) = [] \<and>
         snd (for_each (group_step slots providers) 0 (spec_groups spec) bt_empty) = [] \<and>
         snd (for_each (binding_step (groups_of spec)) 0 (spec_bindings spec) bt_empty) = [] \<and>
         snd (for_each (route_step slots providers) 0 (spec_routes spec) bt_empty) = [] \<and>
         snd (for_each (browser_step slots providers) 0 (spec_browser_routes spec) bt_empty) = [])"
  by (simp add: validate_def slots_of_def providers_of_def groups_of_def Let_def
      split: prod.splits)

lemma slots_of_declared:
  "single_protocol (slot_declarations (spec_listeners spec)) \<Longrightarrow>
     protos (slots_of spec) s = Some p \<longleftrightarrow> (s, p) \<in> slot_declarations (spec_listeners spec)"
  unfolding slots_of_def
  by (subst listeners_loop_slots) (auto simp: agrees_def protos_def)

lemma providers_of_get:
  "distinct (map provider_id (spec_providers spec)) \<Longrightarrow>
     bt_get (providers_of spec) pid = Some p \<longleftrightarrow>
     p \<in> set (spec_providers spec) \<and> provider_id p = pid"
  by (auto simp: providers_of_def providers.loop_get in_set_conv_nth)

lemma groups_of_get:
  "distinct (map group_id_of (spec_groups spec)) \<Longrightarrow>
     bt_get (groups_of spec) gid = Some g \<longleftrightarrow> g \<in> set (spec_groups spec) \<and> group_id_of g = gid"
  by (auto simp: groups_of_def groups.loop_get in_set_conv_nth)

lemma ref_ok_resolves:
  assumes "single_protocol (slot_declarations (spec_listeners spec))"
    and "distinct (map provider_id (spec_providers spec))"
  shows "ref_ok (slots_of spec) (providers_of spec) slot pid \<longleftrightarrow> resolves spec slot pid"
  by (auto simp: ref_ok_def resolves_def slots_of_declared [OF assms(1)]
      providers_of_get [OF assms(2)])

lemma missing_slots_Nil:
  "missing_slots b g = [] \<longleftrightarrow> set (binding_required_slots b) \<subseteq> fst ` set (group_providers g)"
  by (auto simp: missing_slots_def filter_empty_conv map_of_eq_None_iff)

lemma binding_ok_table:
  assumes "distinct (map group_id_of (spec_groups spec))"
  shows "valid_identifier (binding_id_of b) False \<and> valid_identifier (binding_consumer b) False \<and>
     (\<exists>g. bt_get (groups_of spec) (binding_group b) = Some g \<and> missing_slots b g = []) \<longleftrightarrow>
     binding_ok spec b"
  by (auto simp: binding_ok_def groups_of_get [OF assms] missing_slots_Nil)

lemma distinct_identity_text:
  "distinct (map (\<lambda>r. (browser_destination r, identity_text (browser_identity_of r))) rs) \<longleftrightarrow>
   distinct (map (\<lambda>r. (browser_destination r, browser_identity_of r)) rs)"
proof -
  have "distinct (map (\<lambda>r. (browser_destination r, identity_text (browser_identity_of r))) rs) =
      distinct (map (map_prod id identity_text)
        (map (\<lambda>r. (browser_destination r, browser_identity_of r)) rs))"
    by (simp add: comp_def)
  also have "\<dots> = distinct (map (\<lambda>r. (browser_destination r, browser_identity_of r)) rs)"
    by (subst distinct_map) (auto intro!: inj_onI dest: identity_text_inj)
  finally show ?thesis .
qed

lemma validate_correct: "validate c = Inr () \<longleftrightarrow> valid_config c"
proof -
  let ?spec = "config_spec c"
  let ?L = "(\<forall>l\<in>set (spec_listeners ?spec). listener_ok ?spec l) \<and>
      distinct (map listener_key (spec_listeners ?spec)) \<and>
      single_protocol (slot_declarations (spec_listeners ?spec))"
  let ?P = "(\<forall>p\<in>set (spec_providers ?spec). provider_ok ?spec p) \<and>
      distinct (map provider_id (spec_providers ?spec))"
  let ?G = "distinct (map group_id_of (spec_groups ?spec))"
  have L: "snd (for_each (listener_step ?spec) 0 (spec_listeners ?spec) (bt_empty, bt_empty)) = []
      \<longleftrightarrow> ?L"
    by (auto simp: listeners_loop_errors agrees_def protos_def)
  have refs: "ref_ok (slots_of ?spec) (providers_of ?spec) = resolves ?spec" if ?L ?P
    using that by (intro ext) (simp add: ref_ok_resolves)
  show ?thesis
  proof (cases "?L \<and> ?P \<and> ?G")
    case False
    then show ?thesis
      unfolding validate_OK_iff valid_config_def Let_def L loop_rules by blast
  next
    case True
    then have "ref_ok (slots_of ?spec) (providers_of ?spec) = resolves ?spec"
      and "?G" using refs by blast+
    then show ?thesis
      unfolding validate_OK_iff valid_config_def Let_def schema_errors_Nil exposure_errors_Nil L
        transparent_errors_Nil loop_rules distinct_identity_text
      by (simp add: binding_ok_table group_ok_def [abs_def] browser_route_ok_def [abs_def])
  qed
qed

section \<open>A worked configuration\<close>

text \<open>
  Two instances behind one router: a sidecar listener of \<open>ui-1\<close> for its back end, a host
  gateway listener for the browser, a TCP listener for the database, one group, and one
  direct route that overrides the group for the database slot.
\<close>

definition sample_provider :: "string \<Rightarrow> protocol \<Rightarrow> u16 \<Rightarrow> provider" where
  "sample_provider name proto port =
     \<lparr>provider_id = name,
      provider_endpoint = \<lparr>endpoint_protocol = proto, endpoint_host = ''127.0.0.1'', endpoint_port = port\<rparr>,
      provider_health_check = None, receive_identity_header = False\<rparr>"

definition sample_listener ::
  "string option \<Rightarrow> u32 \<Rightarrow> u16 \<Rightarrow> protocol \<Rightarrow> listener_destination list \<Rightarrow> listener" where
  "sample_listener consumer host port proto ds =
     \<lparr>listener_consumer = consumer, listener_bind = SocketAddress (V4 host) port,
      listener_protocol = proto, listener_tls = None, listener_destinations = ds,
      proxy_identity = None, proxy_authentication = None\<rparr>"

definition sample_spec :: "u64 \<Rightarrow> router_spec" where
  "sample_spec v =
     \<lparr>spec_snapshot = \<lparr>snapshot_id = ''snap-1'', snapshot_version = v,
        snapshot_transitions = \<lparr>tp_http = Pin, tp_https = Pin, tp_websocket = Close, tp_grpc = Pin,
          tp_tcp = Drain 500\<rparr>\<rparr>,
      spec_exposure = None,
      spec_listeners =
        [sample_listener (Some ''ui-1'') 2130706433 8001 Http [Loopback ''backend''],
         sample_listener (Some ''ui-1'') 2130706433 5432 Tcp [Loopback ''db''],
         sample_listener None 2130706433 8080 Http [CustomDomain ''web'' ''app.localhost'']],
      spec_providers =
        [sample_provider ''backend-1/http'' Http 9001, sample_provider ''db-main'' Tcp 6001,
         sample_provider ''db-feature'' Tcp 6002, sample_provider ''ui-1/http'' Http 9002],
      spec_groups =
        [\<lparr>group_id_of = ''feature'',
          group_providers = [(''backend'', ''backend-1/http''), (''db'', ''db-main'')]\<rparr>],
      spec_bindings =
        [\<lparr>binding_id_of = ''b1'', binding_consumer = ''ui-1'', binding_group = ''feature'',
          binding_required_slots = [''backend'']\<rparr>],
      spec_routes =
        [\<lparr>route_consumer = ''ui-1'', route_slot = ''db'', route_provider = ''db-feature''\<rparr>],
      spec_browser_routes =
        [\<lparr>browser_identity_of = ExplicitHeader ''feature:a'', browser_destination = ''web'',
          browser_provider = ''ui-1/http''\<rparr>,
         \<lparr>browser_identity_of = Origin ''http://app.localhost:8080'', browser_destination = ''web'',
          browser_provider = ''backend-1/http''\<rparr>],
      spec_transparent_proxy = None,
      spec_identity = default_identity_policy\<rparr>"

definition sample_config :: "u64 \<Rightarrow> router_config" where
  "sample_config v =
     \<lparr>api_version = API_VERSION, config_kind = KIND, metadata_deployment = ''demo'',
      config_spec = sample_spec v\<rparr>"

lemma sample_validates: "validate (sample_config 1) = Inr ()" "validate (sample_config 2) = Inr ()"
  by code_simp+

lemma sample_valid [simp]: "valid_config (sample_config 1)" "valid_config (sample_config 2)"
  using sample_validates by (simp_all only: validate_correct)

definition lan_config :: router_config where
  "lan_config =
     (let spec = sample_spec 1
      in (sample_config 1)\<lparr>config_spec := spec
           \<lparr>spec_exposure := Some \<lparr>exposure_mode_of = LanMode, acknowledge_lan_exposure_risk = True,
              publish_tailscale = False\<rparr>,
            spec_listeners := sample_listener None 0 80 Http [Loopback ''lan''] # spec_listeners spec\<rparr>\<rparr>)"

section \<open>Properties\<close>

text \<open>
  C1. \<open>RouterConfig::validate\<close> is exact: the error-collecting loops accept a configuration
  if and only if it satisfies the declarative specification of the schema (known schema, valid
  identifiers, acknowledged exposure, well-formed and distinct listeners, one protocol per
  slot, distinct providers and groups, resolvable and protocol-compatible references, one
  group per consumer that offers its required slots, and unambiguous routes).
\<close>

theorem validate_decides_valid_config: "validate c = Inr () \<longleftrightarrow> valid_config c"
  by (rule validate_correct)

text \<open>
  C2. Exposure safety: an accepted configuration with a listener outside the loopback
  addresses has an acknowledged LAN exposure, and then every provider upstream is a loopback
  host.
\<close>

theorem accepted_lan_exposure:
  assumes "validate c = Inr ()"
    and "l \<in> set (spec_listeners (config_spec c))" and "\<not> is_loopback (sa_host (listener_bind l))"
  shows "lan_exposure_acknowledged (config_spec c) \<and>
     list_all (\<lambda>p. is_loopback_host (endpoint_host (provider_endpoint p)))
       (spec_providers (config_spec c))"
proof -
  from assms(1) have "valid_config c" by (simp only: validate_correct)
  with assms(2,3) have ack: "lan_exposure_acknowledged (config_spec c)"
    and ps: "\<forall>p\<in>set (spec_providers (config_spec c)). provider_ok (config_spec c) p"
    by (auto simp: valid_config_def Let_def listener_ok_def)
  from ack have "exposure_mode (config_spec c) = LanMode"
    by (simp add: lan_exposure_acknowledged_def exposure_mode_def split: option.splits)
  with ack ps show ?thesis by (simp add: provider_ok_def list_all_iff)
qed

theorem accepted_lan_exposure_witness:
  "validate lan_config = Inr () \<and>
   lan_exposure_acknowledged (config_spec lan_config) \<and>
   list_all (\<lambda>p. is_loopback_host (endpoint_host (provider_endpoint p)))
     (spec_providers (config_spec lan_config))"
proof -
  let ?l = "sample_listener None 0 80 Http [Loopback ''lan'']"
  have 1: "validate lan_config = Inr ()" by code_simp
  have 2: "?l \<in> set (spec_listeners (config_spec lan_config))"
    by (simp add: lan_config_def Let_def)
  have 3: "\<not> is_loopback (sa_host (listener_bind ?l))" by (simp add: sample_listener_def)
  show ?thesis using 1 accepted_lan_exposure [OF 1 2 3] by blast
qed

end
