(* ===== verification/RouterCore.thy ===== *)
theory RouterCore
  imports RouterValidate
begin

text \<open>
  \<open>crates/router-core/src/lib.rs\<close>: compilation of a validated configuration into the
  two route tables, the consumer and browser lookups of \<open>CompiledSnapshot\<close>, and the
  \<open>RouteEngine\<close> that owns the active and the previous snapshot.

  An indexing panic (\<open>groups[&binding.group]\<close>, \<open>providers[provider_id]\<close>) is the result
  \<open>None\<close>. The checksum, the SHA-256 digest of the serialized configuration, is computed
  by third-party code and is the parameter \<open>digest\<close>; the JSON decoder is the parameter
  \<open>decode\<close>, whose error is its message.
\<close>

section \<open>Snapshots and lookups\<close>

record route_target =
  target_provider :: component_id
  target_endpoint :: upstream_endpoint
  target_health_check :: "health_check option"
  target_receive_identity_header :: bool

datatype browser_key = KeyHeader binding_id | KeyOrigin string | KeyProxy route_slot_id

text \<open>The derived \<open>Ord\<close> compares the variant first, then its content.\<close>

fun key_rank :: "browser_key \<Rightarrow> nat \<times> string" where
  "key_rank (KeyHeader v) = (0, v)"
| "key_rank (KeyOrigin v) = (1, v)"
| "key_rank (KeyProxy v) = (2, v)"

lemma key_rank_inj: "key_rank a = key_rank b \<Longrightarrow> a = b"
  by (cases a; cases b) auto

instantiation browser_key :: linorder
begin

definition less_eq_browser_key :: "browser_key \<Rightarrow> browser_key \<Rightarrow> bool" where
  "less_eq_browser_key a b \<longleftrightarrow> key_rank a \<le> key_rank b"

definition less_browser_key :: "browser_key \<Rightarrow> browser_key \<Rightarrow> bool" where
  "less_browser_key a b \<longleftrightarrow> key_rank a < key_rank b"

instance
proof
  fix x y z :: browser_key
  show "x < y \<longleftrightarrow> x \<le> y \<and> \<not> y \<le> x"
    by (simp only: less_eq_browser_key_def less_browser_key_def less_le_not_le)
  show "x \<le> x" by (simp add: less_eq_browser_key_def)
  show "x \<le> y \<Longrightarrow> y \<le> z \<Longrightarrow> x \<le> z"
    unfolding less_eq_browser_key_def by (rule order_trans)
  show "x \<le> y \<Longrightarrow> y \<le> x \<Longrightarrow> x = y"
    unfolding less_eq_browser_key_def by (intro key_rank_inj antisym)
  show "x \<le> y \<or> y \<le> x"
    unfolding less_eq_browser_key_def by (rule linear)
qed

end

type_synonym consumer_table = "(instance_id \<times> route_slot_id, route_target) btree"
type_synonym browser_table = "(route_slot_id \<times> browser_key, route_target) btree"

record compiled_snapshot =
  cs_config :: router_config
  cs_checksum :: string
  cs_consumer_routes :: consumer_table
  cs_browser_routes :: browser_table

definition version :: "compiled_snapshot \<Rightarrow> u64" where
  "version s = snapshot_version (spec_snapshot (config_spec (cs_config s)))"

definition snapshot_ident :: "compiled_snapshot \<Rightarrow> route_snapshot_id" where
  "snapshot_ident s = snapshot_id (spec_snapshot (config_spec (cs_config s)))"

definition transition :: "compiled_snapshot \<Rightarrow> protocol \<Rightarrow> connection_transition_policy" where
  "transition s proto =
     (let policies = snapshot_transitions (spec_snapshot (config_spec (cs_config s)))
      in case proto of
           Http \<Rightarrow> tp_http policies
         | Https \<Rightarrow> tp_https policies
         | Websocket \<Rightarrow> tp_websocket policies
         | Grpc \<Rightarrow> tp_grpc policies
         | Tcp \<Rightarrow> tp_tcp policies)"

definition lookup_consumer ::
  "compiled_snapshot \<Rightarrow> instance_id \<Rightarrow> route_slot_id \<Rightarrow> route_target option" where
  "lookup_consumer s consumer slot = bt_get (cs_consumer_routes s) (consumer, slot)"

datatype lookup_error = MissingIdentity | UnknownIdentity | ConflictingIdentity

record browser_lookup =
  lookup_destination :: route_slot_id
  lookup_explicit_header :: "string option"
  lookup_origin :: "string option"
  lookup_proxy_listener :: "route_slot_id option"

definition ok_or :: "'e \<Rightarrow> 'a option \<Rightarrow> 'e + 'a" where
  "ok_or e x = (case x of None \<Rightarrow> Inl e | Some a \<Rightarrow> Inr a)"

definition lookup_browser ::
  "compiled_snapshot \<Rightarrow> browser_lookup \<Rightarrow> lookup_error + route_target" where
  "lookup_browser s lookup =
     (let routes = cs_browser_routes s; destination = lookup_destination lookup
      in case lookup_explicit_header lookup of
           Some header \<Rightarrow>
             (case bt_get routes (destination, KeyHeader header) of
                None \<Rightarrow> Inl UnknownIdentity
              | Some header_target \<Rightarrow>
                  (case lookup_origin lookup of
                     None \<Rightarrow> Inr header_target
                   | Some origin \<Rightarrow>
                       (case bt_get routes (destination, KeyOrigin origin) of
                          None \<Rightarrow> Inr header_target
                        | Some origin_target \<Rightarrow>
                            if target_provider header_target \<noteq> target_provider origin_target
                            then Inl ConflictingIdentity else Inr header_target)))
         | None \<Rightarrow>
             (case lookup_origin lookup of
                Some origin \<Rightarrow> ok_or UnknownIdentity (bt_get routes (destination, KeyOrigin origin))
              | None \<Rightarrow>
                  (case lookup_proxy_listener lookup of
                     Some proxy \<Rightarrow> ok_or UnknownIdentity (bt_get routes (destination, KeyProxy proxy))
                   | None \<Rightarrow> Inl MissingIdentity)))"

record browser_route_candidate =
  candidate_identity :: string
  candidate_provider :: component_id

definition browser_candidates ::
  "compiled_snapshot \<Rightarrow> route_slot_id \<Rightarrow> browser_route_candidate list" where
  "browser_candidates s destination =
     map (\<lambda>r. \<lparr>candidate_identity = identity_text (browser_identity_of r),
               candidate_provider = browser_provider r\<rparr>)
       (filter (\<lambda>r. browser_destination r = destination)
         (spec_browser_routes (config_spec (cs_config s))))"

definition consumer_route_count :: "compiled_snapshot \<Rightarrow> nat" where
  "consumer_route_count s = length (cs_consumer_routes s)"

definition browser_route_count :: "compiled_snapshot \<Rightarrow> nat" where
  "browser_route_count s = length (cs_browser_routes s)"

section \<open>Compilation\<close>

definition provider_target :: "provider \<Rightarrow> route_target" where
  "provider_target p =
     \<lparr>target_provider = provider_id p, target_endpoint = provider_endpoint p,
      target_health_check = provider_health_check p,
      target_receive_identity_header = receive_identity_header p\<rparr>"

definition target :: "component_id \<Rightarrow> provider_table \<Rightarrow> route_target option" where
  "target pid providers = map_option provider_target (bt_get providers pid)"

definition insert_target ::
  "provider_table \<Rightarrow> 'k::linorder \<Rightarrow> component_id \<Rightarrow> ('k, route_target) btree
     \<Rightarrow> ('k, route_target) btree option" where
  "insert_target providers key pid table =
     map_option (\<lambda>t. bt_insert key t table) (target pid providers)"

definition expand_binding ::
  "(group_id, service_group) btree \<Rightarrow> provider_table \<Rightarrow> binding_cfg \<Rightarrow> consumer_table
     \<Rightarrow> consumer_table option" where
  "expand_binding groups providers b table =
     (case bt_get groups (binding_group b) of
        None \<Rightarrow> None
      | Some g \<Rightarrow>
          fold_option (\<lambda>(slot, pid). insert_target providers (binding_consumer b, slot) pid)
            (group_providers g) table)"

fun browser_key_of :: "browser_identity \<Rightarrow> browser_key" where
  "browser_key_of (ExplicitHeader value) = KeyHeader value"
| "browser_key_of (Origin origin) = KeyOrigin origin"
| "browser_key_of (ProxyListener listener) = KeyProxy listener"

datatype apply_error = Decode string | Invalid "validation_error list" | LockPoisoned

definition compile ::
  "(router_config \<Rightarrow> string) \<Rightarrow> router_config \<Rightarrow> (apply_error + compiled_snapshot) option" where
  "compile digest c =
     (case validate c of
        Inl errors \<Rightarrow> Some (Inl (Invalid errors))
      | Inr _ \<Rightarrow>
          (let spec = config_spec c;
               providers = bt_index provider_id (spec_providers spec);
               groups = bt_index group_id_of (spec_groups spec)
           in case fold_option (expand_binding groups providers) (spec_bindings spec) bt_empty of
                None \<Rightarrow> None
              | Some expanded \<Rightarrow>
                  (case fold_option
                          (\<lambda>r. insert_target providers (route_consumer r, route_slot r) (route_provider r))
                          (spec_routes spec) expanded of
                     None \<Rightarrow> None
                   | Some consumer_routes \<Rightarrow>
                       (case fold_option
                               (\<lambda>r. insert_target providers
                                  (browser_destination r, browser_key_of (browser_identity_of r))
                                  (browser_provider r))
                               (spec_browser_routes spec) bt_empty of
                          None \<Rightarrow> None
                        | Some browser_routes \<Rightarrow>
                            Some (Inr \<lparr>cs_config = c, cs_checksum = digest c,
                              cs_consumer_routes = consumer_routes,
                              cs_browser_routes = browser_routes\<rparr>)))))"

section \<open>The route engine\<close>

datatype activation_status = Activated | RejectedStale

record apply_ack =
  ack_version :: u64
  ack_checksum :: string
  ack_status :: activation_status

record route_engine =
  eng_current :: compiled_snapshot
  eng_previous :: "compiled_snapshot option"
  eng_poisoned :: bool

definition engine_new ::
  "(router_config \<Rightarrow> string) \<Rightarrow> router_config \<Rightarrow> (apply_error + route_engine) option" where
  "engine_new digest c =
     map_option (\<lambda>r. case r of
         Inl e \<Rightarrow> Inl e
       | Inr s \<Rightarrow> Inr \<lparr>eng_current = s, eng_previous = None, eng_poisoned = False\<rparr>)
       (compile digest c)"

definition engine_from_json ::
  "('b \<Rightarrow> string + router_config) \<Rightarrow> (router_config \<Rightarrow> string) \<Rightarrow> 'b
     \<Rightarrow> (apply_error + route_engine) option" where
  "engine_from_json decode digest input =
     (case decode input of Inl e \<Rightarrow> Some (Inl (Decode e)) | Inr c \<Rightarrow> engine_new digest c)"

text \<open>The critical section of \<open>apply\<close>: the candidate is complete before the lock is taken.\<close>

definition engine_commit ::
  "compiled_snapshot \<Rightarrow> route_engine \<Rightarrow> (apply_error + apply_ack) \<times> route_engine" where
  "engine_commit candidate e =
     (if eng_poisoned e then (Inl LockPoisoned, e)
      else if version candidate \<le> version (eng_current e)
      then (Inr \<lparr>ack_version = version candidate, ack_checksum = cs_checksum candidate,
              ack_status = RejectedStale\<rparr>, e)
      else (let e' = e\<lparr>eng_current := candidate, eng_previous := Some (eng_current e)\<rparr>
            in (Inr \<lparr>ack_version = version (eng_current e'),
                  ack_checksum = cs_checksum (eng_current e'), ack_status = Activated\<rparr>, e')))"

definition engine_apply ::
  "(router_config \<Rightarrow> string) \<Rightarrow> router_config \<Rightarrow> route_engine
     \<Rightarrow> ((apply_error + apply_ack) \<times> route_engine) option" where
  "engine_apply digest c e =
     map_option (\<lambda>r. case r of Inl err \<Rightarrow> (Inl err, e) | Inr candidate \<Rightarrow> engine_commit candidate e)
       (compile digest c)"

definition engine_apply_json ::
  "('b \<Rightarrow> string + router_config) \<Rightarrow> (router_config \<Rightarrow> string) \<Rightarrow> 'b \<Rightarrow> route_engine
     \<Rightarrow> ((apply_error + apply_ack) \<times> route_engine) option" where
  "engine_apply_json decode digest input e =
     (case decode input of
        Inl err \<Rightarrow> Some (Inl (Decode err), e)
      | Inr c \<Rightarrow> engine_apply digest c e)"

text \<open>Readers recover the pair from a poisoned lock.\<close>

definition engine_snapshot :: "route_engine \<Rightarrow> compiled_snapshot" where
  "engine_snapshot e = eng_current e"

definition engine_previous_snapshot :: "route_engine \<Rightarrow> compiled_snapshot option" where
  "engine_previous_snapshot e = eng_previous e"

section \<open>What compilation produces\<close>

abbreviation provider_index :: "router_spec \<Rightarrow> provider_table" where
  "provider_index spec \<equiv> bt_index provider_id (spec_providers spec)"

abbreviation group_index :: "router_spec \<Rightarrow> (group_id, service_group) btree" where
  "group_index spec \<equiv> bt_index group_id_of (spec_groups spec)"

abbreviation insert_entries ::
  "('k::linorder \<times> route_target) list \<Rightarrow> ('k, route_target) btree \<Rightarrow> ('k, route_target) btree" where
  "insert_entries \<equiv> fold (\<lambda>(k, t). bt_insert k t)"

definition resolved :: "router_spec \<Rightarrow> component_id \<Rightarrow> route_target" where
  "resolved spec pid = the (target pid (provider_index spec))"

definition selected_group :: "router_spec \<Rightarrow> binding_cfg \<Rightarrow> service_group" where
  "selected_group spec b = the (bt_get (group_index spec) (binding_group b))"

definition binding_entries ::
  "router_spec \<Rightarrow> binding_cfg \<Rightarrow> ((instance_id \<times> route_slot_id) \<times> route_target) list" where
  "binding_entries spec b =
     map (\<lambda>(slot, pid). ((binding_consumer b, slot), resolved spec pid))
       (group_providers (selected_group spec b))"

definition group_entries ::
  "router_spec \<Rightarrow> ((instance_id \<times> route_slot_id) \<times> route_target) list" where
  "group_entries spec = concat (map (binding_entries spec) (spec_bindings spec))"

definition direct_entries ::
  "router_spec \<Rightarrow> ((instance_id \<times> route_slot_id) \<times> route_target) list" where
  "direct_entries spec =
     map (\<lambda>r. ((route_consumer r, route_slot r), resolved spec (route_provider r))) (spec_routes spec)"

definition browser_entries ::
  "router_spec \<Rightarrow> ((route_slot_id \<times> browser_key) \<times> route_target) list" where
  "browser_entries spec =
     map (\<lambda>r. ((browser_destination r, browser_key_of (browser_identity_of r)),
              resolved spec (browser_provider r))) (spec_browser_routes spec)"

lemma resolves_target:
  assumes "distinct (map provider_id (spec_providers spec))" and "resolves spec slot pid"
  shows "target pid (provider_index spec) = Some (resolved spec pid)"
proof -
  from assms(2) obtain p where "p \<in> set (spec_providers spec)" "provider_id p = pid"
    by (auto simp: resolves_def)
  then have "bt_get (provider_index spec) pid = Some p"
    using assms(1) by (simp add: bt_index_get)
  then show ?thesis by (simp add: target_def resolved_def)
qed

lemma fold_option_insert_target:
  assumes "\<And>x. x \<in> set xs \<Longrightarrow> target (pid x) providers = Some (tgt (pid x))"
  shows "fold_option (\<lambda>x. insert_target providers (key x) (pid x)) xs m =
     Some (insert_entries (map (\<lambda>x. (key x, tgt (pid x))) xs) m)"
  unfolding fold_bt_insert_map [symmetric]
  by (rule fold_option_total) (simp add: insert_target_def assms)

lemma expand_binding_valid:
  assumes "valid_config c" and "b \<in> set (spec_bindings (config_spec c))"
  shows "expand_binding (group_index (config_spec c)) (provider_index (config_spec c)) b m =
     Some (insert_entries (binding_entries (config_spec c) b) m)"
proof -
  let ?spec = "config_spec c"
  from assms have dp: "distinct (map provider_id (spec_providers ?spec))"
    and dg: "distinct (map group_id_of (spec_groups ?spec))"
    and gs: "\<forall>g\<in>set (spec_groups ?spec). group_ok ?spec g" and "binding_ok ?spec b"
    by (auto simp: valid_config_def Let_def)
  then obtain g where g: "g \<in> set (spec_groups ?spec)" "group_id_of g = binding_group b"
    by (auto simp: binding_ok_def)
  then have idx: "bt_get (group_index ?spec) (binding_group b) = Some g"
    using dg by (simp add: bt_index_get)
  have "target (snd e) (provider_index ?spec) = Some (resolved ?spec (snd e))"
    if "e \<in> set (group_providers g)" for e
  proof -
    from that gs g(1) have "resolves ?spec (fst e) (snd e)"
      by (force simp: group_ok_def case_prod_beta')
    with dp show ?thesis by (rule resolves_target)
  qed
  then show ?thesis
    using fold_option_insert_target [of "group_providers g" snd "provider_index ?spec"
        "resolved ?spec" "\<lambda>e. (binding_consumer b, fst e)"]
    by (simp add: expand_binding_def idx binding_entries_def selected_group_def case_prod_beta')
qed

lemma compile_valid:
  assumes "valid_config c"
  shows "compile digest c = Some (Inr
     \<lparr>cs_config = c, cs_checksum = digest c,
      cs_consumer_routes =
        insert_entries (group_entries (config_spec c) @ direct_entries (config_spec c)) bt_empty,
      cs_browser_routes = insert_entries (browser_entries (config_spec c)) bt_empty\<rparr>)"
proof -
  let ?spec = "config_spec c"
  from assms have dp: "distinct (map provider_id (spec_providers ?spec))"
    and rs: "\<forall>r\<in>set (spec_routes ?spec). resolves ?spec (route_slot r) (route_provider r)"
    and bs: "\<forall>r\<in>set (spec_browser_routes ?spec). browser_route_ok ?spec r"
    by (auto simp: valid_config_def Let_def)
  have 1: "fold_option (expand_binding (group_index ?spec) (provider_index ?spec))
      (spec_bindings ?spec) m = Some (insert_entries (group_entries ?spec) m)" for m
    unfolding group_entries_def fold_fold_concat [symmetric]
    by (rule fold_option_total) (rule expand_binding_valid [OF assms])
  have 2: "fold_option
      (\<lambda>r. insert_target (provider_index ?spec) (route_consumer r, route_slot r) (route_provider r))
      (spec_routes ?spec) m = Some (insert_entries (direct_entries ?spec) m)" for m
    unfolding direct_entries_def
    by (rule fold_option_insert_target) (use rs dp in \<open>auto intro: resolves_target\<close>)
  have 3: "fold_option
      (\<lambda>r. insert_target (provider_index ?spec)
         (browser_destination r, browser_key_of (browser_identity_of r)) (browser_provider r))
      (spec_browser_routes ?spec) m = Some (insert_entries (browser_entries ?spec) m)" for m
    unfolding browser_entries_def
    by (rule fold_option_insert_target)
      (use bs dp in \<open>auto simp: browser_route_ok_def intro: resolves_target\<close>)
  have "validate c = Inr ()" using assms by (simp add: validate_correct)
  then show ?thesis by (simp add: compile_def Let_def 1 2 3)
qed

lemma compile_invalid: "validate c = Inl es \<Longrightarrow> compile digest c = Some (Inl (Invalid es))"
  by (simp add: compile_def)

lemma compile_cases:
  obtains (invalid) es where "validate c = Inl es" "compile digest c = Some (Inl (Invalid es))"
  | (valid) s where "valid_config c" "compile digest c = Some (Inr s)" "cs_config s = c"
      "cs_checksum s = digest c"
proof (cases "validate c")
  case (Inl es)
  then show thesis using invalid compile_invalid by blast
next
  case (Inr u)
  then have v: "valid_config c" by (simp add: validate_correct [symmetric])
  show thesis by (rule valid [OF v compile_valid [OF v]]) simp_all
qed

section \<open>The routes a configuration selects\<close>

text \<open>
  The selection rule of the schema: a direct route wins over the group the consumer is bound
  to, and the group supplies a slot only if it lists it.
\<close>

definition direct_route :: "router_spec \<Rightarrow> instance_id \<Rightarrow> route_slot_id \<Rightarrow> component_id \<Rightarrow> bool" where
  "direct_route spec consumer slot pid \<longleftrightarrow>
     (\<exists>r\<in>set (spec_routes spec). route_consumer r = consumer \<and> route_slot r = slot \<and>
        route_provider r = pid)"

definition group_route :: "router_spec \<Rightarrow> instance_id \<Rightarrow> route_slot_id \<Rightarrow> component_id \<Rightarrow> bool" where
  "group_route spec consumer slot pid \<longleftrightarrow>
     (\<exists>b\<in>set (spec_bindings spec). \<exists>g\<in>set (spec_groups spec).
        binding_consumer b = consumer \<and> group_id_of g = binding_group b \<and>
        (slot, pid) \<in> set (group_providers g))"

definition selects :: "router_spec \<Rightarrow> instance_id \<Rightarrow> route_slot_id \<Rightarrow> component_id \<Rightarrow> bool" where
  "selects spec consumer slot pid \<longleftrightarrow>
     direct_route spec consumer slot pid \<or>
     (\<nexists>q. direct_route spec consumer slot q) \<and> group_route spec consumer slot pid"

text \<open>Representation invariant of the \<open>BTreeMap\<close> fields of a decoded configuration.\<close>

definition maps_wf :: "router_config \<Rightarrow> bool" where
  "maps_wf c \<longleftrightarrow> list_all (\<lambda>g. bt_inv (group_providers g)) (spec_groups (config_spec c))"

lemma selected_group_eq:
  assumes "distinct (map group_id_of (spec_groups spec))"
    and "g \<in> set (spec_groups spec)" and "group_id_of g = binding_group b"
  shows "selected_group spec b = g"
  using assms by (simp add: selected_group_def bt_index_get [THEN iffD2])

lemma binding_selected_group:
  assumes "distinct (map group_id_of (spec_groups spec))" and "binding_ok spec b"
  shows "selected_group spec b \<in> set (spec_groups spec)"
    and "group_id_of (selected_group spec b) = binding_group b"
proof -
  from assms(2) obtain g where g: "g \<in> set (spec_groups spec)" "group_id_of g = binding_group b"
    by (auto simp: binding_ok_def)
  with selected_group_eq [OF assms(1) g] show "selected_group spec b \<in> set (spec_groups spec)"
    and "group_id_of (selected_group spec b) = binding_group b" by simp_all
qed

lemma group_entries_iff:
  assumes "valid_config c"
  shows "((consumer, slot), t) \<in> set (group_entries (config_spec c)) \<longleftrightarrow>
     (\<exists>pid. group_route (config_spec c) consumer slot pid \<and> t = resolved (config_spec c) pid)"
proof -
  let ?spec = "config_spec c"
  from assms have dg: "distinct (map group_id_of (spec_groups ?spec))"
    and bs: "\<forall>b\<in>set (spec_bindings ?spec). binding_ok ?spec b"
    by (auto simp: valid_config_def Let_def)
  have "((consumer, slot), t) \<in> set (group_entries ?spec) \<longleftrightarrow>
      (\<exists>b\<in>set (spec_bindings ?spec). \<exists>pid. binding_consumer b = consumer \<and>
         (slot, pid) \<in> set (group_providers (selected_group ?spec b)) \<and> t = resolved ?spec pid)"
    by (force simp: group_entries_def binding_entries_def)
  also have "\<dots> \<longleftrightarrow> (\<exists>pid. group_route ?spec consumer slot pid \<and> t = resolved ?spec pid)"
    (is "?L \<longleftrightarrow> ?R")
  proof
    assume ?L
    then obtain b pid where "b \<in> set (spec_bindings ?spec)" "binding_consumer b = consumer"
      "(slot, pid) \<in> set (group_providers (selected_group ?spec b))" "t = resolved ?spec pid"
      by blast
    moreover from this(1) have "selected_group ?spec b \<in> set (spec_groups ?spec)"
      and "group_id_of (selected_group ?spec b) = binding_group b"
      using binding_selected_group [OF dg] bs by blast+
    ultimately show ?R unfolding group_route_def by blast
  next
    assume ?R
    then show ?L unfolding group_route_def using selected_group_eq [OF dg] by blast
  qed
  finally show ?thesis .
qed

lemma distinct_binding_entries:
  assumes "bt_inv (group_providers (selected_group spec b))"
  shows "distinct (map fst (binding_entries spec b))"
proof -
  have "map fst (binding_entries spec b) =
      map (Pair (binding_consumer b)) (map fst (group_providers (selected_group spec b)))"
    by (auto simp: binding_entries_def)
  then show ?thesis
    using bt_inv_distinct [OF assms] by (simp add: distinct_map inj_on_def)
qed

lemma binding_entries_consumer: "e \<in> set (binding_entries spec b) \<Longrightarrow> fst (fst e) = binding_consumer b"
  by (auto simp: binding_entries_def)

lemma distinct_concat_binding_entries:
  assumes "distinct (map binding_consumer bs)"
    and "\<And>b. b \<in> set bs \<Longrightarrow> bt_inv (group_providers (selected_group spec b))"
  shows "distinct (map fst (concat (map (binding_entries spec) bs)))"
  using assms
proof (induction bs)
  case Nil
  then show ?case by simp
next
  case (Cons b bs)
  have "set (map fst (binding_entries spec b)) \<inter>
      set (map fst (concat (map (binding_entries spec) bs))) = {}"
    using Cons.prems(1) by (force dest: binding_entries_consumer)
  with Cons show ?case
    by (simp only: concat.simps list.map map_append distinct_append)
      (simp add: distinct_binding_entries)
qed

lemma distinct_group_entries:
  assumes "valid_config c" and "maps_wf c"
  shows "distinct (map fst (group_entries (config_spec c)))"
  unfolding group_entries_def
proof (rule distinct_concat_binding_entries)
  let ?spec = "config_spec c"
  from assms(1) have dg: "distinct (map group_id_of (spec_groups ?spec))"
    and bs: "\<forall>b\<in>set (spec_bindings ?spec). binding_ok ?spec b"
    and db: "distinct (map binding_consumer (spec_bindings ?spec))"
    by (auto simp: valid_config_def Let_def)
  show "distinct (map binding_consumer (spec_bindings ?spec))" by (rule db)
  show "bt_inv (group_providers (selected_group ?spec b))" if "b \<in> set (spec_bindings ?spec)" for b
    using binding_selected_group(1) [OF dg] bs that assms(2) by (auto simp: maps_wf_def list_all_iff)
qed

lemma map_of_rev_distinct:
  "distinct (map fst xs) \<Longrightarrow> map_of (rev xs) k = Some v \<longleftrightarrow> (k, v) \<in> set xs"
  by (simp add: map_of_eq_Some_iff rev_map [symmetric])

lemma direct_entries_iff:
  "((consumer, slot), t) \<in> set (direct_entries spec) \<longleftrightarrow>
     (\<exists>pid. direct_route spec consumer slot pid \<and> t = resolved spec pid)"
  by (auto simp: direct_entries_def direct_route_def)

lemma consumer_table_get:
  assumes "valid_config c" and "maps_wf c"
  shows "bt_get (insert_entries (group_entries (config_spec c) @ direct_entries (config_spec c))
      bt_empty) (consumer, slot) = Some t \<longleftrightarrow>
     (\<exists>pid. selects (config_spec c) consumer slot pid \<and> t = resolved (config_spec c) pid)"
proof -
  let ?spec = "config_spec c" and ?k = "(consumer, slot)"
  let ?G = "map_of (rev (group_entries ?spec)) ?k" and ?D = "map_of (rev (direct_entries ?spec)) ?k"
  have "distinct (map (\<lambda>r. (route_consumer r, route_slot r)) (spec_routes ?spec))"
    using assms(1) by (auto simp: valid_config_def Let_def)
  then have dd: "distinct (map fst (direct_entries ?spec))"
    by (simp add: direct_entries_def comp_def)
  have D: "?D = Some t' \<longleftrightarrow> (\<exists>pid. direct_route ?spec consumer slot pid \<and> t' = resolved ?spec pid)" for t'
    by (simp only: map_of_rev_distinct [OF dd] direct_entries_iff)
  then have D0: "?D = None \<longleftrightarrow> (\<nexists>q. direct_route ?spec consumer slot q)"
    by (cases ?D) fastforce+
  have G: "?G = Some t \<longleftrightarrow> (\<exists>pid. group_route ?spec consumer slot pid \<and> t = resolved ?spec pid)"
    by (simp only: map_of_rev_distinct [OF distinct_group_entries [OF assms]]
        group_entries_iff [OF assms(1)])
  have "bt_get (insert_entries (group_entries ?spec @ direct_entries ?spec) bt_empty) ?k =
      (case ?D of None \<Rightarrow> ?G | Some v \<Rightarrow> Some v)"
    by (subst bt.get_insert_all) (simp_all add: bt.inv_empty map_add_def split: option.splits)
  then show ?thesis
    unfolding selects_def using D D0 G by (cases ?D) auto
qed

section \<open>Browser routes\<close>

definition browser_selects ::
  "router_spec \<Rightarrow> route_slot_id \<Rightarrow> browser_identity \<Rightarrow> component_id \<Rightarrow> bool" where
  "browser_selects spec destination identity pid \<longleftrightarrow>
     (\<exists>r\<in>set (spec_browser_routes spec). browser_destination r = destination \<and>
        browser_identity_of r = identity \<and> browser_provider r = pid)"

lemma browser_key_of_inj: "browser_key_of i = browser_key_of j \<longleftrightarrow> i = j"
  by (cases i; cases j) auto

lemma distinct_browser_entries:
  assumes "valid_config c"
  shows "distinct (map fst (browser_entries (config_spec c)))"
proof -
  let ?rs = "spec_browser_routes (config_spec c)"
  let ?key = "\<lambda>r. (browser_destination r, browser_identity_of r)"
  from assms have "distinct (map ?key ?rs)" by (simp add: valid_config_def Let_def)
  moreover have "map fst (browser_entries (config_spec c)) =
      map (map_prod id browser_key_of) (map ?key ?rs)"
    by (simp add: browser_entries_def comp_def)
  moreover have "inj_on (map_prod id browser_key_of) (set (map ?key ?rs))"
    by (rule inj_onI) (auto simp: browser_key_of_inj)
  ultimately show ?thesis
    using distinct_map [of "map_prod id browser_key_of" "map ?key ?rs"] by simp
qed

lemma browser_table_get:
  assumes "valid_config c"
  shows "bt_get (insert_entries (browser_entries (config_spec c)) bt_empty)
      (destination, browser_key_of identity) = Some t \<longleftrightarrow>
     (\<exists>pid. browser_selects (config_spec c) destination identity pid \<and>
        t = resolved (config_spec c) pid)"
proof -
  note d = distinct_browser_entries [OF assms]
  have "bt_get (insert_entries (browser_entries (config_spec c)) bt_empty)
      (destination, browser_key_of identity) = Some t \<longleftrightarrow>
      ((destination, browser_key_of identity), t) \<in> set (browser_entries (config_spec c))"
    using d by (simp add: bt.get_insert_all_distinct map_of_eq_Some_iff)
  also have "\<dots> \<longleftrightarrow> (\<exists>pid. browser_selects (config_spec c) destination identity pid \<and>
        t = resolved (config_spec c) pid)"
    unfolding browser_entries_def browser_selects_def
    by (force simp: browser_key_of_inj)
  finally show ?thesis .
qed

lemma browser_selects_unique:
  assumes "valid_config c" and "browser_selects (config_spec c) d i p"
    and "browser_selects (config_spec c) d i q"
  shows "p = q"
proof -
  let ?rs = "spec_browser_routes (config_spec c)"
  have "distinct (map (\<lambda>r. (browser_destination r, browser_identity_of r)) ?rs)"
    using assms(1) by (simp add: valid_config_def Let_def)
  moreover obtain r r' where "r \<in> set ?rs" "browser_destination r = d" "browser_identity_of r = i"
    "browser_provider r = p" "r' \<in> set ?rs" "browser_destination r' = d"
    "browser_identity_of r' = i" "browser_provider r' = q"
    using assms(2,3) by (auto simp: browser_selects_def)
  ultimately show ?thesis
    by (auto simp: distinct_map dest!: inj_onD [of _ _ r r'])
qed

lemma resolved_provider:
  assumes "distinct (map provider_id (spec_providers spec))" and "resolves spec slot pid"
  shows "target_provider (resolved spec pid) = pid"
proof -
  from assms(2) obtain p where "p \<in> set (spec_providers spec)" "provider_id p = pid"
    by (auto simp: resolves_def)
  then show ?thesis
    using assms(1) by (simp add: resolved_def target_def provider_target_def bt_index_get [THEN iffD2])
qed

lemma browser_selects_provider:
  assumes "valid_config c" and "browser_selects (config_spec c) d i pid"
  shows "target_provider (resolved (config_spec c) pid) = pid"
  using assms resolved_provider
  by (auto simp: valid_config_def Let_def browser_selects_def browser_route_ok_def)

text \<open>The identity a lookup is decided by: header, then Origin, then proxy listener.\<close>

definition presented :: "browser_lookup \<Rightarrow> browser_identity option" where
  "presented l =
     (case lookup_explicit_header l of
        Some h \<Rightarrow> Some (ExplicitHeader h)
      | None \<Rightarrow>
          (case lookup_origin l of
             Some origin \<Rightarrow> Some (Origin origin)
           | None \<Rightarrow> map_option ProxyListener (lookup_proxy_listener l)))"

text \<open>A known Origin beside the header that names another provider than the header does.\<close>

definition contradicted :: "router_spec \<Rightarrow> browser_lookup \<Rightarrow> component_id \<Rightarrow> bool" where
  "contradicted spec l pid \<longleftrightarrow>
     (\<exists>h origin q. lookup_explicit_header l = Some h \<and> lookup_origin l = Some origin \<and>
        browser_selects spec (lookup_destination l) (Origin origin) q \<and> q \<noteq> pid)"

definition browser_lookup_spec ::
  "router_spec \<Rightarrow> browser_lookup \<Rightarrow> (lookup_error + route_target) \<Rightarrow> bool" where
  "browser_lookup_spec spec l result \<longleftrightarrow>
     (case presented l of
        None \<Rightarrow> result = Inl MissingIdentity
      | Some identity \<Rightarrow>
          (\<nexists>pid. browser_selects spec (lookup_destination l) identity pid) \<and>
            result = Inl UnknownIdentity \<or>
          (\<exists>pid. browser_selects spec (lookup_destination l) identity pid \<and>
             result = (if contradicted spec l pid then Inl ConflictingIdentity
                       else Inr (resolved spec pid))))"

lemma browser_get_cases:
  assumes "valid_config c"
  shows "bt_get (insert_entries (browser_entries (config_spec c)) bt_empty)
      (d, browser_key_of i) = None \<and> (\<nexists>pid. browser_selects (config_spec c) d i pid) \<or>
     (\<exists>pid. bt_get (insert_entries (browser_entries (config_spec c)) bt_empty)
      (d, browser_key_of i) = Some (resolved (config_spec c) pid) \<and>
        browser_selects (config_spec c) d i pid)"
  using browser_table_get [OF assms, of d i]
  by (cases "bt_get (insert_entries (browser_entries (config_spec c)) bt_empty)
      (d, browser_key_of i)") fastforce+

lemma contradicted_iff:
  assumes "valid_config c" and "lookup_explicit_header l = Some h"
    and "lookup_origin l = Some origin"
    and "browser_selects (config_spec c) (lookup_destination l) (Origin origin) q"
  shows "contradicted (config_spec c) l pid \<longleftrightarrow> q \<noteq> pid"
proof -
  have "contradicted (config_spec c) l pid \<longleftrightarrow>
      (\<exists>r. browser_selects (config_spec c) (lookup_destination l) (Origin origin) r \<and> r \<noteq> pid)"
    by (simp add: contradicted_def assms(2,3))
  also have "\<dots> \<longleftrightarrow> q \<noteq> pid"
    using browser_selects_unique [OF assms(1) assms(4)] assms(4) by blast
  finally show ?thesis .
qed

lemma lookup_browser_header:
  assumes "valid_config c"
    and table: "cs_browser_routes s = insert_entries (browser_entries (config_spec c)) bt_empty"
    and header: "lookup_explicit_header l = Some h"
    and hdr: "browser_selects (config_spec c) (lookup_destination l) (ExplicitHeader h) pid"
      "bt_get (cs_browser_routes s) (lookup_destination l, KeyHeader h) =
         Some (resolved (config_spec c) pid)"
  shows "lookup_browser s l =
     (if contradicted (config_spec c) l pid then Inl ConflictingIdentity
      else Inr (resolved (config_spec c) pid))"
proof (cases "lookup_origin l")
  case None
  with header hdr show ?thesis by (simp add: lookup_browser_def contradicted_def)
next
  case (Some origin)
  from browser_get_cases [OF assms(1), of "lookup_destination l" "Origin origin"]
  show ?thesis
  proof (elim disjE exE conjE)
    assume "bt_get (insert_entries (browser_entries (config_spec c)) bt_empty)
        (lookup_destination l, browser_key_of (Origin origin)) = None"
      and "\<nexists>q. browser_selects (config_spec c) (lookup_destination l) (Origin origin) q"
    with Some header hdr show ?thesis
      by (simp add: lookup_browser_def contradicted_def table)
  next
    fix q
    assume q: "bt_get (insert_entries (browser_entries (config_spec c)) bt_empty)
        (lookup_destination l, browser_key_of (Origin origin)) = Some (resolved (config_spec c) q)"
      "browser_selects (config_spec c) (lookup_destination l) (Origin origin) q"
    have "target_provider (resolved (config_spec c) pid) = pid"
      and "target_provider (resolved (config_spec c) q) = q"
      by (rule browser_selects_provider [OF assms(1) hdr(1)],
          rule browser_selects_provider [OF assms(1) q(2)])
    with Some header hdr(2) q(1) contradicted_iff [OF assms(1) header Some q(2)] show ?thesis
      by (simp add: lookup_browser_def table)
  qed
qed

lemma lookup_browser_valid:
  assumes "valid_config c"
    and table: "cs_browser_routes s = insert_entries (browser_entries (config_spec c)) bt_empty"
  shows "browser_lookup_spec (config_spec c) l (lookup_browser s l)"
proof -
  let ?spec = "config_spec c" and ?d = "lookup_destination l"
  have get: "bt_get (cs_browser_routes s) (?d, browser_key_of i) = None \<and>
        (\<nexists>pid. browser_selects ?spec ?d i pid) \<or>
      (\<exists>pid. bt_get (cs_browser_routes s) (?d, browser_key_of i) = Some (resolved ?spec pid) \<and>
        browser_selects ?spec ?d i pid)" for i
    unfolding table by (rule browser_get_cases [OF assms(1)])
  show ?thesis
  proof (cases "lookup_explicit_header l")
    case None
    then have "\<not> contradicted ?spec l pid" for pid by (simp add: contradicted_def)
    moreover have "lookup_browser s l =
        (case presented l of
           None \<Rightarrow> Inl MissingIdentity
         | Some i \<Rightarrow> ok_or UnknownIdentity (bt_get (cs_browser_routes s) (?d, browser_key_of i)))"
      using None by (simp add: lookup_browser_def presented_def split: option.splits)
    ultimately show ?thesis
      using get [of "the (presented l)"]
      by (cases "presented l") (auto simp: browser_lookup_spec_def ok_or_def)
  next
    case (Some h)
    from get [of "ExplicitHeader h"] show ?thesis
    proof (elim disjE exE conjE)
      fix pid
      assume hdr: "bt_get (cs_browser_routes s) (?d, browser_key_of (ExplicitHeader h)) =
          Some (resolved ?spec pid)" "browser_selects ?spec ?d (ExplicitHeader h) pid"
      with lookup_browser_header [OF assms Some hdr(2)] Some show ?thesis
        by (auto simp: browser_lookup_spec_def presented_def)
    next
      assume "bt_get (cs_browser_routes s) (?d, browser_key_of (ExplicitHeader h)) = None"
        and "\<nexists>pid. browser_selects ?spec ?d (ExplicitHeader h) pid"
      with Some show ?thesis
        by (simp add: browser_lookup_spec_def presented_def lookup_browser_def)
    qed
  qed
qed

section \<open>The contract of a versioned store\<close>

text \<open>
  What the engine promises to its callers (the administration interface, concurrent
  appliers): committing never lowers the version and a stale candidate changes nothing. What
  follows from it for any sequence of commits is proved here once.
\<close>

locale versioned_store =
  fixes current :: "'st \<Rightarrow> 'snap"
    and commit :: "'snap \<Rightarrow> 'st \<Rightarrow> 'st"
    and ver :: "'snap \<Rightarrow> 'v::linorder"
    and good :: "'st \<Rightarrow> bool"
  assumes commit_good: "good st \<Longrightarrow> good (commit s st)"
    and commit_stale: "good st \<Longrightarrow> ver s \<le> ver (current st) \<Longrightarrow> commit s st = st"
    and commit_newer: "good st \<Longrightarrow> ver (current st) < ver s \<Longrightarrow> current (commit s st) = s"
begin

lemma commit_version: "good st \<Longrightarrow> ver (current (commit s st)) = max (ver (current st)) (ver s)"
  by (cases "ver s \<le> ver (current st)") (auto simp: commit_stale commit_newer max_def)

lemma commit_idem: "good st \<Longrightarrow> commit s (commit s st) = commit s st"
  by (rule commit_stale) (auto simp: commit_good commit_version)

lemma commits_good: "good st \<Longrightarrow> good (fold commit ss st)"
  by (induction ss arbitrary: st) (auto simp: commit_good)

lemma commits_version:
  "good st \<Longrightarrow> ver (current (fold commit ss st)) = Max (set (ver (current st) # map ver ss))"
proof (unfold Max.set_eq_fold, induction ss arbitrary: st)
  case Nil
  then show ?case by simp
next
  case (Cons s ss)
  then show ?case by (simp add: commit_good commit_version max.commute)
qed

lemma commits_order_irrelevant:
  "good st \<Longrightarrow> set ss = set ts \<Longrightarrow>
     ver (current (fold commit ss st)) = ver (current (fold commit ts st))"
  by (simp only: commits_version list.set set_map)

end

interpretation engine: versioned_store eng_current "\<lambda>s e. snd (engine_commit s e)" version
    "\<lambda>e. \<not> eng_poisoned e"
  by unfold_locales (auto simp: engine_commit_def Let_def)

section \<open>Invariants of the route engine\<close>

text \<open>A snapshot is sound when it is the compilation of the configuration it carries.\<close>

definition sound_snapshot :: "(router_config \<Rightarrow> string) \<Rightarrow> compiled_snapshot \<Rightarrow> bool" where
  "sound_snapshot digest s \<longleftrightarrow>
     (compile digest (cs_config s) :: (apply_error + compiled_snapshot) option) = Some (Inr s)"

definition engine_inv :: "(router_config \<Rightarrow> string) \<Rightarrow> route_engine \<Rightarrow> bool" where
  "engine_inv digest e \<longleftrightarrow>
     sound_snapshot digest (eng_current e) \<and> \<not> eng_poisoned e \<and>
     (case eng_previous e of
        None \<Rightarrow> True
      | Some p \<Rightarrow> sound_snapshot digest p \<and> version p < version (eng_current e))"

lemma compile_Inr_iff:
  "compile digest c = Some (Inr s) \<longleftrightarrow>
     valid_config c \<and>
     s = \<lparr>cs_config = c, cs_checksum = digest c,
      cs_consumer_routes =
        insert_entries (group_entries (config_spec c) @ direct_entries (config_spec c)) bt_empty,
      cs_browser_routes = insert_entries (browser_entries (config_spec c)) bt_empty\<rparr>"
proof (cases "validate c")
  case (Inl es)
  then show ?thesis using validate_correct [of c] by (simp add: compile_invalid)
next
  case (Inr u)
  then have "valid_config c" by (simp add: validate_correct [symmetric])
  then show ?thesis using compile_valid [of c digest] by auto
qed

lemma compile_sound: "compile digest c = Some (Inr s) \<Longrightarrow> sound_snapshot digest s"
  unfolding sound_snapshot_def compile_Inr_iff by simp

lemma sound_snapshot_valid: "sound_snapshot digest s \<Longrightarrow> valid_config (cs_config s)"
  by (simp add: sound_snapshot_def compile_Inr_iff)

lemma engine_new_inv: "engine_new digest c = Some (Inr e) \<Longrightarrow> engine_inv digest e"
  by (cases rule: compile_cases [of c digest])
    (auto simp: engine_new_def engine_inv_def intro: compile_sound)

lemma engine_commit_inv:
  "engine_inv digest e \<Longrightarrow> sound_snapshot digest s \<Longrightarrow> engine_inv digest (snd (engine_commit s e))"
  by (auto simp: engine_inv_def engine_commit_def Let_def split: option.splits)

lemma engine_commit_poisoned [simp]: "eng_poisoned (snd (engine_commit s e)) = eng_poisoned e"
  by (auto simp: engine_commit_def Let_def)

text \<open>
  Concurrent callers of \<open>apply\<close>: each compiles its candidate on its own and commits it in
  one critical section; the steps of the callers interleave freely.
\<close>

record engine_system =
  sys_engine :: route_engine
  sys_pending :: "nat \<Rightarrow> compiled_snapshot option"

inductive engine_step ::
  "(router_config \<Rightarrow> string) \<Rightarrow> engine_system \<Rightarrow> engine_system \<Rightarrow> bool" for digest where
  compile_candidate:
    "sys_pending S t = None \<Longrightarrow>
     (compile digest c :: (apply_error + compiled_snapshot) option) = Some (Inr s) \<Longrightarrow>
     engine_step digest S (S\<lparr>sys_pending := (sys_pending S)(t := Some s)\<rparr>)"
| commit_candidate:
    "sys_pending S t = Some s \<Longrightarrow>
     engine_step digest S
       (S\<lparr>sys_engine := snd (engine_commit s (sys_engine S) ::
            (apply_error + apply_ack) \<times> route_engine),
          sys_pending := (sys_pending S)(t := None)\<rparr>)"

inductive_cases engine_stepE: "engine_step digest S S'"

inductive engine_reachable ::
  "(router_config \<Rightarrow> string) \<Rightarrow> router_config \<Rightarrow> engine_system \<Rightarrow> bool" for digest c where
  start:
    "(engine_new digest c :: (apply_error + route_engine) option) = Some (Inr e) \<Longrightarrow>
     engine_reachable digest c \<lparr>sys_engine = e, sys_pending = (\<lambda>_. None)\<rparr>"
| step:
    "engine_reachable digest c S \<Longrightarrow> engine_step digest S S' \<Longrightarrow> engine_reachable digest c S'"

definition system_inv :: "(router_config \<Rightarrow> string) \<Rightarrow> engine_system \<Rightarrow> bool" where
  "system_inv digest S \<longleftrightarrow>
     engine_inv digest (sys_engine S) \<and>
     (\<forall>t s. sys_pending S t = Some s \<longrightarrow> sound_snapshot digest s)"

lemma engine_step_inv: "engine_step digest S S' \<Longrightarrow> system_inv digest S \<Longrightarrow> system_inv digest S'"
  by (erule engine_stepE)
    (auto simp: system_inv_def intro: compile_sound engine_commit_inv split: if_splits)

lemma engine_reachable_inv: "engine_reachable digest c S \<Longrightarrow> system_inv digest S"
proof (induction rule: engine_reachable.induct)
  case (start e)
  then show ?case using engine_new_inv by (simp add: system_inv_def)
next
  case (step S S')
  then show ?case by (blast intro: engine_step_inv)
qed

lemma engine_step_monotone:
  assumes "engine_step digest S S'" and "system_inv digest S"
  shows "version (eng_current (sys_engine S)) \<le> version (eng_current (sys_engine S'))"
  using assms by (elim engine_stepE) (auto simp: system_inv_def engine_inv_def engine.commit_version)

section \<open>Properties\<close>

lemma selects_target:
  assumes "valid_config c" and "selects (config_spec c) consumer slot pid"
  shows "\<exists>p\<in>set (spec_providers (config_spec c)).
     provider_id p = pid \<and> resolved (config_spec c) pid = provider_target p"
proof -
  from assms have "resolves (config_spec c) slot pid"
    by (auto simp: selects_def direct_route_def group_route_def valid_config_def Let_def group_ok_def)
  then obtain p where p: "p \<in> set (spec_providers (config_spec c))" "provider_id p = pid"
    by (auto simp: resolves_def)
  moreover have "distinct (map provider_id (spec_providers (config_spec c)))"
    using assms(1) by (simp add: valid_config_def Let_def)
  ultimately have "resolved (config_spec c) pid = provider_target p"
    by (simp add: resolved_def target_def bt_index_get [THEN iffD2])
  with p show ?thesis by blast
qed

lemma resolved_unique:
  assumes "valid_config c" and "p \<in> set (spec_providers (config_spec c))"
  shows "resolved (config_spec c) (provider_id p) = provider_target p"
proof -
  have "distinct (map provider_id (spec_providers (config_spec c)))"
    using assms(1) by (simp add: valid_config_def Let_def)
  then show ?thesis
    using assms(2) by (simp add: resolved_def target_def bt_index_get [THEN iffD2])
qed

text \<open>
  C3. Compilation is total and never panics: the map indexing in \<open>compile\<close> always finds its
  key. It returns a snapshot carrying the configuration and its checksum exactly for the valid
  configurations, and the validator's non-empty error list for all others.
\<close>

theorem compile_never_panics:
  "(\<exists>s. valid_config c \<and> compile digest c = Some (Inr s) \<and> cs_config s = c \<and> cs_checksum s = digest c) \<or>
   (\<exists>errors. \<not> valid_config c \<and> errors \<noteq> [] \<and> validate c = Inl errors \<and>
      compile digest c = Some (Inl (Invalid errors)))"
proof (cases rule: compile_cases [of c digest])
  case (invalid es)
  moreover from invalid(1) have "es \<noteq> []"
    by (auto simp: validate_def Let_def split: prod.splits if_splits)
  moreover from invalid(1) have "\<not> valid_config c" by (simp add: validate_correct [symmetric])
  ultimately show ?thesis by blast
next
  case (valid s)
  then show ?thesis by blast
qed

text \<open>
  C4. Consumer routing: a compiled snapshot routes a consumer's slot to the provider the
  configuration selects: the direct route when there is one, otherwise the provider the
  consumer's bound group lists for the slot, and nothing when neither exists.
\<close>

theorem lookup_consumer_selects:
  assumes "compile digest c = Some (Inr s)" and "maps_wf c"
  shows "lookup_consumer s consumer slot = Some t \<longleftrightarrow>
     (\<exists>p. p \<in> set (spec_providers (config_spec c)) \<and>
        selects (config_spec c) consumer slot (provider_id p) \<and> t = provider_target p)"
proof -
  from assms(1) have v: "valid_config c"
    and s: "cs_consumer_routes s = insert_entries
      (group_entries (config_spec c) @ direct_entries (config_spec c)) bt_empty"
    by (auto simp: compile_Inr_iff)
  have "lookup_consumer s consumer slot = Some t \<longleftrightarrow>
      (\<exists>pid. selects (config_spec c) consumer slot pid \<and> t = resolved (config_spec c) pid)"
    unfolding lookup_consumer_def s by (rule consumer_table_get [OF v assms(2)])
  also have "\<dots> \<longleftrightarrow> (\<exists>p. p \<in> set (spec_providers (config_spec c)) \<and>
        selects (config_spec c) consumer slot (provider_id p) \<and> t = provider_target p)"
    using selects_target [OF v] resolved_unique [OF v] by metis
  finally show ?thesis .
qed

text \<open>The sample snapshot, with the constant checksum \<open>abc\<close>.\<close>

definition sample_snapshot :: "u64 \<Rightarrow> compiled_snapshot" where
  "sample_snapshot v =
     \<lparr>cs_config = sample_config v, cs_checksum = ''abc'',
      cs_consumer_routes =
        [((''ui-1'', ''backend''), provider_target (sample_provider ''backend-1/http'' Http 9001)),
         ((''ui-1'', ''db''), provider_target (sample_provider ''db-feature'' Tcp 6002))],
      cs_browser_routes =
        [((''web'', KeyHeader ''feature:a''), provider_target (sample_provider ''ui-1/http'' Http 9002)),
         ((''web'', KeyOrigin ''http://app.localhost:8080''),
            provider_target (sample_provider ''backend-1/http'' Http 9001))]\<rparr>"

lemma sample_compiles:
  "compile (\<lambda>_. ''abc'') (sample_config 1) = Some (Inr (sample_snapshot 1))"
  "compile (\<lambda>_. ''abc'') (sample_config 2) = Some (Inr (sample_snapshot 2))"
  by code_simp+

lemma sample_maps_wf: "maps_wf (sample_config 1)"
  by code_simp

theorem lookup_consumer_selects_witness:
  "lookup_consumer (sample_snapshot 1) ''ui-1'' ''db'' =
     Some (provider_target (sample_provider ''db-feature'' Tcp 6002)) \<and>
   (\<exists>p. p \<in> set (spec_providers (config_spec (sample_config 1))) \<and>
      selects (config_spec (sample_config 1)) ''ui-1'' ''db'' (provider_id p) \<and>
      provider_target (sample_provider ''db-feature'' Tcp 6002) = provider_target p)"
proof -
  have "lookup_consumer (sample_snapshot 1) ''ui-1'' ''db'' =
     Some (provider_target (sample_provider ''db-feature'' Tcp 6002))"
    by (simp add: lookup_consumer_def sample_snapshot_def)
  then show ?thesis
    using lookup_consumer_selects [OF sample_compiles(1) sample_maps_wf] by blast
qed

text \<open>
  C5. Browser routing is fail-closed with a fixed precedence: the explicit header decides when
  present, then the Origin, then the proxy listener; an identity that is not configured for
  the destination is unknown even if a lower one is known; a known Origin naming another
  provider than the header is a conflict; with no identity the lookup fails.
\<close>

theorem lookup_browser_fails_closed:
  assumes "compile digest c = Some (Inr s)"
  shows "browser_lookup_spec (config_spec c) l (lookup_browser s l)"
  using assms by (intro lookup_browser_valid) (auto simp: compile_Inr_iff)

theorem lookup_browser_fails_closed_witness:
  "browser_lookup_spec (config_spec (sample_config 1))
     \<lparr>lookup_destination = ''web'', lookup_explicit_header = Some ''feature:a'',
      lookup_origin = Some ''http://app.localhost:8080'', lookup_proxy_listener = None\<rparr>
     (Inl ConflictingIdentity)"
proof -
  let ?l = "\<lparr>lookup_destination = ''web'', lookup_explicit_header = Some ''feature:a'',
      lookup_origin = Some ''http://app.localhost:8080'', lookup_proxy_listener = None\<rparr>"
  have "lookup_browser (sample_snapshot 1) ?l = Inl ConflictingIdentity" by code_simp
  then show ?thesis
    using lookup_browser_fails_closed [OF sample_compiles(1), of ?l] by (simp only:)
qed

text \<open>
  C6. No browser route shadows another: the validator keys routes by a printed identity and
  the compiler by a structured one, and the two agree, so every configured browser route has
  its own entry in the compiled table.
\<close>

theorem browser_routes_all_compiled:
  assumes "compile digest c = Some (Inr s)"
  shows "browser_route_count s = length (spec_browser_routes (config_spec c))"
proof -
  from assms have v: "valid_config c"
    and s: "cs_browser_routes s = insert_entries (browser_entries (config_spec c)) bt_empty"
    by (auto simp: compile_Inr_iff)
  show ?thesis
    unfolding browser_route_count_def s
    using length_insert_all_distinct [OF distinct_browser_entries [OF v] bt.inv_empty]
    by (simp add: browser_entries_def)
qed

theorem browser_routes_all_compiled_witness:
  "browser_route_count (sample_snapshot 1) = 2"
  using browser_routes_all_compiled [OF sample_compiles(1)]
  by (simp add: sample_config_def sample_spec_def)

definition activated :: "(apply_error + apply_ack) \<Rightarrow> bool" where
  "activated r = (case r of Inl _ \<Rightarrow> False | Inr ack \<Rightarrow> ack_status ack = Activated)"

text \<open>
  C7. \<open>RouteEngine::apply\<close> always returns; it keeps the engine's invariant, changes the
  engine exactly when it answers \<open>Activated\<close>, and then the new snapshot carries the applied
  configuration, its version is strictly newer and the replaced snapshot becomes the previous
  one. Invalid and stale configurations leave the engine as it was.
\<close>

theorem engine_apply_atomic:
  assumes "engine_inv digest e"
  shows "\<exists>r e'. engine_apply digest c e = Some (r, e') \<and> engine_inv digest e' \<and>
     (if activated r
      then valid_config c \<and> cs_config (eng_current e') = c \<and>
           eng_previous e' = Some (eng_current e) \<and>
           version (eng_current e) < version (eng_current e')
      else e' = e)"
proof (cases rule: compile_cases [of c digest])
  case (invalid es)
  then show ?thesis using assms by (simp add: engine_apply_def activated_def)
next
  case (valid s)
  have "engine_inv digest (snd (engine_commit s e))"
    by (rule engine_commit_inv [OF assms compile_sound [OF valid(2)]])
  with valid assms show ?thesis
    by (auto simp: engine_apply_def engine_commit_def activated_def engine_inv_def Let_def
        split: if_splits)
qed

definition sample_engine :: route_engine where
  "sample_engine = \<lparr>eng_current = sample_snapshot 1, eng_previous = None, eng_poisoned = False\<rparr>"

lemma sample_engine_new: "engine_new (\<lambda>_. ''abc'') (sample_config 1) = Some (Inr sample_engine)"
  by (simp add: engine_new_def sample_compiles sample_engine_def)

theorem engine_apply_atomic_witness:
  "engine_inv (\<lambda>_. ''abc'') sample_engine \<and>
   (\<exists>r e'. engine_apply (\<lambda>_. ''abc'') (sample_config 2) sample_engine = Some (r, e') \<and>
      engine_inv (\<lambda>_. ''abc'') e' \<and>
      (if activated r
       then valid_config (sample_config 2) \<and> cs_config (eng_current e') = sample_config 2 \<and>
            eng_previous e' = Some (eng_current sample_engine) \<and>
            version (eng_current sample_engine) < version (eng_current e')
       else e' = sample_engine))"
proof -
  have inv: "engine_inv (\<lambda>_. ''abc'') sample_engine"
    by (rule engine_new_inv [OF sample_engine_new])
  then show ?thesis using engine_apply_atomic [OF inv, of "sample_config 2"] by blast
qed

text \<open>
  C8. Concurrent appliers: in every state reachable by interleaved compilations and commits
  the active snapshot is the compilation of a valid configuration and newer than the previous
  one, and a step either leaves the engine alone or strictly raises the active version.
\<close>

theorem engine_interleaving_safe:
  assumes "engine_reachable digest c S" and "engine_step digest S S'"
  shows "engine_inv digest (sys_engine S) \<and>
     (sys_engine S' = sys_engine S \<or>
      version (eng_current (sys_engine S)) < version (eng_current (sys_engine S')))"
proof -
  have inv: "system_inv digest S" by (rule engine_reachable_inv [OF assms(1)])
  moreover from assms(2) have "sys_engine S' = sys_engine S \<or>
      version (eng_current (sys_engine S)) < version (eng_current (sys_engine S'))"
    by (elim engine_stepE) (auto simp: engine_commit_def Let_def)
  ultimately show ?thesis by (simp add: system_inv_def)
qed

theorem engine_interleaving_safe_witness:
  "\<exists>S S'. engine_reachable (\<lambda>_. ''abc'') (sample_config 1) S \<and>
     engine_step (\<lambda>_. ''abc'') S S' \<and> engine_inv (\<lambda>_. ''abc'') (sys_engine S) \<and>
     (sys_engine S' = sys_engine S \<or>
      version (eng_current (sys_engine S)) < version (eng_current (sys_engine S')))"
proof -
  let ?S = "\<lparr>sys_engine = sample_engine, sys_pending = (\<lambda>_. None)\<rparr>"
  let ?S1 = "?S\<lparr>sys_pending := (sys_pending ?S)(0 := Some (sample_snapshot 2))\<rparr>"
  have r: "engine_reachable (\<lambda>_. ''abc'') (sample_config 1) ?S"
    by (rule engine_reachable.start [OF sample_engine_new])
  have "engine_step (\<lambda>_. ''abc'') ?S ?S1"
    by (rule engine_step.compile_candidate [OF _ sample_compiles(2)]) simp
  with r have r1: "engine_reachable (\<lambda>_. ''abc'') (sample_config 1) ?S1"
    by (rule engine_reachable.step)
  have st: "\<exists>S'. engine_step (\<lambda>_. ''abc'') ?S1 S'"
    by (rule exI, rule engine_step.commit_candidate [where t = 0]) simp
  then obtain S' where "engine_step (\<lambda>_. ''abc'') ?S1 S'" ..
  with engine_interleaving_safe [OF r1 this] r1 show ?thesis by blast
qed

text \<open>
  The outcome of any number of commits is the newest candidate: whatever the order in
  which candidates are committed, the active version ends as the maximum of the initial
  version and all candidates.
\<close>

theorem engine_commits_newest:
  assumes "\<not> eng_poisoned e"
  shows "version (eng_current (fold (\<lambda>s e. snd (engine_commit s e)) ss e)) =
     Max (set (version (eng_current e) # map version ss))"
  using assms by (rule engine.commits_version)

theorem engine_commits_newest_witness:
  "version (eng_current (fold (\<lambda>s e. snd (engine_commit s e))
     [sample_snapshot 7, sample_snapshot 3] sample_engine)) = Max (set [1, 7, 3])"
proof -
  have "\<not> eng_poisoned sample_engine" by (simp add: sample_engine_def)
  from engine_commits_newest [OF this, of "[sample_snapshot 7, sample_snapshot 3]"]
  show ?thesis
    by (simp add: sample_engine_def sample_snapshot_def version_def sample_config_def sample_spec_def)
qed

end
