(* ===== verification/HttpPlane.thy ===== *)
theory HttpPlane
  imports RouterCore
begin

text \<open>
  The HTTP-family data plane of \<open>crates/router-pingora/src/lib.rs\<close>: proxy credentials,
  telemetry, the construction checks of \<open>HttpDataPlane::new\<close>, health probes, and the
  filters of \<open>ApmprProxy\<close> (\<open>request_filter\<close>, \<open>upstream_request_filter\<close>,
  \<open>response_filter\<close>, \<open>request_body_filter\<close>, \<open>fail_to_proxy\<close>, \<open>logging\<close>) that Pingora
  calls for each request.

  Third-party code is a parameter. The header maps of Pingora are a type \<open>'h\<close> with the
  operations of \<open>header_api\<close>, whose documented behaviour is \<open>header_laws\<close>; an insertion
  of an invalid value fails (\<open>None\<close>). \<open>serde_json\<close>, Base64 and \<open>subtle\<close> are the functions
  \<open>json\<close>, \<open>base64_encode\<close> and \<open>ct_eq\<close>. The file system and the network are described by
  the answers they give during a call. The atomic counters are the record \<open>telemetry\<close>,
  passed through the filters; durations are milliseconds.
\<close>

section \<open>Parameters: headers, file system, network\<close>

record 'h header_api =
  api_get :: "string \<Rightarrow> 'h \<Rightarrow> string option"
  api_get_all :: "string \<Rightarrow> 'h \<Rightarrow> string list"
  api_iter :: "'h \<Rightarrow> (string \<times> string) list"
  api_remove :: "string \<Rightarrow> 'h \<Rightarrow> 'h"
  api_insert :: "string \<Rightarrow> string \<Rightarrow> 'h \<Rightarrow> 'h option"
  api_append :: "string \<Rightarrow> string \<Rightarrow> 'h \<Rightarrow> 'h option"
  api_empty :: 'h
  api_to_str :: "string \<Rightarrow> string option"

text \<open>
  The documented behaviour of the header map: names are compared without case, \<open>get\<close> is
  the first value, \<open>insert\<close> replaces, \<open>append\<close> adds, \<open>remove\<close> deletes every value, and
  \<open>to_str\<close> returns the value it is given or fails, and does not fail on visible ASCII.
\<close>

definition header_laws :: "'h header_api \<Rightarrow> bool" where
  "header_laws api \<longleftrightarrow>
     (\<forall>n h. api_get api n h = (case api_get_all api n h of [] \<Rightarrow> None | v # _ \<Rightarrow> Some v)) \<and>
     (\<forall>n. api_get_all api n (api_empty api) = []) \<and>
     (\<forall>n m h. api_get_all api m (api_remove api n h) =
        (if eq_ignore_ascii_case m n then [] else api_get_all api m h)) \<and>
     (\<forall>n m v h h'. api_insert api n v h = Some h' \<longrightarrow>
        api_get_all api m h' = (if eq_ignore_ascii_case m n then [v] else api_get_all api m h)) \<and>
     (\<forall>n m v h h'. api_append api n v h = Some h' \<longrightarrow>
        api_get_all api m h' =
          api_get_all api m h @ (if eq_ignore_ascii_case m n then [v] else [])) \<and>
     (\<forall>v s. api_to_str api v = Some s \<longrightarrow> s = v) \<and>
     (\<forall>v. (\<forall>c\<in>set v. 32 \<le> byte c \<and> byte c < 127) \<longrightarrow> api_to_str api v = Some v)"

record 'h request_header =
  req_method :: string
  req_uri :: string
  req_headers :: 'h

definition header_text :: "'h header_api \<Rightarrow> 'h request_header \<Rightarrow> string \<Rightarrow> string option" where
  "header_text api req name =
     (case api_get api name (req_headers req) of None \<Rightarrow> None | Some v \<Rightarrow> api_to_str api v)"

definition header_count :: "'h header_api \<Rightarrow> 'h request_header \<Rightarrow> string \<Rightarrow> nat" where
  "header_count api req name = length (api_get_all api name (req_headers req))"

definition request_header_bytes :: "'h header_api \<Rightarrow> 'h request_header \<Rightarrow> nat" where
  "request_header_bytes api req =
     length (req_method req) + length (req_uri req)
     + sum_list (map (\<lambda>(name, value). length name + length value + 4) (api_iter api (req_headers req)))"

section \<open>Proxy credentials\<close>

datatype build_error_code =
    UnsupportedListener | MissingDestination | InvalidTlsIdentity
  | InvalidProxyAuthentication | ServerInitialization

record build_error =
  build_code :: build_error_code
  build_message :: string

definition MAX_PROXY_CREDENTIAL_BYTES :: nat where
  "MAX_PROXY_CREDENTIAL_BYTES = 256"

record file_metadata =
  md_is_file :: bool
  md_len :: nat
  md_mode :: u32

record file_system =
  fs_symlink_metadata :: "string \<Rightarrow> string + file_metadata"
  fs_read :: "string \<Rightarrow> string + string"

definition credential_error :: "string \<Rightarrow> build_error" where
  "credential_error message = \<lparr>build_code = InvalidProxyAuthentication, build_message = message\<rparr>"

text \<open>The newline a credential file may end with.\<close>

definition strip_newline :: "string \<Rightarrow> string" where
  "strip_newline token =
     (if token \<noteq> [] \<and> last token = CHR 0x0A
      then (let t = butlast token in if t \<noteq> [] \<and> last t = CHR 0x0D then butlast t else t)
      else token)"

definition load_proxy_credential ::
  "(string \<Rightarrow> string) \<Rightarrow> file_system \<Rightarrow> proxy_authentication_cfg \<Rightarrow> build_error + string" where
  "load_proxy_credential base64_encode fs auth =
     (let path = credential_file auth
      in case fs_symlink_metadata fs path of
           Inl e \<Rightarrow> Inl (credential_error
             (''could not inspect proxy credential file '' @ path @ '': '' @ e))
         | Inr md \<Rightarrow>
             if \<not> md_is_file md \<or> md_len md = 0 \<or> md_len md > MAX_PROXY_CREDENTIAL_BYTES
             then Inl (credential_error ''proxy credential must be a regular file of 1 to 256 bytes'')
             else if and (md_mode md) 511 \<noteq> 384
             then Inl (credential_error ''proxy credential file must have mode 0600'')
             else case fs_read fs path of
                    Inl e \<Rightarrow> Inl (credential_error
                      (''could not read proxy credential file '' @ path @ '': '' @ e))
                  | Inr content \<Rightarrow>
                      (let token = take (MAX_PROXY_CREDENTIAL_BYTES + 1) content
                       in if length token > MAX_PROXY_CREDENTIAL_BYTES
                          then Inl (credential_error
                            ''proxy credential must be a regular file of 1 to 256 bytes'')
                          else let token = strip_newline token
                               in if token = [] \<or> CHR 0x0D \<in> set token \<or> CHR 0x0A \<in> set token
                                  then Inl (credential_error
                                    ''proxy credential file must contain one non-empty token'')
                                  else Inr (''Basic '' @ base64_encode (''apmpr:'' @ token))))"

section \<open>Telemetry\<close>

datatype data_plane_event =
    Routing component_id u64
  | Rejection nat string
  | Access "component_id option" bool

record telemetry =
  tel_requests :: u64
  tel_errors :: u64
  tel_active :: u64
  tel_capacity :: nat
  tel_events :: "data_plane_event list"

definition telemetry_new :: "nat \<Rightarrow> telemetry" where
  "telemetry_new capacity =
     \<lparr>tel_requests = 0, tel_errors = 0, tel_active = 0, tel_capacity = capacity, tel_events = []\<rparr>"

definition request_started :: "telemetry \<Rightarrow> telemetry" where
  "request_started t = t\<lparr>tel_requests := tel_requests t + 1, tel_active := tel_active t + 1\<rparr>"

definition request_finished :: "telemetry \<Rightarrow> telemetry" where
  "request_finished t = t\<lparr>tel_active := tel_active t - 1\<rparr>"

definition count_error :: "telemetry \<Rightarrow> telemetry" where
  "count_error t = t\<lparr>tel_errors := tel_errors t + 1\<rparr>"

definition record_event :: "data_plane_event \<Rightarrow> telemetry \<Rightarrow> telemetry" where
  "record_event e t =
     (if tel_capacity t = 0 then t
      else t\<lparr>tel_events := push_bounded (tel_capacity t) e (tel_events t)\<rparr>)"

section \<open>Construction\<close>

record proxy_options =
  opt_connect_timeout :: nat
  opt_total_connect_timeout :: nat
  opt_max_request_header_bytes :: nat
  opt_max_request_body_bytes :: nat

definition default_proxy_options :: proxy_options where
  "default_proxy_options =
     \<lparr>opt_connect_timeout = 3000, opt_total_connect_timeout = 5000,
      opt_max_request_header_bytes = 64 * 1024, opt_max_request_body_bytes = 16 * 1024 * 1024\<rparr>"

text \<open>One iteration of the loop of \<open>HttpDataPlane::new\<close>; \<open>bind_text\<close> prints the address.\<close>

definition check_listener ::
  "(socket_address \<Rightarrow> string) \<Rightarrow> (string \<Rightarrow> string) \<Rightarrow> file_system \<Rightarrow> listener
     \<Rightarrow> build_error + string option" where
  "check_listener bind_text base64_encode fs l =
     (if listener_protocol l = Tcp
      then Inl \<lparr>build_code = UnsupportedListener,
             build_message = bind_text (listener_bind l) @ '' is not an HTTP-family listener''\<rparr>
      else if listener_destinations l = []
      then Inl \<lparr>build_code = MissingDestination,
             build_message = bind_text (listener_bind l) @ '' has no destinations''\<rparr>
      else if (listener_protocol l = Https) \<noteq> (listener_tls l \<noteq> None)
      then Inl \<lparr>build_code = UnsupportedListener,
             build_message = ''HTTPS listeners require a TLS identity and non-HTTPS listeners must not declare one''\<rparr>
      else case proxy_authentication l of
             None \<Rightarrow> Inr None
           | Some auth \<Rightarrow>
               (case load_proxy_credential base64_encode fs auth of
                  Inl e \<Rightarrow> Inl e
                | Inr credential \<Rightarrow> Inr (Some credential)))"

record http_data_plane =
  dp_listeners :: "listener list"
  dp_credentials :: "string option list"
  dp_identity :: identity_policy
  dp_options :: proxy_options
  dp_telemetry :: telemetry

fun check_listeners ::
  "(socket_address \<Rightarrow> string) \<Rightarrow> (string \<Rightarrow> string) \<Rightarrow> file_system \<Rightarrow> listener list
     \<Rightarrow> build_error + string option list" where
  "check_listeners bind_text base64_encode fs [] = Inr []"
| "check_listeners bind_text base64_encode fs (l # ls) =
     (case check_listener bind_text base64_encode fs l of
        Inl e \<Rightarrow> Inl e
      | Inr c \<Rightarrow>
          (case check_listeners bind_text base64_encode fs ls of
             Inl e \<Rightarrow> Inl e
           | Inr cs \<Rightarrow> Inr (c # cs)))"

definition data_plane_new ::
  "(socket_address \<Rightarrow> string) \<Rightarrow> (string \<Rightarrow> string) \<Rightarrow> file_system \<Rightarrow> listener list
     \<Rightarrow> identity_policy \<Rightarrow> proxy_options \<Rightarrow> build_error + http_data_plane" where
  "data_plane_new bind_text base64_encode fs listeners ident options =
     (case check_listeners bind_text base64_encode fs listeners of
        Inl e \<Rightarrow> Inl e
      | Inr credentials \<Rightarrow>
          Inr \<lparr>dp_listeners = listeners, dp_credentials = credentials, dp_identity = ident,
               dp_options = options, dp_telemetry = telemetry_new 256\<rparr>)"

section \<open>Health probes\<close>

datatype 'a timed = TimedOut | Finished 'a

record network =
  net_lookup_host :: "string \<Rightarrow> u16 \<Rightarrow> nat \<Rightarrow> (string + socket_address list) timed"
  net_connect :: "socket_address \<Rightarrow> nat \<Rightarrow> (string + unit) timed"
  net_http_get :: "socket_address \<Rightarrow> bool \<Rightarrow> string \<Rightarrow> string \<Rightarrow> nat \<Rightarrow> (string + nat option) timed"
  net_task_failed :: "upstream_endpoint \<Rightarrow> health_check \<Rightarrow> string option"

definition resolve_endpoint :: "network \<Rightarrow> upstream_endpoint \<Rightarrow> nat \<Rightarrow> string + socket_address" where
  "resolve_endpoint net endpoint timeout =
     (case net_lookup_host net (endpoint_host endpoint) (endpoint_port endpoint) timeout of
        TimedOut \<Rightarrow> Inl ''upstream DNS resolution timed out''
      | Finished (Inl e) \<Rightarrow> Inl (''upstream DNS resolution failed: '' @ e)
      | Finished (Inr []) \<Rightarrow> Inl ''upstream DNS resolution returned no addresses''
      | Finished (Inr (a # _)) \<Rightarrow> Inr a)"

definition probe_endpoint :: "network \<Rightarrow> upstream_endpoint \<Rightarrow> health_check \<Rightarrow> string + unit" where
  "probe_endpoint net endpoint check =
     (let timeout = unat (check_timeout_ms check)
      in case resolve_endpoint net endpoint timeout of
           Inl e \<Rightarrow> Inl e
         | Inr address \<Rightarrow>
             if check_protocol check = HealthTcp
             then (case net_connect net address timeout of
                     TimedOut \<Rightarrow> Inl ''health check timed out''
                   | Finished r \<Rightarrow> r)
             else (case net_http_get net address (check_protocol check = HealthHttps)
                          (endpoint_host endpoint)
                          (case check_path check of None \<Rightarrow> ''/'' | Some path \<Rightarrow> path) timeout of
                     TimedOut \<Rightarrow> Inl ''health check timed out''
                   | Finished (Inl e) \<Rightarrow> Inl e
                   | Finished (Inr None) \<Rightarrow> Inl ''health check returned no response''
                   | Finished (Inr (Some status)) \<Rightarrow>
                       if 200 \<le> status \<and> status < 300 then Inr ()
                       else Inl (''health check returned HTTP '' @ nat_to_string status)))"

definition probe_safely :: "network \<Rightarrow> upstream_endpoint \<Rightarrow> health_check \<Rightarrow> string + unit" where
  "probe_safely net endpoint check =
     (case net_task_failed net endpoint check of
        None \<Rightarrow> probe_endpoint net endpoint check
      | Some e \<Rightarrow> Inl (''health check task failed without affecting the router: '' @ e))"

text \<open>\<open>readiness\<close> probes one target after the other; \<open>nets i\<close> is the network at the \<open>i\<close>-th probe.\<close>

fun readiness ::
  "(nat \<Rightarrow> network) \<Rightarrow> nat \<Rightarrow> (component_id \<times> upstream_endpoint \<times> health_check option) list
     \<Rightarrow> (component_id, string + unit) btree \<Rightarrow> (component_id, string + unit) btree" where
  "readiness nets i [] result = result"
| "readiness nets i ((pid, endpoint, check) # targets) result =
     readiness nets (Suc i) targets
       (bt_insert pid
         (case check of None \<Rightarrow> Inr () | Some c \<Rightarrow> probe_safely (nets i) endpoint c) result)"

section \<open>Responses\<close>

record error_body =
  eb_code :: string
  eb_message :: string
  eb_candidates :: "browser_route_candidate list option"

record 'h response =
  resp_status :: nat
  resp_headers :: 'h
  resp_body :: string

text \<open>A chain of header insertions, each of which may fail.\<close>

fun insert_headers :: "'h header_api \<Rightarrow> (string \<times> string) list \<Rightarrow> 'h \<Rightarrow> 'h option" where
  "insert_headers api [] h = Some h"
| "insert_headers api ((name, value) # rest) h =
     (case api_insert api name value h of None \<Rightarrow> None | Some h' \<Rightarrow> insert_headers api rest h')"

definition respond_proxy_authentication_required ::
  "'h header_api \<Rightarrow> (error_body \<Rightarrow> string) \<Rightarrow> 'h response option" where
  "respond_proxy_authentication_required api json =
     (let body = json \<lparr>eb_code = ''proxy_authentication_required'',
            eb_message = ''valid managed-profile proxy credentials are required'',
            eb_candidates = None\<rparr>
      in map_option (\<lambda>h. \<lparr>resp_status = 407, resp_headers = h, resp_body = body\<rparr>)
           (insert_headers api
              [(''content-type'', ''application/json''),
               (''content-length'', nat_to_string (length body)),
               (''proxy-authenticate'', ''Basic realm=\"apmpr\"'')] (api_empty api)))"

definition respond_error_json ::
  "'h header_api \<Rightarrow> (error_body \<Rightarrow> string) \<Rightarrow> nat \<Rightarrow> error_body \<Rightarrow> string option
     \<Rightarrow> 'h response option" where
  "respond_error_json api json status body_value allowed_origin =
     (let body = json body_value
      in map_option (\<lambda>h. \<lparr>resp_status = status, resp_headers = h, resp_body = body\<rparr>)
           (insert_headers api
              ([(''content-type'', ''application/json''),
                (''content-length'', nat_to_string (length body))]
               @ (case allowed_origin of
                    None \<Rightarrow> []
                  | Some origin \<Rightarrow> [(''access-control-allow-origin'', origin), (''vary'', ''Origin'')]))
              (api_empty api)))"

definition respond_json ::
  "'h header_api \<Rightarrow> (error_body \<Rightarrow> string) \<Rightarrow> nat \<Rightarrow> string \<Rightarrow> string \<Rightarrow> string option
     \<Rightarrow> 'h response option" where
  "respond_json api json status code message allowed_origin =
     respond_error_json api json status
       \<lparr>eb_code = code, eb_message = message, eb_candidates = None\<rparr> allowed_origin"

definition respond_route_json ::
  "'h header_api \<Rightarrow> (error_body \<Rightarrow> string) \<Rightarrow> nat \<Rightarrow> string \<Rightarrow> string
     \<Rightarrow> browser_route_candidate list \<Rightarrow> string option \<Rightarrow> 'h response option" where
  "respond_route_json api json status code message cands allowed_origin =
     respond_error_json api json status
       \<lparr>eb_code = code, eb_message = message, eb_candidates = Some cands\<rparr> allowed_origin"

section \<open>CORS\<close>

definition is_http_token :: "string \<Rightarrow> bool" where
  "is_http_token value \<longleftrightarrow>
     value \<noteq> [] \<and>
     (\<forall>b\<in>set value. is_ascii_alphanumeric b \<or> b \<in> set ''!#$%&'' \<or> b = CHR 0x27 \<or>
        b \<in> set ''*+-.^_'' \<or> b = CHR 0x60 \<or> b \<in> set ''|~'')"

definition is_cors_preflight :: "'h header_api \<Rightarrow> 'h request_header \<Rightarrow> bool" where
  "is_cors_preflight api req \<longleftrightarrow>
     req_method req = ''OPTIONS'' \<and> header_text api req ''origin'' \<noteq> None \<and>
     header_text api req ''access-control-request-method'' \<noteq> None"

record cors_preflight =
  requested_method :: string
  requested_headers :: "string option"
  private_network :: bool

definition valid_requested_headers :: "string \<Rightarrow> bool" where
  "valid_requested_headers value \<longleftrightarrow>
     length value \<le> 1024 \<and> length (split_char CHR '','' value) \<le> 32 \<and>
     (\<forall>name\<in>set (split_char CHR '','' value). is_http_token (str_trim name))"

definition parse_cors_preflight ::
  "'h header_api \<Rightarrow> 'h request_header \<Rightarrow> string + cors_preflight" where
  "parse_cors_preflight api req =
     (if header_count api req ''access-control-request-method'' \<noteq> 1 \<or>
         header_count api req ''access-control-request-headers'' > 1 \<or>
         header_count api req ''access-control-request-private-network'' > 1
      then Inl ''CORS preflight headers must occur at most once''
      else case header_text api req ''access-control-request-method'' of
             None \<Rightarrow> Inl ''CORS preflight method must be a valid HTTP token of at most 32 bytes''
           | Some meth \<Rightarrow>
               if \<not> (length meth \<le> 32 \<and> is_http_token meth)
               then Inl ''CORS preflight method must be a valid HTTP token of at most 32 bytes''
               else let names = header_text api req ''access-control-request-headers''
                    in if names \<noteq> None \<and> \<not> valid_requested_headers (the names)
                       then Inl ''CORS preflight may request at most 32 valid header names in 1024 bytes''
                       else case header_text api req ''access-control-request-private-network'' of
                              None \<Rightarrow> Inr \<lparr>requested_method = meth, requested_headers = names,
                                private_network = False\<rparr>
                            | Some value \<Rightarrow>
                                if eq_ignore_ascii_case value ''true''
                                then Inr \<lparr>requested_method = meth, requested_headers = names,
                                  private_network = True\<rparr>
                                else Inl ''private-network preflight must request the value `true`'')"

definition respond_preflight ::
  "'h header_api \<Rightarrow> string \<Rightarrow> cors_preflight \<Rightarrow> 'h response option" where
  "respond_preflight api origin preflight =
     map_option (\<lambda>h. \<lparr>resp_status = 204, resp_headers = h, resp_body = []\<rparr>)
       (insert_headers api
          ([(''content-length'', ''0''), (''access-control-allow-origin'', origin),
            (''access-control-allow-methods'', requested_method preflight)]
           @ (case requested_headers preflight of
                None \<Rightarrow> []
              | Some names \<Rightarrow> [(''access-control-allow-headers'', names)])
           @ (if private_network preflight
              then [(''access-control-allow-private-network'', ''true'')] else [])
           @ [(''vary'', ''Origin, Access-Control-Request-Method, Access-Control-Request-Headers, Access-Control-Request-Private-Network'')])
          (api_empty api))"

definition cors_response_headers :: "string list" where
  "cors_response_headers =
     [''access-control-allow-origin'', ''access-control-allow-methods'',
      ''access-control-allow-headers'', ''access-control-allow-private-network'',
      ''access-control-allow-credentials'', ''access-control-expose-headers'',
      ''access-control-max-age'']"

definition vary_has_origin :: "'h header_api \<Rightarrow> 'h \<Rightarrow> bool" where
  "vary_has_origin api h \<longleftrightarrow>
     (\<exists>v\<in>set (api_get_all api ''vary'' h). case api_to_str api v of
        None \<Rightarrow> False
      | Some value \<Rightarrow> \<exists>p\<in>set (split_char CHR '','' value). eq_ignore_ascii_case (str_trim p) ''origin'')"

definition apply_cors_response_headers ::
  "'h header_api \<Rightarrow> 'h \<Rightarrow> string option \<Rightarrow> 'h option" where
  "apply_cors_response_headers api h allowed_origin =
     (let h = fold (api_remove api) cors_response_headers h
      in case (case allowed_origin of
                 None \<Rightarrow> Some h
               | Some origin \<Rightarrow> api_insert api ''access-control-allow-origin'' origin h) of
           None \<Rightarrow> None
         | Some h \<Rightarrow> if vary_has_origin api h then Some h else api_append api ''vary'' ''Origin'' h)"

section \<open>The request filter\<close>

definition destination_slot :: "'h header_api \<Rightarrow> listener \<Rightarrow> 'h request_header \<Rightarrow> route_slot_id option" where
  "destination_slot api l req =
     (let host = (case header_text api req ''host'' of
                    None \<Rightarrow> []
                  | Some value \<Rightarrow> hd (split_char CHR '':'' value))
      in map_option destination_slot_id
           (find (\<lambda>d. case d of
                CustomDomain _ domain \<Rightarrow> eq_ignore_ascii_case domain host
              | LegacyLocalhost _ expected \<Rightarrow> eq_ignore_ascii_case expected host
              | Loopback _ \<Rightarrow> length (listener_destinations l) = 1
              | ProxyTarget _ expected _ \<Rightarrow> eq_ignore_ascii_case expected host)
            (listener_destinations l)))"

record proxy_rejection =
  rej_status :: nat
  rej_code :: string
  rej_message :: string

record request_context =
  ctx_snapshot :: "compiled_snapshot option"
  ctx_target :: "route_target option"
  ctx_upstream_address :: "socket_address option"
  ctx_cors_origin :: "string option"
  ctx_browser_routed :: bool
  ctx_body_bytes :: nat
  ctx_rejection :: "proxy_rejection option"
  ctx_started :: bool
  ctx_error_counted :: bool

definition new_ctx :: request_context where
  "new_ctx =
     \<lparr>ctx_snapshot = None, ctx_target = None, ctx_upstream_address = None, ctx_cors_origin = None,
      ctx_browser_routed = False, ctx_body_bytes = 0, ctx_rejection = None, ctx_started = False,
      ctx_error_counted = False\<rparr>"

record apmpr_proxy =
  ap_listener :: listener
  ap_credential :: "string option"
  ap_identity :: identity_policy
  ap_options :: proxy_options

text \<open>What a filter leaves: \<open>Handled\<close> is \<open>Ok(true)\<close>, \<open>Forward\<close> is \<open>Ok(false)\<close>.\<close>

datatype filter_result = FilterError | Handled | Forward

record 'h outcome =
  out_telemetry :: telemetry
  out_ctx :: request_context
  out_response :: "'h response option"
  out_result :: filter_result

text \<open>The session of a request: third-party functions, and the network while it is served.\<close>

record 'h session =
  ss_api :: "'h header_api"
  ss_json :: "error_body \<Rightarrow> string"
  ss_ct_eq :: "string \<Rightarrow> string \<Rightarrow> bool"
  ss_net :: network
  ss_write_ok :: bool
  ss_client :: "ip_addr option"

definition send ::
  "'h session \<Rightarrow> telemetry \<Rightarrow> request_context \<Rightarrow> 'h response option \<Rightarrow> 'h outcome" where
  "send ss tel ctx r =
     (if r \<noteq> None \<and> ss_write_ok ss
      then \<lparr>out_telemetry = tel, out_ctx = ctx, out_response = r, out_result = Handled\<rparr>
      else \<lparr>out_telemetry = tel, out_ctx = ctx, out_response = None, out_result = FilterError\<rparr>)"

definition reject_proxy_authentication ::
  "'h session \<Rightarrow> telemetry \<Rightarrow> request_context \<Rightarrow> 'h outcome" where
  "reject_proxy_authentication ss tel ctx =
     send ss (record_event (Rejection 407 ''proxy_authentication_required'') (count_error tel))
       (ctx\<lparr>ctx_error_counted := True\<rparr>)
       (respond_proxy_authentication_required (ss_api ss) (ss_json ss))"

definition reject ::
  "'h session \<Rightarrow> telemetry \<Rightarrow> request_context \<Rightarrow> nat \<Rightarrow> string \<Rightarrow> string \<Rightarrow> 'h outcome" where
  "reject ss tel ctx status code message =
     send ss (record_event (Rejection status code) (count_error tel))
       (ctx\<lparr>ctx_error_counted := True\<rparr>)
       (respond_json (ss_api ss) (ss_json ss) status code message (ctx_cors_origin ctx))"

definition reject_browser_route ::
  "'h session \<Rightarrow> telemetry \<Rightarrow> request_context \<Rightarrow> nat \<Rightarrow> string \<Rightarrow> string
     \<Rightarrow> browser_route_candidate list \<Rightarrow> 'h outcome" where
  "reject_browser_route ss tel ctx status code message cands =
     send ss (record_event (Rejection status code) (count_error tel))
       (ctx\<lparr>ctx_error_counted := True\<rparr>)
       (respond_route_json (ss_api ss) (ss_json ss) status code message cands (ctx_cors_origin ctx))"

fun lookup_error_text :: "lookup_error \<Rightarrow> string" where
  "lookup_error_text MissingIdentity = ''request has no usable routing identity''"
| "lookup_error_text UnknownIdentity = ''request routing identity is unknown''"
| "lookup_error_text ConflictingIdentity = ''request header and Origin select different routes''"

text \<open>The two ways a listener selects a target; a refusal is answered with the candidates.\<close>

datatype selection = Refuse nat string string | Select "route_target option"

definition select_for_consumer ::
  "'h header_api \<Rightarrow> apmpr_proxy \<Rightarrow> compiled_snapshot \<Rightarrow> route_slot_id \<Rightarrow> instance_id
     \<Rightarrow> 'h request_header \<Rightarrow> request_context \<Rightarrow> request_context \<times> selection" where
  "select_for_consumer api p s slot consumer req ctx =
     (let name = explicit_header_name (ap_identity p);
          explicit_count = header_count api req name
      in if explicit_count > 0 \<and> browser_candidates s slot \<noteq> []
         then if explicit_count > 1
              then (ctx, Refuse 400 ''conflicting_route_identity''
                     ''routing identity headers must occur at most once'')
              else case header_text api req name of
                     None \<Rightarrow> (ctx, Refuse 400 ''invalid_route_identity''
                       ''the routing identity header must contain valid visible text'')
                   | Some explicit \<Rightarrow>
                       if \<not> is_loopback (sa_host (listener_bind (ap_listener p)))
                       then (ctx, Refuse 403 ''untrusted_identity_header''
                              ''the explicit route header is accepted only on loopback listeners'')
                       else (case lookup_browser s \<lparr>lookup_destination = slot,
                                    lookup_explicit_header = Some explicit, lookup_origin = None,
                                    lookup_proxy_listener = None\<rparr> of
                               Inr t \<Rightarrow> (ctx\<lparr>ctx_browser_routed := True\<rparr>, Select (Some t))
                             | Inl e \<Rightarrow> (ctx, Refuse 403 ''unknown_route_identity'' (lookup_error_text e)))
         else (ctx, Select (lookup_consumer s consumer slot)))"

definition lookup_status :: "lookup_error \<Rightarrow> string option \<Rightarrow> string option \<Rightarrow> nat \<times> string" where
  "lookup_status e explicit origin =
     (case e of
        MissingIdentity \<Rightarrow> (400, ''missing_route_identity'')
      | UnknownIdentity \<Rightarrow>
          if explicit \<noteq> None then (403, ''unknown_route_identity'')
          else if origin \<noteq> None then (403, ''disallowed_origin'')
          else (403, ''unknown_route_identity'')
      | ConflictingIdentity \<Rightarrow> (400, ''conflicting_route_identity''))"

definition allowed_origin ::
  "compiled_snapshot \<Rightarrow> route_slot_id \<Rightarrow> string option \<Rightarrow> string option" where
  "allowed_origin s slot origin =
     (case origin of
        None \<Rightarrow> None
      | Some o' \<Rightarrow>
          (case lookup_browser s \<lparr>lookup_destination = slot, lookup_explicit_header = None,
                  lookup_origin = Some o', lookup_proxy_listener = None\<rparr> of
             Inl _ \<Rightarrow> None
           | Inr _ \<Rightarrow> Some o'))"

definition select_for_browser ::
  "'h header_api \<Rightarrow> apmpr_proxy \<Rightarrow> compiled_snapshot \<Rightarrow> route_slot_id
     \<Rightarrow> 'h request_header \<Rightarrow> request_context \<Rightarrow> request_context \<times> selection" where
  "select_for_browser api p s slot req ctx =
     (let name = explicit_header_name (ap_identity p); ctx = ctx\<lparr>ctx_browser_routed := True\<rparr>
      in if header_count api req name > 1 \<or> header_count api req ''origin'' > 1
         then (ctx, Refuse 400 ''conflicting_route_identity''
                ''routing identity headers must occur at most once'')
         else let explicit = header_text api req name;
                  origin = header_text api req ''origin'';
                  ctx = ctx\<lparr>ctx_cors_origin := allowed_origin s slot origin\<rparr>
              in if explicit \<noteq> None \<and> \<not> is_loopback (sa_host (listener_bind (ap_listener p)))
                 then (ctx, Refuse 403 ''untrusted_identity_header''
                        ''the explicit route header is accepted only on loopback listeners'')
                 else (case lookup_browser s \<lparr>lookup_destination = slot,
                              lookup_explicit_header = explicit, lookup_origin = origin,
                              lookup_proxy_listener = proxy_identity (ap_listener p)\<rparr> of
                         Inr t \<Rightarrow> (ctx, Select (Some t))
                       | Inl e \<Rightarrow>
                           (let (status, code) = lookup_status e explicit origin
                            in (ctx, Refuse status code (lookup_error_text e)))))"

definition select_target ::
  "'h header_api \<Rightarrow> apmpr_proxy \<Rightarrow> compiled_snapshot \<Rightarrow> route_slot_id
     \<Rightarrow> 'h request_header \<Rightarrow> request_context \<Rightarrow> request_context \<times> selection" where
  "select_target api p s slot req ctx =
     (case listener_consumer (ap_listener p) of
        Some consumer \<Rightarrow> select_for_consumer api p s slot consumer req ctx
      | None \<Rightarrow> select_for_browser api p s slot req ctx)"

text \<open>The rest of the filter once a target is selected: preflight, health, resolution.\<close>

definition dispatch ::
  "'h session \<Rightarrow> apmpr_proxy \<Rightarrow> 'h request_header \<Rightarrow> route_target \<Rightarrow> telemetry
     \<Rightarrow> request_context \<Rightarrow> 'h outcome" where
  "dispatch ss p req t tel ctx =
     (if ctx_browser_routed ctx \<and> is_cors_preflight (ss_api ss) req
      then case ctx_cors_origin ctx of
             None \<Rightarrow> reject ss tel ctx 403 ''disallowed_origin''
               ''CORS preflight Origin is not configured for this destination''
           | Some origin \<Rightarrow>
               (case parse_cors_preflight (ss_api ss) req of
                  Inl message \<Rightarrow> reject ss tel ctx 400 ''invalid_cors_preflight'' message
                | Inr preflight \<Rightarrow> send ss tel ctx (respond_preflight (ss_api ss) origin preflight))
      else case (case target_health_check t of
                   None \<Rightarrow> Inr ()
                 | Some check \<Rightarrow> probe_safely (ss_net ss) (target_endpoint t) check) of
             Inl e \<Rightarrow> reject ss tel ctx 503 ''provider_unhealthy'' e
           | Inr _ \<Rightarrow>
               (case resolve_endpoint (ss_net ss) (target_endpoint t)
                       (opt_connect_timeout (ap_options p)) of
                  Inl e \<Rightarrow> reject ss tel ctx 503 ''provider_unavailable'' e
                | Inr address \<Rightarrow>
                    \<lparr>out_telemetry = tel, out_ctx = ctx\<lparr>ctx_upstream_address := Some address\<rparr>,
                     out_response = None, out_result = Forward\<rparr>))"

definition authorized :: "'h session \<Rightarrow> apmpr_proxy \<Rightarrow> 'h request_header \<Rightarrow> bool" where
  "authorized ss p req \<longleftrightarrow>
     (case ap_credential p of
        None \<Rightarrow> True
      | Some credential \<Rightarrow>
          header_count (ss_api ss) req ''proxy-authorization'' = 1 \<and>
          (case api_get (ss_api ss) ''proxy-authorization'' (req_headers req) of
             None \<Rightarrow> False
           | Some value \<Rightarrow> ss_ct_eq ss value credential))"

definition request_filter ::
  "'h session \<Rightarrow> apmpr_proxy \<Rightarrow> route_engine \<Rightarrow> 'h request_header \<Rightarrow> telemetry
     \<Rightarrow> request_context \<Rightarrow> 'h outcome" where
  "request_filter ss p engine req tel ctx =
     (let tel = request_started tel; ctx = ctx\<lparr>ctx_started := True\<rparr>
      in if request_header_bytes (ss_api ss) req > opt_max_request_header_bytes (ap_options p)
         then reject ss tel ctx 431 ''request_headers_too_large''
                ''request headers exceed the configured limit''
         else if \<not> authorized ss p req then reject_proxy_authentication ss tel ctx
         else case destination_slot (ss_api ss) (ap_listener p) req of
                None \<Rightarrow> reject ss tel ctx 404 ''route_not_found''
                  ''the request does not match a listener destination''
              | Some slot \<Rightarrow>
                  (let s = engine_snapshot engine
                   in case select_target (ss_api ss) p s slot req ctx of
                        (ctx, Refuse status code message) \<Rightarrow>
                          reject_browser_route ss tel ctx status code message (browser_candidates s slot)
                      | (ctx, Select None) \<Rightarrow>
                          reject ss tel ctx 404 ''route_not_found''
                            ''no route is configured for this request''
                      | (ctx, Select (Some t)) \<Rightarrow>
                          dispatch ss p req t (record_event (Routing (target_provider t) (version s)) tel)
                            (ctx\<lparr>ctx_snapshot := Some s, ctx_target := Some t\<rparr>)))"

section \<open>The other filters\<close>

record http_peer =
  peer_address :: socket_address
  peer_tls :: bool
  peer_host :: string
  peer_connection_timeout :: nat
  peer_total_connection_timeout :: nat
  peer_http2_only :: bool

definition upstream_peer :: "apmpr_proxy \<Rightarrow> request_context \<Rightarrow> string + http_peer" where
  "upstream_peer p ctx =
     (case ctx_target ctx of
        None \<Rightarrow> Inl ''route target missing after request filter''
      | Some t \<Rightarrow>
          (case ctx_upstream_address ctx of
             None \<Rightarrow> Inl ''resolved upstream address missing after request filter''
           | Some address \<Rightarrow>
               Inr \<lparr>peer_address = address,
                    peer_tls = (endpoint_protocol (target_endpoint t) = Https),
                    peer_host = endpoint_host (target_endpoint t),
                    peer_connection_timeout = opt_connect_timeout (ap_options p),
                    peer_total_connection_timeout = opt_total_connect_timeout (ap_options p),
                    peer_http2_only = (endpoint_protocol (target_endpoint t) = Grpc)\<rparr>))"

text \<open>\<open>ip_text\<close> prints an address; the client address is absent for a non-internet peer.\<close>

definition upstream_request_filter ::
  "(ip_addr \<Rightarrow> string) \<Rightarrow> 'h session \<Rightarrow> apmpr_proxy \<Rightarrow> 'h request_header \<Rightarrow> request_context
     \<Rightarrow> 'h \<Rightarrow> 'h option" where
  "upstream_request_filter ip_text ss p req ctx h =
     (let api = ss_api ss;
          preserve_identity = (\<not> strip_before_forwarding (ap_identity p) \<and>
            (case ctx_target ctx of None \<Rightarrow> False | Some t \<Rightarrow> target_receive_identity_header t));
          h = (if preserve_identity then h else api_remove api (explicit_header_name (ap_identity p)) h);
          h = api_remove api ''proxy-authorization'' h
      in case insert_headers api
                ((case header_text api req ''host'' of
                    None \<Rightarrow> []
                  | Some host \<Rightarrow> [(''x-forwarded-host'', host)])
                 @ [(''x-forwarded-proto'',
                     if listener_tls (ap_listener p) \<noteq> None then ''https'' else ''http'')]) h of
           None \<Rightarrow> None
         | Some h \<Rightarrow>
             (case ss_client ss of
                None \<Rightarrow> Some h
              | Some ip \<Rightarrow> api_append api ''x-forwarded-for'' (ip_text ip) h))"

definition response_filter :: "'h header_api \<Rightarrow> request_context \<Rightarrow> 'h \<Rightarrow> 'h option" where
  "response_filter api ctx h =
     (if ctx_browser_routed ctx then apply_cors_response_headers api h (ctx_cors_origin ctx)
      else Some h)"

definition USIZE_MAX :: nat where
  "USIZE_MAX = 2 ^ 64 - 1"

definition saturating_add :: "nat \<Rightarrow> nat \<Rightarrow> nat" where
  "saturating_add a b = min USIZE_MAX (a + b)"

definition request_body_filter ::
  "proxy_options \<Rightarrow> string option \<Rightarrow> request_context \<Rightarrow> request_context \<times> bool" where
  "request_body_filter options body ctx =
     (let ctx = ctx\<lparr>ctx_body_bytes := saturating_add (ctx_body_bytes ctx)
            (case body of None \<Rightarrow> 0 | Some bytes \<Rightarrow> length bytes)\<rparr>
      in if ctx_body_bytes ctx > opt_max_request_body_bytes options
         then (ctx\<lparr>ctx_rejection := Some \<lparr>rej_status = 413, rej_code = ''request_body_too_large'',
                 rej_message = ''request body exceeds the configured limit''\<rparr>\<rparr>, False)
         else (ctx, True))"

definition fail_to_proxy ::
  "'h session \<Rightarrow> bool \<Rightarrow> telemetry \<Rightarrow> request_context
     \<Rightarrow> telemetry \<times> request_context \<times> 'h response option \<times> nat" where
  "fail_to_proxy ss upstream_error tel ctx =
     (let rejection =
        (case ctx_rejection ctx of
           Some r \<Rightarrow> r
         | None \<Rightarrow>
             if upstream_error
             then \<lparr>rej_status = 502, rej_code = ''upstream_unavailable'',
                   rej_message = ''the selected provider could not be reached''\<rparr>
             else \<lparr>rej_status = 500, rej_code = ''proxy_error'',
                   rej_message = ''the request could not be proxied''\<rparr>);
          tel = (if ctx_error_counted ctx then tel else count_error tel);
          ctx = ctx\<lparr>ctx_rejection := None, ctx_error_counted := True\<rparr>
      in (record_event (Rejection (rej_status rejection) (rej_code rejection)) tel, ctx,
          (if ss_write_ok ss
           then respond_json (ss_api ss) (ss_json ss) (rej_status rejection) (rej_code rejection)
                  (rej_message rejection) (ctx_cors_origin ctx)
           else None),
          rej_status rejection))"

definition logging :: "bool \<Rightarrow> telemetry \<Rightarrow> request_context \<Rightarrow> telemetry \<times> request_context" where
  "logging failed tel ctx =
     (let (tel, ctx) =
        (if failed \<and> \<not> ctx_error_counted ctx
         then (count_error tel, ctx\<lparr>ctx_error_counted := True\<rparr>) else (tel, ctx));
          (tel, ctx) =
        (if ctx_started ctx then (request_finished tel, ctx\<lparr>ctx_started := False\<rparr>) else (tel, ctx))
      in (record_event
            (Access (map_option target_provider (ctx_target ctx))
               (\<not> failed \<and> \<not> ctx_error_counted ctx)) tel, ctx))"

end
