(* ===== verification/HttpRouting.thy ===== *)
theory HttpRouting
  imports HttpPlane
begin

text \<open>
  Which requests the data plane forwards and where: the routing rule of a listener
  (\<open>routed_to\<close>), the exact condition under which \<open>request_filter\<close> lets a request through,
  and that its target is a provider of the active configuration. The worked session at the
  end of the first part instantiates the parameters of the data plane.
\<close>

section \<open>Routes lead to configured providers\<close>

definition configured_target :: "compiled_snapshot \<Rightarrow> route_target \<Rightarrow> bool" where
  "configured_target s t \<longleftrightarrow> t \<in> provider_target ` set (spec_providers (config_spec (cs_config s)))"

lemma resolves_configured:
  assumes "valid_config c" and "resolves (config_spec c) slot pid"
  shows "resolved (config_spec c) pid \<in> provider_target ` set (spec_providers (config_spec c))"
proof -
  from assms(2) obtain p where "p \<in> set (spec_providers (config_spec c))" "provider_id p = pid"
    by (auto simp: resolves_def)
  with resolved_unique [OF assms(1), of p] show ?thesis by auto
qed

lemma inserted_entry: "bt_get (insert_entries es bt_empty) k = Some t \<Longrightarrow> (k, t) \<in> set es"
  by (cases "map_of (rev es) k")
    (auto simp: bt.get_insert_all bt.inv_empty dest: map_of_SomeD)

lemma consumer_target_configured:
  assumes s: "sound_snapshot digest s" and t: "lookup_consumer s consumer slot = Some t"
  shows "configured_target s t"
proof -
  let ?c = "cs_config s"
  have v: "valid_config ?c" by (rule sound_snapshot_valid [OF s])
  from s have tab: "cs_consumer_routes s = insert_entries
      (group_entries (config_spec ?c) @ direct_entries (config_spec ?c)) bt_empty"
    unfolding sound_snapshot_def compile_Inr_iff by (metis compiled_snapshot.select_convs(3))
  from t have "((consumer, slot), t) \<in> set (group_entries (config_spec ?c) @ direct_entries (config_spec ?c))"
    unfolding lookup_consumer_def tab by (rule inserted_entry)
  then obtain pid where r: "direct_route (config_spec ?c) consumer slot pid \<or>
      group_route (config_spec ?c) consumer slot pid" and t': "t = resolved (config_spec ?c) pid"
    using group_entries_iff [OF v] direct_entries_iff by auto
  from r v have "resolves (config_spec ?c) slot pid"
    by (auto simp: direct_route_def group_route_def valid_config_def Let_def group_ok_def)
  then show ?thesis unfolding configured_target_def t' by (rule resolves_configured [OF v])
qed

lemma browser_target_configured:
  assumes s: "sound_snapshot digest s" and t: "bt_get (cs_browser_routes s) (slot, key) = Some t"
  shows "configured_target s t"
proof -
  let ?c = "cs_config s"
  have v: "valid_config ?c" by (rule sound_snapshot_valid [OF s])
  from s have tab: "cs_browser_routes s = insert_entries (browser_entries (config_spec ?c)) bt_empty"
    unfolding sound_snapshot_def compile_Inr_iff by (metis compiled_snapshot.select_convs(4))
  from t have "((slot, key), t) \<in> set (browser_entries (config_spec ?c))"
    unfolding tab by (rule inserted_entry)
  then obtain r where "r \<in> set (spec_browser_routes (config_spec ?c))"
    "t = resolved (config_spec ?c) (browser_provider r)"
    by (auto simp: browser_entries_def)
  moreover from this(1) v have "resolves (config_spec ?c) (browser_destination r) (browser_provider r)"
    by (auto simp: valid_config_def Let_def browser_route_ok_def)
  ultimately show ?thesis
    unfolding configured_target_def using resolves_configured [OF v] by simp
qed

lemma lookup_browser_entry:
  "lookup_browser s lk = Inr t \<Longrightarrow> \<exists>key. bt_get (cs_browser_routes s) (lookup_destination lk, key) = Some t"
  by (auto simp: lookup_browser_def Let_def ok_or_def split: option.splits if_splits)

lemma lookup_browser_configured:
  "sound_snapshot digest s \<Longrightarrow> lookup_browser s lk = Inr t \<Longrightarrow> configured_target s t"
  using lookup_browser_entry browser_target_configured by blast

section \<open>Which requests are forwarded\<close>

definition by_identity ::
  "'h header_api \<Rightarrow> apmpr_proxy \<Rightarrow> compiled_snapshot \<Rightarrow> route_slot_id \<Rightarrow> 'h request_header \<Rightarrow> bool" where
  "by_identity api p s slot req \<longleftrightarrow>
     listener_consumer (ap_listener p) = None \<or>
     header_count api req (explicit_header_name (ap_identity p)) > 0 \<and> browser_candidates s slot \<noteq> []"

text \<open>
  The routing rule: a consumer listener follows the consumer's route unless the request
  carries an identity header for a destination that has browser routes; identities are
  accepted once and, for the explicit header, on loopback listeners only.
\<close>

definition routed_to ::
  "'h header_api \<Rightarrow> apmpr_proxy \<Rightarrow> compiled_snapshot \<Rightarrow> route_slot_id \<Rightarrow> 'h request_header
     \<Rightarrow> route_target \<Rightarrow> bool" where
  "routed_to api p s slot req t \<longleftrightarrow>
     (let l = ap_listener p; name = explicit_header_name (ap_identity p);
          explicit = header_text api req name; trusted = is_loopback (sa_host (listener_bind l))
      in if by_identity api p s slot req
         then header_count api req name \<le> 1 \<and> (explicit \<noteq> None \<longrightarrow> trusted) \<and>
              (if listener_consumer l = None
               then header_count api req ''origin'' \<le> 1 \<and>
                    lookup_browser s \<lparr>lookup_destination = slot, lookup_explicit_header = explicit,
                      lookup_origin = header_text api req ''origin'',
                      lookup_proxy_listener = proxy_identity l\<rparr> = Inr t
               else explicit \<noteq> None \<and>
                    lookup_browser s \<lparr>lookup_destination = slot, lookup_explicit_header = explicit,
                      lookup_origin = None, lookup_proxy_listener = None\<rparr> = Inr t)
         else lookup_consumer s (the (listener_consumer l)) slot = Some t)"

lemma select_target_routed:
  "snd (select_target api p s slot req ctx) = Select (Some t) \<longleftrightarrow> routed_to api p s slot req t"
proof (cases "listener_consumer (ap_listener p)")
  case None
  then show ?thesis
    by (auto simp: select_target_def select_for_browser_def routed_to_def by_identity_def Let_def
        split: sum.splits prod.splits)
next
  case (Some consumer)
  then show ?thesis
    by (auto simp: select_target_def select_for_consumer_def routed_to_def by_identity_def Let_def
        split: sum.splits option.splits)
qed

lemma select_target_ctx:
  "fst (select_target api p s slot req ctx) =
     ctx\<lparr>ctx_browser_routed := ctx_browser_routed (fst (select_target api p s slot req ctx)),
         ctx_cors_origin := ctx_cors_origin (fst (select_target api p s slot req ctx))\<rparr>"
  by (auto simp: select_target_def select_for_consumer_def select_for_browser_def Let_def
      split: sum.splits option.splits prod.splits)

lemma select_target_browser_routed:
  "routed_to api p s slot req t \<Longrightarrow>
     ctx_browser_routed (fst (select_target api p s slot req ctx)) =
       (by_identity api p s slot req \<or> ctx_browser_routed ctx)"
  by (auto simp: select_target_def select_for_consumer_def select_for_browser_def routed_to_def
      by_identity_def Let_def split: sum.splits option.splits prod.splits)

lemma send_not_forward [simp]: "out_result (send ss tel ctx r) \<noteq> Forward"
  by (simp add: send_def)

lemma reject_not_forward [simp]:
  "out_result (reject ss tel ctx status code message) \<noteq> Forward"
  "out_result (reject_browser_route ss tel ctx status code message cands) \<noteq> Forward"
  "out_result (reject_proxy_authentication ss tel ctx) \<noteq> Forward"
  by (simp_all add: reject_def reject_browser_route_def reject_proxy_authentication_def)

definition healthy_target :: "network \<Rightarrow> route_target \<Rightarrow> bool" where
  "healthy_target net t \<longleftrightarrow>
     (case target_health_check t of
        None \<Rightarrow> True
      | Some check \<Rightarrow> probe_safely net (target_endpoint t) check = Inr ())"

definition forwardable ::
  "'h session \<Rightarrow> apmpr_proxy \<Rightarrow> compiled_snapshot \<Rightarrow> 'h request_header \<Rightarrow> route_target
     \<Rightarrow> socket_address \<Rightarrow> bool" where
  "forwardable ss p s req t address \<longleftrightarrow>
     request_header_bytes (ss_api ss) req \<le> opt_max_request_header_bytes (ap_options p) \<and>
     authorized ss p req \<and>
     (\<exists>slot. destination_slot (ss_api ss) (ap_listener p) req = Some slot \<and>
        routed_to (ss_api ss) p s slot req t \<and>
        \<not> (by_identity (ss_api ss) p s slot req \<and> is_cors_preflight (ss_api ss) req)) \<and>
     healthy_target (ss_net ss) t \<and>
     resolve_endpoint (ss_net ss) (target_endpoint t) (opt_connect_timeout (ap_options p)) = Inr address"

lemma dispatch_forward:
  "out_result (dispatch ss p req t tel ctx) = Forward \<longleftrightarrow>
     \<not> (ctx_browser_routed ctx \<and> is_cors_preflight (ss_api ss) req) \<and> healthy_target (ss_net ss) t \<and>
     (\<exists>address. resolve_endpoint (ss_net ss) (target_endpoint t)
        (opt_connect_timeout (ap_options p)) = Inr address)"
  by (auto simp: dispatch_def healthy_target_def split: option.splits sum.splits)

lemma dispatch_forward_ctx:
  "out_result (dispatch ss p req t tel ctx) = Forward \<Longrightarrow>
     \<exists>address. resolve_endpoint (ss_net ss) (target_endpoint t)
        (opt_connect_timeout (ap_options p)) = Inr address \<and>
     dispatch ss p req t tel ctx =
       \<lparr>out_telemetry = tel, out_ctx = ctx\<lparr>ctx_upstream_address := Some address\<rparr>,
        out_response = None, out_result = Forward\<rparr>"
  by (auto simp: dispatch_def split: option.splits sum.splits if_splits)

abbreviation started_ctx :: request_context where
  "started_ctx \<equiv> new_ctx\<lparr>ctx_started := True\<rparr>"

text \<open>The context with which a selected target is dispatched.\<close>

definition routed_ctx ::
  "'h header_api \<Rightarrow> apmpr_proxy \<Rightarrow> compiled_snapshot \<Rightarrow> route_slot_id \<Rightarrow> 'h request_header
     \<Rightarrow> route_target \<Rightarrow> request_context" where
  "routed_ctx api p s slot req t =
     (fst (select_target api p s slot req started_ctx))\<lparr>ctx_snapshot := Some s, ctx_target := Some t\<rparr>"

lemma request_filter_routed:
  assumes "request_header_bytes (ss_api ss) req \<le> opt_max_request_header_bytes (ap_options p)"
    and "authorized ss p req"
    and "destination_slot (ss_api ss) (ap_listener p) req = Some slot"
    and "routed_to (ss_api ss) p (engine_snapshot e) slot req t"
  shows "request_filter ss p e req tel new_ctx =
     dispatch ss p req t
       (record_event (Routing (target_provider t) (version (engine_snapshot e))) (request_started tel))
       (routed_ctx (ss_api ss) p (engine_snapshot e) slot req t)"
proof -
  obtain c sel where sel: "select_target (ss_api ss) p (engine_snapshot e) slot req started_ctx = (c, sel)"
    by fastforce
  with select_target_routed [of "ss_api ss" p "engine_snapshot e" slot req started_ctx t] assms(4)
  have "sel = Select (Some t)" by simp
  with assms sel show ?thesis by (simp add: request_filter_def routed_ctx_def Let_def)
qed

lemma request_filter_forward:
  assumes "out_result (request_filter ss p e req tel new_ctx) = Forward"
  obtains slot t where
    "request_header_bytes (ss_api ss) req \<le> opt_max_request_header_bytes (ap_options p)"
    "authorized ss p req" "destination_slot (ss_api ss) (ap_listener p) req = Some slot"
    "routed_to (ss_api ss) p (engine_snapshot e) slot req t"
proof -
  from assms have ok: "request_header_bytes (ss_api ss) req \<le> opt_max_request_header_bytes (ap_options p)"
    "authorized ss p req"
    by (auto simp: request_filter_def Let_def split: if_splits)
  with assms obtain slot where slot: "destination_slot (ss_api ss) (ap_listener p) req = Some slot"
    by (cases "destination_slot (ss_api ss) (ap_listener p) req") (auto simp: request_filter_def Let_def)
  obtain c sel where sel: "select_target (ss_api ss) p (engine_snapshot e) slot req started_ctx = (c, sel)"
    by fastforce
  with assms ok slot obtain t where "sel = Select (Some t)"
    by (auto simp: request_filter_def Let_def split: selection.splits option.splits)
  with sel have "routed_to (ss_api ss) p (engine_snapshot e) slot req t"
    using select_target_routed [of "ss_api ss" p "engine_snapshot e" slot req started_ctx t] by simp
  with ok slot that show thesis by blast
qed

lemma send_ctx [simp]:
  "out_ctx (send ss tel ctx r) = ctx" "out_telemetry (send ss tel ctx r) = tel"
  by (simp_all add: send_def)

lemma reject_ctx [simp]:
  "out_ctx (reject ss tel ctx status code message) = ctx\<lparr>ctx_error_counted := True\<rparr>"
  "out_ctx (reject_browser_route ss tel ctx status code message cands) = ctx\<lparr>ctx_error_counted := True\<rparr>"
  "out_ctx (reject_proxy_authentication ss tel ctx) = ctx\<lparr>ctx_error_counted := True\<rparr>"
  "out_telemetry (reject ss tel ctx status code message) =
     record_event (Rejection status code) (count_error tel)"
  "out_telemetry (reject_browser_route ss tel ctx status code message cands) =
     record_event (Rejection status code) (count_error tel)"
  "out_telemetry (reject_proxy_authentication ss tel ctx) =
     record_event (Rejection 407 ''proxy_authentication_required'') (count_error tel)"
  by (simp_all add: reject_def reject_browser_route_def reject_proxy_authentication_def)

lemma select_target_keeps:
  "select_target api p s slot req ctx = (c, sel) \<Longrightarrow>
     ctx_target c = ctx_target ctx \<and> ctx_started c = ctx_started ctx \<and>
     ctx_error_counted c = ctx_error_counted ctx"
  using select_target_ctx [of api p s slot req ctx]
  by (metis (no_types, lifting) fst_conv request_context.select_convs(2,8,9)
      request_context.surjective request_context.update_convs(4,5))

lemma request_filter_unrouted:
  assumes "\<And>slot t. destination_slot (ss_api ss) (ap_listener p) req = Some slot \<Longrightarrow>
      \<not> routed_to (ss_api ss) p (engine_snapshot e) slot req t"
  shows "ctx_target (out_ctx (request_filter ss p e req tel new_ctx)) = None"
proof (cases "destination_slot (ss_api ss) (ap_listener p) req")
  case None
  then show ?thesis
    by (simp add: request_filter_def Let_def new_ctx_def)
next
  case (Some slot)
  obtain c sel where sel: "select_target (ss_api ss) p (engine_snapshot e) slot req started_ctx = (c, sel)"
    by fastforce
  then have "ctx_target c = None" using select_target_keeps by (fastforce simp: new_ctx_def)
  moreover have "sel \<noteq> Select (Some t)" for t
    using assms [OF Some] select_target_routed [of "ss_api ss" p "engine_snapshot e" slot req started_ctx t]
      sel by simp
  ultimately show ?thesis
    using Some sel
    by (auto simp: request_filter_def Let_def new_ctx_def split: selection.splits option.splits)
qed

lemma routed_ctx_browser_routed:
  "routed_to api p s slot req t \<Longrightarrow>
     ctx_browser_routed (routed_ctx api p s slot req t) = by_identity api p s slot req"
  by (simp add: routed_ctx_def select_target_browser_routed new_ctx_def)

lemma routed_configured:
  assumes "sound_snapshot digest s" and "routed_to api p s slot req t"
  shows "configured_target s t"
  using assms
  by (auto simp: routed_to_def Let_def split: if_splits
      intro: consumer_target_configured lookup_browser_configured)

section \<open>A worked session\<close>

text \<open>Header maps as association lists, a network on which every name resolves, and a request.\<close>

definition list_values :: "string \<Rightarrow> (string \<times> string) list \<Rightarrow> string list" where
  "list_values n h = map snd (filter (\<lambda>x. eq_ignore_ascii_case (fst x) n) h)"

definition list_api :: "(string \<times> string) list header_api" where
  "list_api =
     \<lparr>api_get = \<lambda>n h. (case list_values n h of [] \<Rightarrow> None | v # _ \<Rightarrow> Some v),
      api_get_all = list_values, api_iter = \<lambda>h. h,
      api_remove = \<lambda>n. filter (\<lambda>x. \<not> eq_ignore_ascii_case (fst x) n),
      api_insert = \<lambda>n v h. Some (filter (\<lambda>x. \<not> eq_ignore_ascii_case (fst x) n) h @ [(n, v)]),
      api_append = \<lambda>n v h. Some (h @ [(n, v)]),
      api_empty = [],
      api_to_str = \<lambda>v. if \<forall>c\<in>set v. byte c = 9 \<or> 32 \<le> byte c \<and> byte c < 127 then Some v else None\<rparr>"

lemma list_api_laws: "header_laws list_api"
proof -
  have "list_values m (filter (\<lambda>x. \<not> eq_ignore_ascii_case (fst x) n) h) =
      (if eq_ignore_ascii_case m n then [] else list_values m h)" for m n h
    by (induction h) (auto simp: list_values_def eq_ignore_ascii_case_def)
  moreover have "list_values m (h @ [(n, v)]) =
      list_values m h @ (if eq_ignore_ascii_case m n then [v] else [])" for m n h v
    by (auto simp: list_values_def eq_ignore_ascii_case_def)
  moreover have "list_values m [] = []" for m by (simp add: list_values_def)
  ultimately show ?thesis
    by (simp add: header_laws_def list_api_def split: list.splits if_splits)
qed

definition sample_net :: network where
  "sample_net =
     \<lparr>net_lookup_host = \<lambda>_ port _. Finished (Inr [SocketAddress (V4 2130706433) port]),
      net_connect = \<lambda>_ _. Finished (Inr ()),
      net_http_get = \<lambda>_ _ _ _ _. Finished (Inr (Some 200)),
      net_task_failed = \<lambda>_ _. None\<rparr>"

definition sample_session :: "(string \<times> string) list session" where
  "sample_session =
     \<lparr>ss_api = list_api, ss_json = \<lambda>_. ''{}'', ss_ct_eq = \<lambda>a b. a = b, ss_net = sample_net,
      ss_write_ok = True, ss_client = Some (V4 2130706433)\<rparr>"

definition sample_proxy :: "u32 \<Rightarrow> apmpr_proxy" where
  "sample_proxy host =
     \<lparr>ap_listener = sample_listener None host 8080 Http [CustomDomain ''web'' ''app.localhost''],
      ap_credential = None, ap_identity = default_identity_policy,
      ap_options = default_proxy_options\<rparr>"

definition sample_request :: "(string \<times> string) list request_header" where
  "sample_request =
     \<lparr>req_method = ''GET'', req_uri = ''/'',
      req_headers = [(''host'', ''App.localhost:8080''), (''x-apmpr-route'', ''feature:a''),
        (''proxy-authorization'', ''Basic xyz'')]\<rparr>"

definition origin_request :: "(string \<times> string) list request_header" where
  "origin_request =
     \<lparr>req_method = ''GET'', req_uri = ''/'',
      req_headers = [(''host'', ''app.localhost:8080''), (''origin'', ''http://app.localhost:8080'')]\<rparr>"

lemma sample_engine_inv: "engine_inv (\<lambda>_. ''abc'') sample_engine"
  by (rule engine_new_inv [OF sample_engine_new])

lemma sample_forwards:
  "out_result (request_filter sample_session (sample_proxy 2130706433) sample_engine sample_request
     (telemetry_new 4) new_ctx) = Forward"
  by code_simp

section \<open>Properties of the filters\<close>

text \<open>
  C16. Which requests reach an upstream: \<open>request_filter\<close> lets a request through exactly
  when its headers are within the limit, the proxy credential (if any) is presented, the
  routing rule selects a target, the request is not a browser preflight, the target passes
  its health check and its name resolves. Then the context holds that target, the snapshot it
  came from and the resolved address, the target is a provider of the active configuration,
  nothing has been answered, and the request is counted once with one routing event.
\<close>

theorem forwarded_iff_forwardable:
  assumes "engine_inv digest e"
  shows "(out_result (request_filter ss p e req tel new_ctx) = Forward) =
       (\<exists>t address. forwardable ss p (engine_snapshot e) req t address) \<and>
     (out_result (request_filter ss p e req tel new_ctx) = Forward \<longrightarrow>
       (\<exists>t address. forwardable ss p (engine_snapshot e) req t address \<and>
          configured_target (engine_snapshot e) t \<and>
          ctx_target (out_ctx (request_filter ss p e req tel new_ctx)) = Some t \<and>
          ctx_snapshot (out_ctx (request_filter ss p e req tel new_ctx)) = Some (engine_snapshot e) \<and>
          ctx_upstream_address (out_ctx (request_filter ss p e req tel new_ctx)) = Some address \<and>
          out_response (request_filter ss p e req tel new_ctx) = None \<and>
          out_telemetry (request_filter ss p e req tel new_ctx) =
            record_event (Routing (target_provider t) (version (engine_snapshot e)))
              (request_started tel)))"
    (is "?fwd = ?ok \<and> (?fwd \<longrightarrow> ?effect)")
proof -
  have effect: ?effect if fwd: ?fwd
  proof -
    from fwd obtain slot t where r:
      "request_header_bytes (ss_api ss) req \<le> opt_max_request_header_bytes (ap_options p)"
      "authorized ss p req" "destination_slot (ss_api ss) (ap_listener p) req = Some slot"
      "routed_to (ss_api ss) p (engine_snapshot e) slot req t"
      by (rule request_filter_forward)
    note eq = request_filter_routed [OF r, of tel]
    from fwd have d: "out_result (dispatch ss p req t
        (record_event (Routing (target_provider t) (version (engine_snapshot e))) (request_started tel))
        (routed_ctx (ss_api ss) p (engine_snapshot e) slot req t)) = Forward"
      unfolding eq .
    from dispatch_forward_ctx [OF d] obtain address where a:
      "resolve_endpoint (ss_net ss) (target_endpoint t) (opt_connect_timeout (ap_options p)) = Inr address"
      "request_filter ss p e req tel new_ctx =
        \<lparr>out_telemetry = record_event (Routing (target_provider t) (version (engine_snapshot e)))
             (request_started tel),
         out_ctx = (routed_ctx (ss_api ss) p (engine_snapshot e) slot req t)
           \<lparr>ctx_upstream_address := Some address\<rparr>,
         out_response = None, out_result = Forward\<rparr>"
      unfolding eq by blast
    have "forwardable ss p (engine_snapshot e) req t address"
      using r a d by (auto simp: forwardable_def dispatch_forward routed_ctx_browser_routed)
    moreover have "configured_target (engine_snapshot e) t"
      using assms r(4) by (auto simp: engine_inv_def engine_snapshot_def intro: routed_configured)
    ultimately show ?effect using a(2) by (auto simp: routed_ctx_def)
  qed
  moreover have ?fwd if ?ok
    using that
    by (auto simp: forwardable_def request_filter_routed dispatch_forward routed_ctx_browser_routed)
  ultimately show ?thesis by blast
qed

theorem forwarded_iff_forwardable_witness:
  "\<exists>t address. forwardable sample_session (sample_proxy 2130706433) (engine_snapshot sample_engine)
     sample_request t address \<and> configured_target (engine_snapshot sample_engine) t"
  using forwarded_iff_forwardable [OF sample_engine_inv, of sample_session "sample_proxy 2130706433"
      sample_request "telemetry_new 4"] sample_forwards by blast

text \<open>
  C17. Identity headers are not trusted from the network: on a listener that is not bound to
  loopback, a request whose explicit identity header would decide its route (a readable value,
  on a browser listener or for a destination with browser routes) is never forwarded, and no
  target is selected for it.
\<close>

theorem identity_header_needs_loopback:
  assumes "\<not> is_loopback (sa_host (listener_bind (ap_listener p)))"
    and "header_text (ss_api ss) req (explicit_header_name (ap_identity p)) \<noteq> None"
    and "\<And>slot. destination_slot (ss_api ss) (ap_listener p) req = Some slot \<Longrightarrow>
      by_identity (ss_api ss) p (engine_snapshot e) slot req"
  shows "out_result (request_filter ss p e req tel new_ctx) \<noteq> Forward \<and>
     ctx_target (out_ctx (request_filter ss p e req tel new_ctx)) = None"
proof -
  have no: "\<not> routed_to (ss_api ss) p (engine_snapshot e) slot req t"
    if "destination_slot (ss_api ss) (ap_listener p) req = Some slot" for slot t
    using assms(1,2) assms(3) [OF that] by (simp add: routed_to_def Let_def)
  then show ?thesis
    using request_filter_forward request_filter_unrouted by metis
qed

theorem identity_header_needs_loopback_witness:
  "out_result (request_filter sample_session (sample_proxy 167772161) sample_engine sample_request
     (telemetry_new 4) new_ctx) \<noteq> Forward"
proof -
  have "\<not> is_loopback (sa_host (listener_bind (ap_listener (sample_proxy 167772161))))"
    "header_text (ss_api sample_session) sample_request
       (explicit_header_name (ap_identity (sample_proxy 167772161))) \<noteq> None"
    by code_simp+
  moreover have "listener_consumer (ap_listener (sample_proxy 167772161)) = None" by code_simp
  then have "by_identity (ss_api sample_session) (sample_proxy 167772161)
      (engine_snapshot sample_engine) slot sample_request" for slot
    by (simp add: by_identity_def)
  ultimately show ?thesis
    using identity_header_needs_loopback [of "sample_proxy 167772161" sample_session sample_request
        sample_engine] by blast
qed

end
