(* ===== verification/HttpForwarding.thy ===== *)
theory HttpForwarding
  imports HttpRouting
begin

text \<open>
  What passes between client and upstream: the CORS headers of a response, the headers of a
  forwarded request, the request body limit, and the accounting of a request in the
  telemetry.
\<close>

section \<open>CORS and forwarded headers\<close>

lemma header_lawsD:
  assumes "header_laws api"
  shows get_all_remove: "api_get_all api m (api_remove api n h) =
      (if eq_ignore_ascii_case m n then [] else api_get_all api m h)"
    and get_all_insert: "api_insert api n v h = Some h' \<Longrightarrow>
      api_get_all api m h' = (if eq_ignore_ascii_case m n then [v] else api_get_all api m h)"
    and get_all_append: "api_append api n v h = Some h' \<Longrightarrow>
      api_get_all api m h' = api_get_all api m h @ (if eq_ignore_ascii_case m n then [v] else [])"
    and to_str_visible: "(\<And>c. c \<in> set v \<Longrightarrow> 32 \<le> byte c \<and> byte c < 127) \<Longrightarrow> api_to_str api v = Some v"
  using assms by (simp_all add: header_laws_def)

lemma get_all_remove_all:
  "header_laws api \<Longrightarrow> api_get_all api m (fold (api_remove api) ns h) =
     (if \<exists>n\<in>set ns. eq_ignore_ascii_case m n then [] else api_get_all api m h)"
  by (induction ns arbitrary: h) (auto simp: get_all_remove)

lemma vary_distinct_from_cors: "\<forall>n\<in>set cors_response_headers. \<not> eq_ignore_ascii_case n ''vary''"
  by code_simp

lemma apply_cors_headers:
  assumes laws: "header_laws api" and h': "apply_cors_response_headers api h allowed = Some h'"
  shows "\<forall>n\<in>set cors_response_headers. api_get_all api n h' =
      (if n = ''access-control-allow-origin'' then (case allowed of None \<Rightarrow> [] | Some v \<Rightarrow> [v]) else [])"
    and "vary_has_origin api h'"
proof -
  let ?h = "fold (api_remove api) cors_response_headers h"
  from h' obtain g where g: "(case allowed of None \<Rightarrow> Some ?h
      | Some v \<Rightarrow> api_insert api ''access-control-allow-origin'' v ?h) = Some g"
    and h'g: "(if vary_has_origin api g then Some g else api_append api ''vary'' ''Origin'' g) = Some h'"
    by (auto simp: apply_cors_response_headers_def Let_def split: option.splits)
  have names: "\<forall>n\<in>set cors_response_headers. n \<noteq> ''access-control-allow-origin'' \<longrightarrow>
      \<not> eq_ignore_ascii_case n ''access-control-allow-origin''"
    by code_simp
  have removed: "api_get_all api n ?h = []" if "n \<in> set cors_response_headers" for n
    using that by (auto simp: get_all_remove_all [OF laws])
  have "\<forall>n\<in>set cors_response_headers. api_get_all api n g =
      (if n = ''access-control-allow-origin'' then (case allowed of None \<Rightarrow> [] | Some v \<Rightarrow> [v]) else [])"
    using g names removed by (cases allowed) (auto simp: get_all_insert [OF laws])
  moreover have "api_get_all api n h' = api_get_all api n g" if "n \<in> set cors_response_headers" for n
    using h'g that vary_distinct_from_cors by (auto simp: get_all_append [OF laws] split: if_splits)
  ultimately show "\<forall>n\<in>set cors_response_headers. api_get_all api n h' =
      (if n = ''access-control-allow-origin'' then (case allowed of None \<Rightarrow> [] | Some v \<Rightarrow> [v]) else [])"
    by simp
  have "api_to_str api ''Origin'' = Some ''Origin''"
    by (rule to_str_visible [OF laws]) auto
  moreover have "\<exists>p\<in>set (split_char CHR '','' ''Origin''). eq_ignore_ascii_case (str_trim p) ''origin''"
    by code_simp
  ultimately show "vary_has_origin api h'"
    using h'g by (auto simp: vary_has_origin_def get_all_append [OF laws] split: if_splits)
qed

text \<open>An origin is allowed exactly when the configuration has a browser route for it.\<close>

lemma allowed_origin_exact:
  assumes "sound_snapshot digest s"
  shows "allowed_origin s slot origin =
     (case origin of
        None \<Rightarrow> None
      | Some o' \<Rightarrow> if \<exists>pid. browser_selects (config_spec (cs_config s)) slot (Origin o') pid then Some o' else None)"
proof (cases origin)
  case (Some o')
  have routes: "cs_browser_routes s = insert_entries (browser_entries (config_spec (cs_config s))) bt_empty"
    using assms unfolding sound_snapshot_def compile_Inr_iff
    by (metis compiled_snapshot.select_convs(4))
  have "(\<exists>t. bt_get (cs_browser_routes s) (slot, browser_key_of (Origin o')) = Some t) \<longleftrightarrow>
      (\<exists>pid. browser_selects (config_spec (cs_config s)) slot (Origin o') pid)"
    unfolding routes browser_table_get [OF sound_snapshot_valid [OF assms], of slot "Origin o'"] by blast
  then show ?thesis
    using Some by (auto simp: allowed_origin_def lookup_browser_def ok_or_def Let_def split: option.splits)
qed (simp add: allowed_origin_def)

lemma routed_ctx_cors:
  assumes "routed_to api p s slot req t"
  shows "ctx_cors_origin (routed_ctx api p s slot req t) =
     (if listener_consumer (ap_listener p) = None then allowed_origin s slot (header_text api req ''origin'') else None)"
  using assms
  by (auto simp: routed_ctx_def select_target_def select_for_consumer_def select_for_browser_def routed_to_def
      by_identity_def new_ctx_def Let_def split: sum.splits option.splits prod.splits)

text \<open>The context of a forwarded request, by the routing rule.\<close>

lemma forwarded_ctx:
  assumes "out_result (request_filter ss p e req tel new_ctx) = Forward"
    and "destination_slot (ss_api ss) (ap_listener p) req = Some slot"
  shows "ctx_browser_routed (out_ctx (request_filter ss p e req tel new_ctx)) =
      by_identity (ss_api ss) p (engine_snapshot e) slot req"
    and "ctx_cors_origin (out_ctx (request_filter ss p e req tel new_ctx)) =
      (if listener_consumer (ap_listener p) = None
       then allowed_origin (engine_snapshot e) slot (header_text (ss_api ss) req ''origin'') else None)"
proof -
  obtain t where ok: "request_header_bytes (ss_api ss) req \<le> opt_max_request_header_bytes (ap_options p)"
    "authorized ss p req" "routed_to (ss_api ss) p (engine_snapshot e) slot req t"
    using request_filter_forward [OF assms(1)] assms(2) by (metis option.inject)
  note filter = request_filter_routed [OF ok(1,2) assms(2) ok(3), of tel]
  obtain address where "out_ctx (request_filter ss p e req tel new_ctx) =
      (routed_ctx (ss_api ss) p (engine_snapshot e) slot req t)\<lparr>ctx_upstream_address := Some address\<rparr>"
    using dispatch_forward_ctx [OF assms(1) [unfolded filter]] unfolding filter by auto
  then show "ctx_browser_routed (out_ctx (request_filter ss p e req tel new_ctx)) =
      by_identity (ss_api ss) p (engine_snapshot e) slot req"
    and "ctx_cors_origin (out_ctx (request_filter ss p e req tel new_ctx)) =
      (if listener_consumer (ap_listener p) = None
       then allowed_origin (engine_snapshot e) slot (header_text (ss_api ss) req ''origin'') else None)"
    using routed_ctx_browser_routed [OF ok(3)] routed_ctx_cors [OF ok(3)] by simp_all
qed

text \<open>
  C18. Browsers may read a response from exactly the configured origins. On a browser listener
  the response to a forwarded request has one \<open>Access-Control-Allow-Origin\<close>, the request's
  \<open>Origin\<close>, if the active configuration has a browser route for that origin and the requested
  destination, and none otherwise; on a consumer listener a request routed by its identity header
  gets none. In both cases every other CORS header of the upstream is removed and \<open>Vary\<close> names
  \<open>Origin\<close>; the response to a request that was not routed by identity is left as it is.
\<close>

theorem cors_only_configured_origins:
  assumes "engine_inv digest e" and "header_laws (ss_api ss)"
    and "out_result (request_filter ss p e req tel new_ctx) = Forward"
    and "destination_slot (ss_api ss) (ap_listener p) req = Some slot"
    and "response_filter (ss_api ss) (out_ctx (request_filter ss p e req tel new_ctx)) h = Some h'"
  shows "if by_identity (ss_api ss) p (engine_snapshot e) slot req
     then api_get_all (ss_api ss) ''access-control-allow-origin'' h' =
            (case header_text (ss_api ss) req ''origin'' of
               None \<Rightarrow> []
             | Some o' \<Rightarrow>
                 if listener_consumer (ap_listener p) = None \<and>
                    (\<exists>pid. browser_selects (config_spec (cs_config (engine_snapshot e))) slot (Origin o') pid)
                 then [o'] else []) \<and>
          (\<forall>n\<in>set [''access-control-allow-methods'', ''access-control-allow-headers'',
               ''access-control-allow-private-network'', ''access-control-allow-credentials'',
               ''access-control-expose-headers'', ''access-control-max-age''].
             api_get_all (ss_api ss) n h' = []) \<and>
          vary_has_origin (ss_api ss) h'
     else h' = h"
proof (cases "by_identity (ss_api ss) p (engine_snapshot e) slot req")
  case False
  then show ?thesis using assms(5) forwarded_ctx(1) [OF assms(3,4)] by (simp add: response_filter_def)
next
  case True
  let ?allowed = "ctx_cors_origin (out_ctx (request_filter ss p e req tel new_ctx))"
  have h': "apply_cors_response_headers (ss_api ss) h ?allowed = Some h'"
    using assms(5) True forwarded_ctx(1) [OF assms(3,4)] by (simp add: response_filter_def)
  note cors = apply_cors_headers [OF assms(2) h']
  have s: "sound_snapshot digest (engine_snapshot e)"
    using assms(1) by (simp add: engine_inv_def engine_snapshot_def)
  have "api_get_all (ss_api ss) ''access-control-allow-origin'' h' = (case ?allowed of None \<Rightarrow> [] | Some v \<Rightarrow> [v])"
    using cors(1) by (simp add: cors_response_headers_def)
  then show ?thesis
    using cors True unfolding forwarded_ctx(2) [OF assms(3,4)] allowed_origin_exact [OF s]
    by (auto simp: cors_response_headers_def split: option.splits)
qed

theorem cors_only_configured_origins_witness:
  "list_values ''access-control-allow-origin''
     (the (response_filter list_api (out_ctx (request_filter sample_session (sample_proxy 2130706433) sample_engine
        origin_request (telemetry_new 4) new_ctx)) [(''access-control-allow-origin'', ''*'')])) =
   [''http://app.localhost:8080'']"
proof -
  let ?out = "request_filter sample_session (sample_proxy 2130706433) sample_engine origin_request (telemetry_new 4) new_ctx"
  let ?h = "[(''access-control-allow-origin'', ''*'')]"
  have api: "ss_api sample_session = list_api" by (simp add: sample_session_def)
  have forward: "out_result ?out = Forward" by code_simp
  have slot: "destination_slot (ss_api sample_session) (ap_listener (sample_proxy 2130706433)) origin_request = Some ''web''"
    by code_simp
  have filter: "response_filter (ss_api sample_session) (out_ctx ?out) ?h = Some (the (response_filter list_api (out_ctx ?out) ?h))"
    by code_simp
  have identity: "by_identity (ss_api sample_session) (sample_proxy 2130706433) (engine_snapshot sample_engine) ''web'' origin_request"
    "listener_consumer (ap_listener (sample_proxy 2130706433)) = None" by code_simp+
  have origin: "header_text (ss_api sample_session) origin_request ''origin'' = Some ''http://app.localhost:8080''" by code_simp
  have "list_ex (\<lambda>r. browser_destination r = ''web'' \<and> browser_identity_of r = Origin ''http://app.localhost:8080'')
      (spec_browser_routes (config_spec (cs_config (engine_snapshot sample_engine))))" by code_simp
  then have selects: "\<exists>pid. browser_selects (config_spec (cs_config (engine_snapshot sample_engine))) ''web''
      (Origin ''http://app.localhost:8080'') pid"
    by (auto simp: browser_selects_def list_ex_iff)
  have get_all: "api_get_all (ss_api sample_session) = list_values" by (simp add: api list_api_def)
  show ?thesis
    using cors_only_configured_origins [OF sample_engine_inv _ forward slot filter] identity selects list_api_laws
    by (simp add: origin [unfolded api] get_all [unfolded api] identity [unfolded api] api)
qed







section \<open>Accounting\<close>

lemma record_event_counters [simp]:
  "tel_requests (record_event e t) = tel_requests t" "tel_errors (record_event e t) = tel_errors t"
  "tel_active (record_event e t) = tel_active t" "tel_capacity (record_event e t) = tel_capacity t"
  by (simp_all add: record_event_def)

lemma record_event_log:
  "length (tel_events t) \<le> tel_capacity t \<Longrightarrow>
     tel_events (record_event e t) = last_n (tel_capacity t) (tel_events t @ [e])"
  by (cases "tel_capacity t = 0") (auto simp: record_event_def push_bounded_last_n last_n_def)

interpretation data_plane_log: bounded_log tel_events tel_capacity "\<lambda>e _. e" record_event
  by unfold_locales (simp_all add: record_event_log)

lemma data_plane_entries: "data_plane_log.entries es t = es"
  by (induction es arbitrary: t) auto

text \<open>The telemetry a request has caused so far, relative to the telemetry it started from.\<close>

definition accounted :: "telemetry \<Rightarrow> telemetry \<Rightarrow> request_context \<Rightarrow> bool" where
  "accounted tel0 tel ctx \<longleftrightarrow>
     tel_requests tel = tel_requests tel0 + 1 \<and>
     tel_active tel = tel_active tel0 + (if ctx_started ctx then 1 else 0) \<and>
     tel_errors tel = tel_errors tel0 + (if ctx_error_counted ctx then 1 else 0)"

lemmas accounting_defs =
  accounted_def request_started_def request_finished_def count_error_def

lemma accounted_irrelevant [simp]:
  "accounted tel0 (record_event ev tel) ctx = accounted tel0 tel ctx"
  "accounted tel0 tel (ctx\<lparr>ctx_snapshot := s, ctx_target := t\<rparr>) = accounted tel0 tel ctx"
  "accounted tel0 tel (ctx\<lparr>ctx_upstream_address := a\<rparr>) = accounted tel0 tel ctx"
  by (simp_all add: accounted_def)

lemma started_accounted:
  "ctx_started ctx \<Longrightarrow> \<not> ctx_error_counted ctx \<Longrightarrow> accounted tel0 (request_started tel0) ctx"
  by (simp add: accounting_defs)

lemma reject_accounted:
  assumes "accounted tel0 tel ctx" and "\<not> ctx_error_counted ctx"
  shows "accounted tel0 (count_error tel) (ctx\<lparr>ctx_error_counted := True\<rparr>)"
  using assms by (simp add: accounting_defs)

lemma dispatch_accounted:
  "accounted tel0 tel ctx \<Longrightarrow> \<not> ctx_error_counted ctx \<Longrightarrow>
     accounted tel0 (out_telemetry (dispatch ss p req t tel ctx)) (out_ctx (dispatch ss p req t tel ctx))"
  by (auto simp: dispatch_def reject_accounted split: option.splits sum.splits)

lemma request_filter_accounted:
  "accounted tel (out_telemetry (request_filter ss p e req tel new_ctx))
     (out_ctx (request_filter ss p e req tel new_ctx))"
proof -
  have start: "accounted tel (request_started tel) started_ctx" "\<not> ctx_error_counted started_ctx"
    by (simp_all add: started_accounted new_ctx_def)
  show ?thesis
  proof (cases "destination_slot (ss_api ss) (ap_listener p) req")
    case None
    with start show ?thesis by (auto simp: request_filter_def Let_def reject_accounted)
  next
    case (Some slot)
    obtain c sel where sel: "select_target (ss_api ss) p (engine_snapshot e) slot req started_ctx = (c, sel)"
      by fastforce
    from select_target_keeps [OF sel] have "ctx_started c" "\<not> ctx_error_counted c"
      by (simp_all add: new_ctx_def)
    moreover from this have "accounted tel (request_started tel) c" by (rule started_accounted)
    ultimately show ?thesis
      using Some sel start
      by (auto simp: request_filter_def Let_def reject_accounted
          split: selection.splits option.splits intro!: dispatch_accounted)
  qed
qed

text \<open>The calls Pingora may make between the request filter and the final \<open>logging\<close>.\<close>

datatype callback = BodyChunk "string option" | ProxyFailed bool

fun run_callback :: "'h session \<Rightarrow> apmpr_proxy \<Rightarrow> callback \<Rightarrow> telemetry \<times> request_context
     \<Rightarrow> telemetry \<times> request_context" where
  "run_callback ss p (BodyChunk body) (tel, ctx) =
     (tel, fst (request_body_filter (ap_options p) body ctx))"
| "run_callback ss p (ProxyFailed upstream) (tel, ctx) =
     (let (tel', ctx', _) = fail_to_proxy ss upstream tel ctx in (tel', ctx'))"

lemma run_callback_accounted:
  "accounted tel0 (fst st) (snd st) \<Longrightarrow>
     accounted tel0 (fst (run_callback ss p cb st)) (snd (run_callback ss p cb st))"
  by (cases st; cases cb)
    (auto simp: accounting_defs request_body_filter_def fail_to_proxy_def Let_def)

lemma run_callbacks_accounted:
  "accounted tel0 (fst st) (snd st) \<Longrightarrow>
     accounted tel0 (fst (fold (run_callback ss p) cbs st)) (snd (fold (run_callback ss p) cbs st))"
  by (induction cbs arbitrary: st) (auto simp: run_callback_accounted)

lemma logging_accounted:
  "accounted tel0 tel ctx \<Longrightarrow> accounted tel0 (fst (logging failed tel ctx)) (snd (logging failed tel ctx))
     \<and> \<not> ctx_started (snd (logging failed tel ctx))
     \<and> (failed \<longrightarrow> ctx_error_counted (snd (logging failed tel ctx)))"
  by (auto simp: logging_def accounting_defs Let_def)

definition callbacks_done ::
  "'h session \<Rightarrow> apmpr_proxy \<Rightarrow> route_engine \<Rightarrow> 'h request_header \<Rightarrow> callback list \<Rightarrow> telemetry
     \<Rightarrow> telemetry \<times> request_context" where
  "callbacks_done ss p e req cbs tel =
     (let out = request_filter ss p e req tel new_ctx
      in fold (run_callback ss p) cbs (out_telemetry out, out_ctx out))"

definition request_served ::
  "'h session \<Rightarrow> apmpr_proxy \<Rightarrow> route_engine \<Rightarrow> 'h request_header \<Rightarrow> callback list \<Rightarrow> bool
     \<Rightarrow> telemetry \<Rightarrow> telemetry" where
  "request_served ss p e req cbs failed tel =
     (let (tel', ctx) = callbacks_done ss p e req cbs tel in fst (logging failed tel' ctx))"

text \<open>
  C20. Request accounting: whatever \<open>request_filter\<close> decides, whichever body and failure
  callbacks follow and however the request ends, once \<open>logging\<close> has run the request has been
  counted exactly once, the number of active requests is back where it was, and at most one
  error has been counted for it - exactly one when the request failed or was rejected.
\<close>

theorem request_accounting:
  "tel_requests (request_served ss p e req cbs failed tel) = tel_requests tel + 1 \<and>
   tel_active (request_served ss p e req cbs failed tel) = tel_active tel \<and>
   tel_errors (request_served ss p e req cbs failed tel) = tel_errors tel +
     (if failed \<or> ctx_error_counted (snd (callbacks_done ss p e req cbs tel)) then 1 else 0)"
proof -
  obtain tel' ctx where st: "callbacks_done ss p e req cbs tel = (tel', ctx)" by fastforce
  have "accounted tel (fst (callbacks_done ss p e req cbs tel)) (snd (callbacks_done ss p e req cbs tel))"
    unfolding callbacks_done_def Let_def
    by (rule run_callbacks_accounted) (simp add: request_filter_accounted)
  then have acc: "accounted tel tel' ctx" by (simp add: st)
  have "ctx_error_counted (snd (logging failed tel' ctx)) = (failed \<or> ctx_error_counted ctx)"
    by (auto simp: logging_def Let_def)
  with logging_accounted [OF acc, of failed] show ?thesis
    by (auto simp: accounted_def request_served_def st)
qed

text \<open>
  The event log keeps the newest events: after any sequence of recorded events it holds
  exactly the last ones, oldest first, up to its capacity (none when the capacity is zero).
\<close>

theorem event_log_keeps_newest:
  "tel_events (fold record_event es (telemetry_new capacity)) = last_n capacity es"
  using data_plane_log.run_log [of "telemetry_new capacity" es]
  by (simp add: telemetry_new_def data_plane_entries)

section \<open>The body limit\<close>

text \<open>The body filter is called chunk by chunk and the first refusal ends the request.\<close>

fun filter_body :: "proxy_options \<Rightarrow> string list \<Rightarrow> request_context \<Rightarrow> request_context \<times> bool" where
  "filter_body options [] ctx = (ctx, True)"
| "filter_body options (chunk # chunks) ctx =
     (case request_body_filter options (Some chunk) ctx of
        (ctx', ok) \<Rightarrow> if ok then filter_body options chunks ctx' else (ctx', False))"

lemma filter_body_total:
  assumes "opt_max_request_body_bytes options < USIZE_MAX"
    and "ctx_body_bytes ctx \<le> opt_max_request_body_bytes options"
  shows "snd (filter_body options chunks ctx) \<longleftrightarrow>
     ctx_body_bytes ctx + length (concat chunks) \<le> opt_max_request_body_bytes options"
  using assms
  by (induction chunks arbitrary: ctx)
    (auto simp: request_body_filter_def Let_def saturating_add_def min_def)

lemma filter_body_rejects:
  "\<not> snd (filter_body options chunks ctx) \<Longrightarrow>
     map_option rej_status (ctx_rejection (fst (filter_body options chunks ctx))) = Some 413"
  by (induction chunks arbitrary: ctx)
    (auto simp: request_body_filter_def Let_def split: if_splits)

text \<open>
  C21. The body limit: a request body, however it is split into chunks, is accepted exactly
  when its total length is within the limit; otherwise the request is marked for the answer
  413. (The limit is below the largest \<open>usize\<close>, at which the saturating count stops.)
\<close>

theorem body_limit_exact:
  assumes "opt_max_request_body_bytes options < USIZE_MAX"
  shows "(snd (filter_body options chunks new_ctx) \<longleftrightarrow>
       length (concat chunks) \<le> opt_max_request_body_bytes options) \<and>
     (\<not> snd (filter_body options chunks new_ctx) \<longrightarrow>
        map_option rej_status (ctx_rejection (fst (filter_body options chunks new_ctx))) = Some 413)"
  using filter_body_total [OF assms, of new_ctx chunks] filter_body_rejects
  by (auto simp: new_ctx_def)

theorem body_limit_exact_witness:
  "snd (filter_body default_proxy_options [''ab'', ''c''] new_ctx)"
proof -
  have "opt_max_request_body_bytes default_proxy_options < USIZE_MAX" by code_simp
  from body_limit_exact [OF this, of "[''ab'', ''c'']"] show ?thesis
    by (simp add: default_proxy_options_def)
qed

end
