(* ===== verification/Json.thy ===== *)
theory Json
  imports Prelude "HOL-Library.Sublist"
begin

text \<open>
  \<open>serde_json::Value\<close>. A number is one of the three cases of \<open>serde_json::Number\<close> (a float
  is kept as its bits); the members of an object are listed in iteration order.
  \<open>occurs\<close> says that a member appears at some depth, and \<open>guarded\<close> is the shape of the
  policies on members the program enforces.
\<close>

datatype json_number = PosInt u64 | NegInt u64 | Float u64

datatype json =
    JNull
  | JBool bool
  | JNum json_number
  | JStr string
  | JArr "json list"
  | JObj "(string \<times> json) list"

abbreviation JUInt :: "u64 \<Rightarrow> json" where
  "JUInt n \<equiv> JNum (PosInt n)"

text \<open>\<open>occurs k v j\<close>: somewhere in the value \<open>j\<close> an object has the member \<open>k: v\<close>.\<close>

inductive occurs :: "string \<Rightarrow> json \<Rightarrow> json \<Rightarrow> bool" where
  here: "(k, v) \<in> set ms \<Longrightarrow> occurs k v (JObj ms)"
| in_member: "(k', j) \<in> set ms \<Longrightarrow> occurs k v j \<Longrightarrow> occurs k v (JObj ms)"
| in_array: "j \<in> set js \<Longrightarrow> occurs k v j \<Longrightarrow> occurs k v (JArr js)"

inductive_cases occurs_objE: "occurs k v (JObj ms)"
inductive_cases occurs_arrE: "occurs k v (JArr js)"
inductive_simps occurs_atom [simp]:
  "occurs k v JNull" "occurs k v (JBool b)" "occurs k v (JNum n)" "occurs k v (JStr s)"

definition guarded :: "(string \<Rightarrow> json \<Rightarrow> bool) \<Rightarrow> json \<Rightarrow> bool" where
  "guarded ok j \<longleftrightarrow> (\<forall>k v. occurs k v j \<longrightarrow> ok k v)"

lemma guarded_obj: "guarded ok (JObj ms) \<longleftrightarrow> (\<forall>(k, v)\<in>set ms. ok k v \<and> guarded ok v)"
  unfolding guarded_def by (blast elim: occurs_objE intro: occurs.intros | clarify)+

lemma guarded_arr: "guarded ok (JArr js) \<longleftrightarrow> (\<forall>j\<in>set js. guarded ok j)"
  unfolding guarded_def by (blast elim: occurs_arrE intro: occurs.intros | clarify)+

lemma guarded_atom [simp]:
  "guarded ok JNull" "guarded ok (JBool b)" "guarded ok (JNum n)" "guarded ok (JStr s)"
  by (simp_all add: guarded_def)

lemmas guarded_simps = guarded_obj guarded_arr

end
