(* ===== verification/TransparentTcp.thy ===== *)
theory TransparentTcp
  imports NetAddr
begin

text \<open>
  Transparent same-port forwarding of \<open>crates/router-tcp/src/lib.rs\<close>: the listener
  registry read from \<open>/proc/net/tcp\<close> and exchanged between sidecars as text, the
  observation of group members, and the decision of \<open>forward_transparent\<close> where an
  intercepted connection goes.

  The operating system is a parameter: \<open>read_to_string\<close> gives the content of a file or
  fails, \<open>registry_reply\<close> the bytes a host's registry port answers within the timeout, and
  \<open>reach n d\<close> whether the \<open>n\<close>-th connection attempt of this call, made to \<open>d\<close>,
  succeeds within the timeout; the attempt number lets the network change between attempts.
\<close>

type_synonym port_set = "u16 list"

definition TRANSPARENT_REGISTRY_PORT :: u16 where
  "TRANSPARENT_REGISTRY_PORT = 65534"

record transparent_target =
  tt_component :: string
  tt_host :: string
  tt_local :: bool
  tt_declared_ports :: "port_set option"

definition target_new :: "string \<Rightarrow> string \<Rightarrow> bool \<Rightarrow> transparent_target" where
  "target_new component host is_local =
     \<lparr>tt_component = component, tt_host = host, tt_local = is_local, tt_declared_ports = None\<rparr>"

definition with_declared_ports :: "transparent_target \<Rightarrow> u16 list \<Rightarrow> transparent_target" where
  "with_declared_ports t ports = t\<lparr>tt_declared_ports := Some (fold insort_insert ports [])\<rparr>"

definition declares_port :: "transparent_target \<Rightarrow> u16 \<Rightarrow> bool option" where
  "declares_port t port = map_option (\<lambda>ports. port \<in> set ports) (tt_declared_ports t)"

section \<open>The listener registry\<close>

text \<open>\<open>str::lines\<close>: a carriage return is dropped only before a newline.\<close>

definition strip_cr :: "string \<Rightarrow> string" where
  "strip_cr s = (if s \<noteq> [] \<and> last s = CHR 0x0D then butlast s else s)"

definition str_lines :: "string \<Rightarrow> string list" where
  "str_lines s =
     (let pieces = split_char CHR 0x0A s
      in map strip_cr (butlast pieces) @ (if last pieces = [] then [] else [last pieces]))"

text \<open>\<open>str::split_whitespace\<close> on the ASCII text of the kernel's tables.\<close>

function split_whitespace :: "string \<Rightarrow> string list" where
  "split_whitespace [] = []"
| "split_whitespace (c # cs) =
     (if is_ascii_whitespace c then split_whitespace cs
      else (c # takeWhile (\<lambda>x. \<not> is_ascii_whitespace x) cs)
           # split_whitespace (dropWhile (\<lambda>x. \<not> is_ascii_whitespace x) cs))"
  by pat_completeness auto
termination
  by (relation "measure length") (auto simp: less_Suc_eq_le length_dropWhile_le)

definition line_port :: "port_set \<Rightarrow> string \<Rightarrow> u16 option" where
  "line_port excluded line =
     (let columns = split_whitespace line
      in if length columns < 4 \<or> columns ! 3 \<noteq> ''0A'' then None
         else case rsplit_once CHR '':'' (columns ! 1) of
                None \<Rightarrow> None
              | Some (_, encoded_port) \<Rightarrow>
                  (case parse_u16 16 encoded_port of
                     None \<Rightarrow> None
                   | Some port \<Rightarrow>
                       if port \<noteq> TRANSPARENT_REGISTRY_PORT \<and> port \<notin> set excluded
                       then Some port else None))"

definition add_line :: "port_set \<Rightarrow> string \<Rightarrow> port_set \<Rightarrow> port_set" where
  "add_line excluded line ports =
     (case line_port excluded line of None \<Rightarrow> ports | Some port \<Rightarrow> insort_insert port ports)"

definition table_ports :: "port_set \<Rightarrow> string \<Rightarrow> port_set \<Rightarrow> port_set" where
  "table_ports excluded table ports = fold (add_line excluded) (drop 1 (str_lines table)) ports"

definition listening_ports ::
  "(string \<Rightarrow> 'e + string) \<Rightarrow> port_set \<Rightarrow> 'e + port_set" where
  "listening_ports read_to_string excluded =
     (case read_to_string ''/proc/net/tcp'' of
        Inl e \<Rightarrow> Inl e
      | Inr tcp \<Rightarrow>
          (let ports = table_ports excluded tcp []
           in case read_to_string ''/proc/net/tcp6'' of
                Inl e \<Rightarrow> Inl e
              | Inr tcp6 \<Rightarrow> Inr (table_ports excluded tcp6 ports)))"

definition encode_ports :: "port_set \<Rightarrow> string" where
  "encode_ports ports = join '','' (map u16_to_string ports)"

text \<open>
  The reply is decoded from its bytes: a reply that is not UTF-8 contains a byte that is no
  digit and fails in the number parser as it would in the UTF-8 check.
\<close>

fun collect_ports :: "string list \<Rightarrow> port_set \<Rightarrow> port_set option" where
  "collect_ports [] acc = Some acc"
| "collect_ports (s # ss) acc =
     (case parse_u16 10 s of None \<Rightarrow> None | Some p \<Rightarrow> collect_ports ss (insort_insert p acc))"

definition observed_listeners :: "(string \<Rightarrow> string option) \<Rightarrow> string \<Rightarrow> port_set option" where
  "observed_listeners registry_reply host =
     (case registry_reply host of
        None \<Rightarrow> None
      | Some value \<Rightarrow> collect_ports (filter (\<lambda>s. s \<noteq> []) (split_char CHR '','' value)) [])"

section \<open>Observing the members\<close>

definition observe_target ::
  "(string \<Rightarrow> 'e + string) \<Rightarrow> (string \<Rightarrow> string option) \<Rightarrow> port_set \<Rightarrow> u16
     \<Rightarrow> transparent_target \<Rightarrow> bool" where
  "observe_target read_to_string registry_reply excluded port t =
     (let ports =
        (case tt_declared_ports t of
           Some ports \<Rightarrow> Some ports
         | None \<Rightarrow>
             if tt_local t
             then (case listening_ports read_to_string excluded of Inl _ \<Rightarrow> None | Inr ps \<Rightarrow> Some ps)
             else observed_listeners registry_reply (tt_host t))
      in case ports of None \<Rightarrow> False | Some ps \<Rightarrow> port \<in> set ps)"

text \<open>
  The checks run as one task per member and are collected in the order they complete, each
  with its index.
\<close>

definition collect_observations :: "nat \<Rightarrow> (nat \<times> bool) list \<Rightarrow> bool list" where
  "collect_observations n arrivals = fold (\<lambda>(i, b) v. v[i := b]) arrivals (replicate n False)"

section \<open>Connecting\<close>

datatype dial = DialLoopback ip_addr u16 | DialHost string u16

fun dial_port :: "dial \<Rightarrow> u16" where
  "dial_port (DialLoopback _ p) = p"
| "dial_port (DialHost _ p) = p"

definition localhost_v4 :: ip_addr where
  "localhost_v4 = V4 2130706433"

definition localhost_v6 :: ip_addr where
  "localhost_v6 = V6 1"

text \<open>A loop of attempts that stops at the first success: the dial, and the attempts used.\<close>

fun try_dials :: "(nat \<Rightarrow> dial \<Rightarrow> bool) \<Rightarrow> nat \<Rightarrow> dial list \<Rightarrow> dial option \<times> nat" where
  "try_dials reach n [] = (None, n)"
| "try_dials reach n (d # ds) =
     (if reach n d then (Some d, Suc n) else try_dials reach (Suc n) ds)"

definition target_dials :: "transparent_target \<Rightarrow> u16 \<Rightarrow> dial list" where
  "target_dials t port =
     (if tt_local t then [DialLoopback localhost_v4 port, DialLoopback localhost_v6 port]
      else [DialHost (tt_host t) port])"

definition connect_target ::
  "(nat \<Rightarrow> dial \<Rightarrow> bool) \<Rightarrow> nat \<Rightarrow> transparent_target \<Rightarrow> u16 \<Rightarrow> dial option \<times> nat" where
  "connect_target reach n t port = try_dials reach n (target_dials t port)"

section \<open>The forwarding decision\<close>

datatype forward_outcome =
    RegistryReply string
  | RegistryUnreadable
  | Forwarded "nat option" dial
  | NotListening
  | NoActiveMember

text \<open>\<open>for index in active { ... }\<close>\<close>

fun try_active ::
  "(nat \<Rightarrow> dial \<Rightarrow> bool) \<Rightarrow> nat \<Rightarrow> transparent_target list \<Rightarrow> u16 \<Rightarrow> nat list
     \<Rightarrow> (nat \<times> dial) option \<times> nat" where
  "try_active reach n targets port [] = (None, n)"
| "try_active reach n targets port (i # is) =
     (case connect_target reach n (targets ! i) port of
        (Some d, n') \<Rightarrow> (Some (i, d), n')
      | (None, n') \<Rightarrow> try_active reach n' targets port is)"

text \<open>\<open>for (index, target) in targets.into_iter().enumerate() { ... }\<close>\<close>

fun try_unobserved ::
  "(nat \<Rightarrow> dial \<Rightarrow> bool) \<Rightarrow> nat \<Rightarrow> bool list \<Rightarrow> u16 \<Rightarrow> nat \<Rightarrow> transparent_target list
     \<Rightarrow> (nat \<times> dial) option \<times> nat" where
  "try_unobserved reach n observed port i [] = (None, n)"
| "try_unobserved reach n observed port i (t # ts) =
     (if i < length observed \<and> observed ! i then try_unobserved reach n observed port (Suc i) ts
      else if declares_port t port = Some False
      then try_unobserved reach n observed port (Suc i) ts
      else case connect_target reach n t port of
             (Some d, n') \<Rightarrow> (Some (i, d), n')
           | (None, n') \<Rightarrow> try_unobserved reach n' observed port (Suc i) ts)"

definition local_destinations :: "ip_addr \<Rightarrow> u16 \<Rightarrow> dial list" where
  "local_destinations original_ip port =
     (if is_ipv4 original_ip
      then [DialLoopback localhost_v4 port, DialLoopback localhost_v6 port]
      else [DialLoopback localhost_v6 port, DialLoopback localhost_v4 port])"

definition active_members :: "bool list \<Rightarrow> nat list" where
  "active_members observed = filter (\<lambda>i. observed ! i) [0..<length observed]"

definition forward_transparent ::
  "(string \<Rightarrow> 'e + string) \<Rightarrow> (string \<Rightarrow> string option) \<Rightarrow> (nat \<Rightarrow> dial \<Rightarrow> bool)
     \<Rightarrow> (ip_addr \<times> u16) \<Rightarrow> transparent_target list \<Rightarrow> port_set \<Rightarrow> forward_outcome" where
  "forward_transparent read_to_string registry_reply reach original targets excluded =
     (let (ip, port) = original
      in if \<not> is_loopback ip \<and> port = TRANSPARENT_REGISTRY_PORT
         then (case listening_ports read_to_string excluded of
                 Inl _ \<Rightarrow> RegistryUnreadable
               | Inr ports \<Rightarrow> RegistryReply (encode_ports ports))
         else if \<not> is_loopback ip
         then (case try_dials reach 0 (local_destinations ip port) of
                 (Some d, _) \<Rightarrow> Forwarded None d
               | (None, _) \<Rightarrow> NotListening)
         else (let observed =
                 map (observe_target read_to_string registry_reply excluded port) targets
               in case try_active reach 0 targets port (active_members observed) of
                    (Some (i, d), _) \<Rightarrow> Forwarded (Some i) d
                  | (None, n) \<Rightarrow>
                      (case try_unobserved reach n observed port 0 targets of
                         (Some (i, d), _) \<Rightarrow> Forwarded (Some i) d
                       | (None, n') \<Rightarrow>
                           (case try_dials reach n' (local_destinations ip port) of
                              (Some d, _) \<Rightarrow> Forwarded None d
                            | (None, _) \<Rightarrow> NoActiveMember))))"

section \<open>The attempts a connection makes\<close>

definition labelled :: "transparent_target list \<Rightarrow> u16 \<Rightarrow> nat list \<Rightarrow> (nat option \<times> dial) list" where
  "labelled targets port is =
     concat (map (\<lambda>i. map (Pair (Some i)) (target_dials (targets ! i) port)) is)"

definition candidates :: "transparent_target list \<Rightarrow> bool list \<Rightarrow> u16 \<Rightarrow> nat \<Rightarrow> nat list" where
  "candidates targets observed port n =
     filter (\<lambda>i. \<not> observed ! i \<and> declares_port (targets ! i) port \<noteq> Some False) [n..<length targets]"

text \<open>
  The order of the specification: the members observed listening on the port, in group
  order; then the other members that do not rule the port out, in group order; then the
  instance's own localhost, in the address family of the original destination first.
\<close>

definition attempt_plan ::
  "transparent_target list \<Rightarrow> bool list \<Rightarrow> ip_addr \<Rightarrow> u16 \<Rightarrow> (nat option \<times> dial) list" where
  "attempt_plan targets observed ip port =
     labelled targets port (filter (\<lambda>i. observed ! i) [0..<length targets])
     @ labelled targets port (candidates targets observed port 0)
     @ (if is_ipv4 ip
        then [(None, DialLoopback localhost_v4 port), (None, DialLoopback localhost_v6 port)]
        else [(None, DialLoopback localhost_v6 port), (None, DialLoopback localhost_v4 port)])"

fun first_reachable ::
  "(nat \<Rightarrow> dial \<Rightarrow> bool) \<Rightarrow> nat \<Rightarrow> ('a \<times> dial) list \<Rightarrow> ('a \<times> dial) option \<times> nat" where
  "first_reachable reach n [] = (None, n)"
| "first_reachable reach n (x # xs) =
     (if reach n (snd x) then (Some x, Suc n) else first_reachable reach (Suc n) xs)"

lemma first_reachable_append:
  "first_reachable reach n (xs @ ys) =
     (case first_reachable reach n xs of
        (Some x, n') \<Rightarrow> (Some x, n') | (None, n') \<Rightarrow> first_reachable reach n' ys)"
  by (induction xs arbitrary: n) auto

lemma first_reachable_labels:
  "first_reachable reach n (map (Pair a) ds) =
     map_prod (map_option (Pair a)) id (try_dials reach n ds)"
  by (induction ds arbitrary: n) auto

lemma try_active_plan:
  "map_prod (map_option (map_prod Some id)) id (try_active reach n targets port is) =
     first_reachable reach n (labelled targets port is)"
  by (induction "is" arbitrary: n)
    (auto simp: labelled_def first_reachable_append first_reachable_labels connect_target_def
      split: prod.splits option.splits)

lemma candidates_step:
  "n < length targets \<Longrightarrow> candidates targets observed port n =
     (if observed ! n \<or> declares_port (targets ! n) port = Some False then []
      else [n]) @ candidates targets observed port (Suc n)"
  by (simp add: candidates_def upt_conv_Cons)

lemma try_unobserved_plan:
  assumes "length observed = length targets"
  shows "map_prod (map_option (map_prod Some id)) id
      (try_unobserved reach n observed port i (drop i targets)) =
     first_reachable reach n (labelled targets port (candidates targets observed port i))"
proof (induction "length targets - i" arbitrary: i n)
  case 0
  then show ?case by (simp add: candidates_def labelled_def)
next
  case (Suc k)
  then have i: "i < length targets" by simp
  have IH: "map_prod (map_option (map_prod Some id)) id
      (try_unobserved reach m observed port (Suc i) (drop (Suc i) targets)) =
     first_reachable reach m (labelled targets port (candidates targets observed port (Suc i)))" for m
    using Suc by simp
  note drop = Cons_nth_drop_Suc [OF i, symmetric]
  have lab: "labelled targets port ([i] @ is) =
      map (Pair (Some i)) (target_dials (targets ! i) port) @ labelled targets port is" for "is"
    by (simp add: labelled_def)
  show ?case
    unfolding drop candidates_step [OF i]
    using assms i
    by (auto simp: IH [symmetric] lab first_reachable_append first_reachable_labels
        connect_target_def simp del: append_Cons split: prod.splits option.splits)
qed

lemma try_dials_plan:
  "try_dials reach n ds = map_prod (map_option snd) id (first_reachable reach n (map (Pair ()) ds))"
  by (induction ds arbitrary: n) auto

lemma forward_loopback:
  assumes "is_loopback ip"
  shows "forward_transparent rd reply reach (ip, port) targets excluded =
     (case fst (first_reachable reach 0 (attempt_plan targets
         (map (observe_target rd reply excluded port) targets) ip port)) of
        Some (who, d) \<Rightarrow> Forwarded who d | None \<Rightarrow> NoActiveMember)"
proof -
  let ?obs = "map (observe_target rd reply excluded port) targets"
  note 1 = try_active_plan [of reach 0 targets port "active_members ?obs", symmetric]
  note 2 = try_unobserved_plan [of ?obs targets reach _ port 0, symmetric, simplified]
  have plan: "attempt_plan targets ?obs ip port = labelled targets port (active_members ?obs)
      @ labelled targets port (candidates targets ?obs port 0)
      @ map (Pair None) (local_destinations ip port)"
    by (simp add: attempt_plan_def active_members_def local_destinations_def)
  show ?thesis
    unfolding plan
    using assms
    by (auto simp: forward_transparent_def first_reachable_append 1 2
        first_reachable_labels Let_def split: prod.splits option.splits)
qed

lemma first_reachable_Some:
  "fst (first_reachable reach n xs) = Some x \<longleftrightarrow>
     (\<exists>k < length xs. xs ! k = x \<and> reach (n + k) (snd x) \<and>
        (\<forall>j < k. \<not> reach (n + j) (snd (xs ! j))))"
proof (induction xs arbitrary: n)
  case Nil
  then show ?case by simp
next
  case (Cons y ys)
  show ?case
  proof (cases "reach n (snd y)")
    case True
    then show ?thesis by (auto simp: less_Suc_eq_0_disj)
  next
    case False
    then have "fst (first_reachable reach n (y # ys)) = Some x \<longleftrightarrow>
        (\<exists>k < length ys. ys ! k = x \<and> reach (Suc n + k) (snd x) \<and>
           (\<forall>j < k. \<not> reach (Suc n + j) (snd (ys ! j))))"
      by (simp add: Cons.IH)
    also have "\<dots> \<longleftrightarrow> (\<exists>k < length (y # ys). (y # ys) ! k = x \<and> reach (n + k) (snd x) \<and>
        (\<forall>j < k. \<not> reach (n + j) (snd ((y # ys) ! j))))"
      unfolding list.size(4) add_Suc_right add_0_right Ex_less_Suc2 All_less_Suc2
      using False by auto
    finally show ?thesis .
  qed
qed

section \<open>Registry lemmas\<close>

lemma set_insort_insert_fold:
  "set (fold insort_insert xs acc) = set xs \<union> set acc"
  by (induction xs arbitrary: acc) (auto simp: set_insort_insert)

lemma collect_ports_strings:
  "collect_ports (map u16_to_string ps) acc = Some (fold insort_insert ps acc)"
  by (induction ps arbitrary: acc) auto

lemma fold_insort_insert_sorted:
  assumes "sorted (acc @ ps)" and "distinct (acc @ ps)"
  shows "fold insort_insert ps acc = acc @ ps"
  using assms
proof (induction ps arbitrary: acc)
  case Nil
  then show ?case by simp
next
  case (Cons p ps)
  have "insort p acc = acc @ [p]"
    using Cons.prems by (intro sorted_insort_is_snoc) (auto simp: sorted_append)
  with Cons.prems have "insort_insert p acc = acc @ [p]"
    by (auto simp: insort_insert_key_def)
  with Cons.IH [of "acc @ [p]"] Cons.prems show ?case by simp
qed

lemma u16_to_string_no_comma: "CHR '','' \<notin> set (u16_to_string w)"
  using nat_to_string_digits [of "CHR '',''" "unat w"] by (auto simp: u16_to_string_def ascii_defs)

lemma u16_to_string_nonempty [simp]: "u16_to_string w \<noteq> []"
  by (simp add: u16_to_string_def)

lemma decode_encode_ports:
  assumes "sorted ps" and "distinct ps"
  shows "collect_ports (filter (\<lambda>s. s \<noteq> []) (split_char CHR '','' (encode_ports ps))) [] = Some ps"
proof (cases "ps = []")
  case True
  then show ?thesis by (simp add: encode_ports_def)
next
  case False
  then have "split_char CHR '','' (encode_ports ps) = map u16_to_string ps"
    unfolding encode_ports_def by (intro split_char_join) (auto simp: u16_to_string_no_comma)
  moreover have "filter (\<lambda>s. s \<noteq> []) (map u16_to_string ps) = map u16_to_string ps"
    by (auto simp: filter_id_conv)
  ultimately show ?thesis
    using fold_insort_insert_sorted [of "[]" ps] assms by (simp add: collect_ports_strings)
qed

definition ports_wf :: "port_set \<Rightarrow> bool" where
  "ports_wf ps \<longleftrightarrow> sorted ps \<and> distinct ps"

lemma add_line_wf: "ports_wf ps \<Longrightarrow> ports_wf (add_line excluded line ps)"
  by (auto simp: ports_wf_def add_line_def sorted_insort_insert distinct_insort_insert
      split: option.splits)

lemma table_ports_wf: "ports_wf ps \<Longrightarrow> ports_wf (table_ports excluded table ps)"
  unfolding table_ports_def by (rule fold_invariant [where Q = "\<lambda>_. True"]) (auto intro: add_line_wf)

lemma fold_add_line_set:
  "set (fold (add_line excluded) ls ps) = set ps \<union> {p. \<exists>l\<in>set ls. line_port excluded l = Some p}"
  by (induction ls arbitrary: ps) (auto simp: add_line_def set_insort_insert split: option.splits)

lemma listening_ports_wf: "listening_ports rd excluded = Inr ps \<Longrightarrow> ports_wf ps"
  by (auto simp: listening_ports_def Let_def ports_wf_def [of "[]"] intro!: table_ports_wf
      split: sum.splits)

lemma line_port_allowed:
  "line_port excluded line = Some p \<Longrightarrow> p \<noteq> TRANSPARENT_REGISTRY_PORT \<and> p \<notin> set excluded"
  by (auto simp: line_port_def Let_def split: if_splits option.splits)

lemma collect_observations_nth:
  assumes "distinct (map fst arrivals)"
  shows "length (fold (\<lambda>(i, b) v. v[i := b]) arrivals v) = length v"
    and "i < length v \<Longrightarrow> fold (\<lambda>(i, b) v. v[i := b]) arrivals v ! i =
       (case map_of arrivals i of None \<Rightarrow> v ! i | Some b \<Rightarrow> b)"
  using assms
proof (induction arrivals arbitrary: v)
  case Nil
  {
    case 1
    show ?case by simp
  next
    case 2
    show ?case by simp
  }
next
  case (Cons a as)
  {
    case 1
    with Cons.IH show ?case by (cases a) simp
  next
    case 2
    obtain k b where a: "a = (k, b)" by fastforce
    with 2 have "map_of as k = None" by (simp add: map_of_eq_None_iff)
    with 2 a show ?case
      using Cons.IH(2) [of "v[k := b]"] by (cases "i = k") (simp_all split: option.split)
  }
qed

section \<open>Properties\<close>

text \<open>
  C9. Group priority: an intercepted loopback connection is forwarded to exactly the first
  destination of the attempt plan that accepts it: members observed listening, in listed order, then
  the members that do not rule the port out, in listed order, then the instance's own
  localhost. Every earlier destination of the plan has been tried and has refused.
\<close>

theorem forward_first_in_plan:
  assumes "is_loopback ip"
    and plan: "plan = attempt_plan targets (map (observe_target rd reply excluded port) targets) ip port"
  shows "forward_transparent rd reply reach (ip, port) targets excluded = Forwarded who d \<longleftrightarrow>
     (\<exists>k < length plan. plan ! k = (who, d) \<and> reach k d \<and> (\<forall>j < k. \<not> reach j (snd (plan ! j))))"
proof -
  have "forward_transparent rd reply reach (ip, port) targets excluded = Forwarded who d \<longleftrightarrow>
      fst (first_reachable reach 0 plan) = Some (who, d)"
    unfolding plan forward_loopback [OF assms(1)] by (auto split: option.splits)
  then show ?thesis by (simp add: first_reachable_Some)
qed

definition sample_targets :: "transparent_target list" where
  "sample_targets =
     [with_declared_ports (target_new ''db-feature'' ''10.0.0.2'' False) [5432],
      with_declared_ports (target_new ''db-main'' ''10.0.0.3'' False) [5432, 8001],
      target_new ''ui-1/http'' ''ui-1'' True]"

text \<open>An environment without registry where only remote hosts other than 10.0.0.2 answer.\<close>

definition sample_read :: "string \<Rightarrow> string + string" where
  "sample_read path = Inl ''missing''"

definition sample_reply :: "string \<Rightarrow> string option" where
  "sample_reply host = None"

definition sample_reach :: "nat \<Rightarrow> dial \<Rightarrow> bool" where
  "sample_reach n d =
     (case d of DialHost host port \<Rightarrow> host \<noteq> ''10.0.0.2'' | DialLoopback ip port \<Rightarrow> False)"

theorem forward_first_in_plan_witness:
  "\<exists>k < length (attempt_plan sample_targets [True, True, False] localhost_v4 5432).
     attempt_plan sample_targets [True, True, False] localhost_v4 5432 ! k =
       (Some 1, DialHost ''10.0.0.3'' 5432) \<and> sample_reach k (DialHost ''10.0.0.3'' 5432) \<and>
     (\<forall>j < k. \<not> sample_reach j (snd (attempt_plan sample_targets [True, True, False] localhost_v4 5432 ! j)))"
proof -
  have lo: "is_loopback localhost_v4" by (simp add: localhost_v4_def)
  have obs: "attempt_plan sample_targets [True, True, False] localhost_v4 5432 =
      attempt_plan sample_targets
        (map (observe_target sample_read sample_reply [] 5432) sample_targets) localhost_v4 5432"
    by code_simp
  have "forward_transparent sample_read sample_reply sample_reach (localhost_v4, 5432)
      sample_targets [] = Forwarded (Some 1) (DialHost ''10.0.0.3'' 5432)"
    by code_simp
  then show ?thesis by (simp only: forward_first_in_plan [OF lo obs])
qed

text \<open>
  C10. Isolation: a connection redirected from the deployment bridge (its original destination is not
  a loopback address) is an attempt to reach this member; outside the registry port it is
  forwarded to this member's own localhost on the same port or refused, never to another
  member of the group.
\<close>

theorem bridge_connections_stay_local:
  assumes "\<not> is_loopback ip" and "port \<noteq> TRANSPARENT_REGISTRY_PORT"
  shows "forward_transparent rd reply reach (ip, port) targets excluded \<in>
     {NotListening, Forwarded None (DialLoopback localhost_v4 port),
      Forwarded None (DialLoopback localhost_v6 port)}"
  using assms
  by (auto simp: forward_transparent_def local_destinations_def split: if_splits)

theorem bridge_connections_stay_local_witness:
  "forward_transparent sample_read sample_reply (\<lambda>_ _. True) (V4 167772162, 5432) sample_targets [] \<in>
     {NotListening, Forwarded None (DialLoopback localhost_v4 5432),
      Forwarded None (DialLoopback localhost_v6 5432)}"
  by (rule bridge_connections_stay_local) (simp_all add: TRANSPARENT_REGISTRY_PORT_def)

lemma labelled_member:
  "(who, d) \<in> set (labelled targets port is) \<longleftrightarrow>
     (\<exists>i\<in>set is. who = Some i \<and> d \<in> set (target_dials (targets ! i) port))"
  by (auto simp: labelled_def)

lemma plan_entry:
  assumes "(who, d) \<in> set (attempt_plan targets
      (map (observe_target rd reply excluded port) targets) ip port)"
  shows "dial_port d = port \<and>
     (case who of None \<Rightarrow> True
      | Some i \<Rightarrow> i < length targets \<and> declares_port (targets ! i) port \<noteq> Some False)"
proof -
  have "declares_port t port \<noteq> Some False" if "observe_target rd reply excluded port t" for t
    using that by (auto simp: observe_target_def declares_port_def split: option.splits)
  with assms show ?thesis
    by (auto simp: attempt_plan_def labelled_member candidates_def
        target_dials_def local_destinations_def split: if_splits)
qed

text \<open>
  Port-for-port forwarding that respects declarations: whatever destination an intercepted
  connection reaches, the port is the original one, and a group member that declares its ports
  without this one is never chosen.
\<close>

theorem forward_same_port:
  assumes "forward_transparent rd reply reach (ip, port) targets excluded = Forwarded who d"
  shows "dial_port d = port \<and>
     (case who of None \<Rightarrow> True
      | Some i \<Rightarrow> i < length targets \<and> declares_port (targets ! i) port \<noteq> Some False)"
proof (cases "is_loopback ip")
  case True
  let ?plan = "attempt_plan targets (map (observe_target rd reply excluded port) targets) ip port"
  from assms have "fst (first_reachable reach 0 ?plan) = Some (who, d)"
    unfolding forward_loopback [OF True] by (auto split: option.splits)
  then have "(who, d) \<in> set ?plan" by (auto simp: first_reachable_Some in_set_conv_nth)
  then show ?thesis by (rule plan_entry)
next
  case False
  with assms show ?thesis
    by (auto simp: forward_transparent_def local_destinations_def split: if_splits sum.splits)
qed

theorem forward_same_port_witness:
  "forward_transparent sample_read sample_reply sample_reach (localhost_v4, 8001) sample_targets [] =
     Forwarded (Some 1) (DialHost ''10.0.0.3'' 8001) \<and>
   dial_port (DialHost ''10.0.0.3'' 8001) = 8001 \<and>
   declares_port (sample_targets ! 1) 8001 \<noteq> Some False"
proof -
  have fwd: "forward_transparent sample_read sample_reply sample_reach (localhost_v4, 8001)
      sample_targets [] = Forwarded (Some 1) (DialHost ''10.0.0.3'' 8001)"
    by code_simp
  show ?thesis using fwd forward_same_port [OF fwd] by simp
qed

text \<open>
  C11. The registry exchange is a round trip: when a sidecar answers a registry request and another
  sidecar decodes that reply, the observer obtains exactly the ports the first one listens on.
\<close>

theorem registry_roundtrip:
  assumes "\<not> is_loopback ip"
    and "forward_transparent rd reply reach (ip, TRANSPARENT_REGISTRY_PORT) targets excluded =
       RegistryReply answer"
    and "reply' host = Some answer"
  shows "\<exists>ports. listening_ports rd excluded = Inr ports \<and>
     observed_listeners reply' host = Some ports"
proof -
  from assms(1,2) obtain ports where ports: "listening_ports rd excluded = Inr ports"
    and answer: "answer = encode_ports ports"
    by (auto simp: forward_transparent_def split: sum.splits)
  from listening_ports_wf [OF ports] have "sorted ports" "distinct ports"
    by (simp_all add: ports_wf_def)
  with ports show ?thesis
    by (auto simp: observed_listeners_def assms(3) answer decode_encode_ports)
qed

definition sample_proc :: "string \<Rightarrow> string + string" where
  "sample_proc path =
     (if path = ''/proc/net/tcp''
      then Inr (''  sl  local_address rem_address   st'' @ [CHR 0x0A] @
        ''   0: 0100007F:1F41 00000000:0000 0A 00'' @ [CHR 0x0A] @
        ''   1: 00000000:1538 00000000:0000 0A 00'' @ [CHR 0x0A] @
        ''   2: 0100007F:9999 0100007F:1F41 01 00'' @ [CHR 0x0A])
      else Inr (''  sl  local_address'' @ [CHR 0x0A]))"

theorem registry_roundtrip_witness:
  "\<exists>ports. listening_ports sample_proc [8001] = Inr ports \<and>
     observed_listeners (\<lambda>_. Some ''5432'') ''peer'' = Some ports"
proof (rule registry_roundtrip)
  show "\<not> is_loopback (V4 167772162)" by simp
  show "forward_transparent sample_proc sample_reply sample_reach
      (V4 167772162, TRANSPARENT_REGISTRY_PORT) [] [8001] = RegistryReply ''5432''"
    by code_simp
qed simp

text \<open>
  The ports a sidecar reports are exactly those of the LISTEN entries of both kernel tables that
  are neither the registry port nor excluded; they are reported in order without repetition.
\<close>

theorem listening_ports_exact:
  assumes "listening_ports rd excluded = Inr ports"
  shows "ports_wf ports \<and> TRANSPARENT_REGISTRY_PORT \<notin> set ports \<and> set ports \<inter> set excluded = {} \<and>
     (\<exists>tcp tcp6. rd ''/proc/net/tcp'' = Inr tcp \<and> rd ''/proc/net/tcp6'' = Inr tcp6 \<and>
        set ports = {p. \<exists>line\<in>set (drop 1 (str_lines tcp) @ drop 1 (str_lines tcp6)).
          line_port excluded line = Some p})"
proof -
  from assms obtain tcp tcp6 where rd: "rd ''/proc/net/tcp'' = Inr tcp" "rd ''/proc/net/tcp6'' = Inr tcp6"
    and ports: "ports = table_ports excluded tcp6 (table_ports excluded tcp [])"
    by (auto simp: listening_ports_def Let_def split: sum.splits)
  have set: "set ports = {p. \<exists>line\<in>set (drop 1 (str_lines tcp) @ drop 1 (str_lines tcp6)).
          line_port excluded line = Some p}"
    unfolding ports table_ports_def fold_add_line_set set_append by auto
  then have "TRANSPARENT_REGISTRY_PORT \<notin> set ports" and "set ports \<inter> set excluded = {}"
    by (auto dest: line_port_allowed)
  with rd set listening_ports_wf [OF assms] show ?thesis by blast
qed

theorem listening_ports_exact_witness:
  "listening_ports sample_proc [] = Inr [5432, 8001] \<and> ports_wf [5432, 8001 :: u16]"
proof -
  have ports: "listening_ports sample_proc [] = Inr [5432, 8001]" by code_simp
  show ?thesis using ports listening_ports_exact [OF ports] by blast
qed

text \<open>
  Observation does not depend on timing: in whatever order the concurrent member checks
  complete, the collected vector tells for every member whether it listens on the port.
\<close>

theorem observations_order_independent:
  assumes "distinct (map fst arrivals)"
    and "set arrivals = {(i, observe_target rd reply excluded port (targets ! i)) |i. i < length targets}"
  shows "collect_observations (length targets) arrivals =
     map (observe_target rd reply excluded port) targets"
proof (rule nth_equalityI)
  show "length (collect_observations (length targets) arrivals) =
      length (map (observe_target rd reply excluded port) targets)"
    by (simp add: collect_observations_def collect_observations_nth(1) [OF assms(1)])
next
  fix i
  assume "i < length (collect_observations (length targets) arrivals)"
  then have i: "i < length targets"
    by (simp add: collect_observations_def collect_observations_nth(1) [OF assms(1)])
  then have "map_of arrivals i = Some (observe_target rd reply excluded port (targets ! i))"
    using assms by (intro map_of_is_SomeI) auto
  with i show "collect_observations (length targets) arrivals ! i =
      map (observe_target rd reply excluded port) targets ! i"
    by (simp add: collect_observations_def collect_observations_nth(2) [OF assms(1)])
qed

theorem observations_order_independent_witness:
  "collect_observations (length sample_targets) [(2, False), (0, True), (1, True)] =
     map (observe_target sample_read sample_reply [] 5432) sample_targets"
proof (rule observations_order_independent)
  have obs: "map (observe_target sample_read sample_reply [] 5432) sample_targets = [True, True, False]"
    by code_simp
  have len: "length sample_targets = 3" by (simp add: sample_targets_def)
  have "{(i, observe_target sample_read sample_reply [] 5432 (sample_targets ! i)) |i.
      i < length sample_targets} =
      {(i, map (observe_target sample_read sample_reply [] 5432) sample_targets ! i) |i.
      i < length sample_targets}"
    by auto
  also have "\<dots> = set [(2, False), (0, True), (1, True)]"
    unfolding obs len by (auto simp: numeral_3_eq_3 less_Suc_eq)
  finally show "set [(2, False), (0, True), (1, True)] =
      {(i, observe_target sample_read sample_reply [] 5432 (sample_targets ! i)) |i.
        i < length sample_targets}" ..
qed simp

end
