(* ===== verification/TcpProxy.thy ===== *)
theory TcpProxy
  imports Prelude "HOL-Library.Sublist"
begin

text \<open>
  The reloadable TCP listener of \<open>crates/router-tcp/src/lib.rs\<close>: \<open>TcpProxy\<close> with its
  listener task, its connection tasks, the transition signalled by a reload, the counters,
  and the byte pump \<open>forward_until_idle\<close>/\<open>copy_direction\<close>.

  A connection task is identified by a number. Its \<open>watch\<close> channel holds at most one
  unseen policy (\<open>conn_signal\<close>); \<open>waiting\<close> lists the tasks whose sender the route state
  still refers to. A weak sender upgrades exactly while its task is alive, because the task
  owns the only strong reference. \<open>reload\<close> swaps the target and takes the waiting senders
  under the lock and signals them one by one afterwards: the signals not sent yet, of any
  number of concurrent reloads, are \<open>px_pending\<close>. The accept branch of the loop, the locked
  part of a reload, each signal and each turn of a connection task is one step; the
  scheduler interleaves them freely. Durations are kept as data; an elapsed timer is an
  event.
\<close>

section \<open>State\<close>

record tcp_target =
  tcp_host :: string
  tcp_port :: u16

datatype transition_policy = ClosePolicy | DrainPolicy u64 | PinPolicy

record tcp_counters =
  cnt_accepted :: u64
  cnt_active :: u64
  cnt_errors :: u64

datatype phase = Connecting | Forwarding | Draining | Pinned

record tcp_conn =
  conn_target :: tcp_target
  conn_phase :: phase
  conn_signal :: "transition_policy option"

record tcp_proxy =
  px_target :: tcp_target
  px_waiting :: "nat list"
  px_pending :: "(nat \<times> transition_policy) list"
  px_conns :: "(nat, tcp_conn) btree"
  px_counters :: tcp_counters
  px_accepting :: bool
  px_next :: nat

definition tcp_bind :: "tcp_target \<Rightarrow> tcp_proxy" where
  "tcp_bind target =
     \<lparr>px_target = target, px_waiting = [], px_pending = [], px_conns = bt_empty,
      px_counters = \<lparr>cnt_accepted = 0, cnt_active = 0, cnt_errors = 0\<rparr>,
      px_accepting = True, px_next = 0\<rparr>"

section \<open>Operations\<close>

definition telemetry_snapshot :: "tcp_proxy \<Rightarrow> u64 \<times> u64 \<times> u64" where
  "telemetry_snapshot p =
     (cnt_accepted (px_counters p), cnt_active (px_counters p), cnt_errors (px_counters p))"

text \<open>The accept branch of the listener loop.\<close>

definition accept_connection :: "tcp_proxy \<Rightarrow> tcp_proxy" where
  "accept_connection p =
     (let c = px_counters p; i = px_next p
      in p\<lparr>px_counters := c\<lparr>cnt_accepted := cnt_accepted c + 1, cnt_active := cnt_active c + 1\<rparr>,
           px_waiting := filter (\<lambda>j. bt_get (px_conns p) j \<noteq> None) (px_waiting p) @ [i],
           px_conns := bt_insert i \<lparr>conn_target = px_target p, conn_phase = Connecting,
             conn_signal = None\<rparr> (px_conns p),
           px_next := Suc i\<rparr>)"

definition send_transition :: "transition_policy \<Rightarrow> nat \<Rightarrow> (nat, tcp_conn) btree \<Rightarrow> (nat, tcp_conn) btree" where
  "send_transition policy i conns =
     (case bt_get conns i of
        None \<Rightarrow> conns
      | Some c \<Rightarrow> bt_insert i (c\<lparr>conn_signal := Some policy\<rparr>) conns)"

definition reload_take :: "tcp_target \<Rightarrow> transition_policy \<Rightarrow> tcp_proxy \<Rightarrow> tcp_proxy" where
  "reload_take target policy p =
     p\<lparr>px_target := target, px_waiting := [],
       px_pending := px_pending p @ map (\<lambda>i. (i, policy)) (px_waiting p)\<rparr>"

definition deliver :: "nat \<times> transition_policy \<Rightarrow> tcp_proxy \<Rightarrow> tcp_proxy" where
  "deliver s p =
     p\<lparr>px_pending := remove1 s (px_pending p),
       px_conns := send_transition (snd s) (fst s) (px_conns p)\<rparr>"

text \<open>A reload that runs to its end with nothing in between.\<close>

definition reload :: "tcp_target \<Rightarrow> transition_policy \<Rightarrow> tcp_proxy \<Rightarrow> tcp_proxy" where
  "reload target policy p =
     fold deliver (map (\<lambda>i. (i, policy)) (px_waiting p)) (reload_take target policy p)"

text \<open>What a connection task does next; \<open>Inr failed\<close> is the end of the task.\<close>

datatype conn_event = ConnectOk | ConnectFailed | ForwardEnded bool | SignalSeen | DrainExpired

fun proxy_connection :: "tcp_conn \<Rightarrow> conn_event \<Rightarrow> (tcp_conn + bool) option" where
  "proxy_connection c e =
     (case conn_phase c of
        Connecting \<Rightarrow>
          (case e of
             ConnectOk \<Rightarrow> Some (Inl (c\<lparr>conn_phase := Forwarding\<rparr>))
           | ConnectFailed \<Rightarrow> Some (Inr True)
           | _ \<Rightarrow> None)
      | Forwarding \<Rightarrow>
          (case e of
             ForwardEnded ok \<Rightarrow> Some (Inr (\<not> ok))
           | SignalSeen \<Rightarrow>
               (case conn_signal c of
                  None \<Rightarrow> None
                | Some ClosePolicy \<Rightarrow> Some (Inr False)
                | Some (DrainPolicy _) \<Rightarrow> Some (Inl (c\<lparr>conn_phase := Draining, conn_signal := None\<rparr>))
                | Some PinPolicy \<Rightarrow> Some (Inl (c\<lparr>conn_phase := Pinned, conn_signal := None\<rparr>)))
           | _ \<Rightarrow> None)
      | Draining \<Rightarrow>
          (case e of
             ForwardEnded ok \<Rightarrow> Some (Inr (\<not> ok))
           | DrainExpired \<Rightarrow> Some (Inr False)
           | _ \<Rightarrow> None)
      | Pinned \<Rightarrow> (case e of ForwardEnded ok \<Rightarrow> Some (Inr False) | _ \<Rightarrow> None))"

definition bt_remove :: "'k \<Rightarrow> ('k, 'v) btree \<Rightarrow> ('k, 'v) btree" where
  "bt_remove k m = filter (\<lambda>e. fst e \<noteq> k) m"

definition finish_connection :: "nat \<Rightarrow> bool \<Rightarrow> tcp_proxy \<Rightarrow> tcp_proxy" where
  "finish_connection i failed p =
     (let c = px_counters p
      in p\<lparr>px_conns := bt_remove i (px_conns p),
           px_counters := c\<lparr>cnt_active := cnt_active c - 1,
             cnt_errors := (if failed then cnt_errors c + 1 else cnt_errors c)\<rparr>\<rparr>)"

definition run_connection :: "nat \<Rightarrow> (tcp_conn + bool) \<Rightarrow> tcp_proxy \<Rightarrow> tcp_proxy" where
  "run_connection i r p =
     (case r of
        Inl c \<Rightarrow> p\<lparr>px_conns := bt_insert i c (px_conns p)\<rparr>
      | Inr failed \<Rightarrow> finish_connection i failed p)"

text \<open>
  An aborted task is dropped where it waits, which lowers the active counter only. Tasks are
  aborted when the listener task goes away: on an accept error, when the shutdown timeout
  elapses, or when the proxy is dropped.
\<close>

definition accept_failed :: "tcp_proxy \<Rightarrow> tcp_proxy" where
  "accept_failed p =
     (let c = px_counters p
      in p\<lparr>px_accepting := False, px_counters := c\<lparr>cnt_errors := cnt_errors c + 1\<rparr>\<rparr>)"

definition shutdown_requested :: "tcp_proxy \<Rightarrow> tcp_proxy" where
  "shutdown_requested p = p\<lparr>px_accepting := False\<rparr>"

inductive tcp_step :: "tcp_proxy \<Rightarrow> tcp_proxy \<Rightarrow> bool" where
  accept: "px_accepting p \<Longrightarrow> tcp_step p (accept_connection p)"
| accept_error: "px_accepting p \<Longrightarrow> tcp_step p (accept_failed p)"
| reload_take: "tcp_step p (reload_take target policy p)"
| deliver: "s \<in> set (px_pending p) \<Longrightarrow> tcp_step p (deliver s p)"
| connection: "bt_get (px_conns p) i = Some c \<Longrightarrow> proxy_connection c e = Some r \<Longrightarrow>
     tcp_step p (run_connection i r p)"
| shutdown: "tcp_step p (shutdown_requested p)"
| aborted: "\<not> px_accepting p \<Longrightarrow> bt_get (px_conns p) i = Some c \<Longrightarrow>
     tcp_step p (finish_connection i False p)"

inductive_cases tcp_stepE: "tcp_step p q"

inductive tcp_reachable :: "tcp_target \<Rightarrow> tcp_proxy \<Rightarrow> bool" for target where
  start: "tcp_reachable target (tcp_bind target)"
| step: "tcp_reachable target p \<Longrightarrow> tcp_step p q \<Longrightarrow> tcp_reachable target q"

section \<open>The byte pump\<close>

text \<open>
  \<open>copy_direction\<close>: a read yields bytes, the end of the stream (no bytes) or an error; a
  write of a whole chunk (and the final shutdown) succeeds, or fails after some of the bytes.
  The generation counter tells the idle timer that something moved.
\<close>

datatype read_result = Read string | ReadFailed

datatype write_result = WroteAll | WriteFailed nat

record pump =
  pump_written :: string
  pump_generation :: u64

datatype pump_end = PumpClosed | PumpError | PumpWaiting

fun copy_direction :: "read_result list \<Rightarrow> write_result list \<Rightarrow> pump \<Rightarrow> pump \<times> pump_end" where
  "copy_direction [] ws s = (s, PumpWaiting)"
| "copy_direction (ReadFailed # rs) ws s = (s, PumpError)"
| "copy_direction (Read [] # rs) ws s =
     (s, case ws of
           [] \<Rightarrow> PumpWaiting
         | WroteAll # _ \<Rightarrow> PumpClosed
         | WriteFailed _ # _ \<Rightarrow> PumpError)"
| "copy_direction (Read bytes # rs) ws s =
     (case ws of
        [] \<Rightarrow> (s, PumpWaiting)
      | WroteAll # ws' \<Rightarrow>
          copy_direction rs ws'
            (s\<lparr>pump_written := pump_written s @ bytes, pump_generation := pump_generation s + 1\<rparr>)
      | WriteFailed n # _ \<Rightarrow> (s\<lparr>pump_written := pump_written s @ take n bytes\<rparr>, PumpError))"

text \<open>
  \<open>forward_until_idle\<close>: each turn of the loop takes one ready branch; a direction that is
  done is disabled. The activity channel closes when both copying tasks have dropped their
  sender, that is, when both are done.
\<close>

datatype pump_event =
  LeftEnds bool | RightEnds bool | Activity | ActivityClosed | IdleElapsed

datatype forward_end = ForwardOk | ForwardError | ForwardIdle

fun forward_turn :: "bool \<times> bool \<Rightarrow> pump_event \<Rightarrow> ((bool \<times> bool) + forward_end) option" where
  "forward_turn (left, right) e =
     (case (case e of
              LeftEnds ok \<Rightarrow>
                if left then None else if ok then Some (Inl (True, right)) else Some (Inr ForwardError)
            | RightEnds ok \<Rightarrow>
                if right then None else if ok then Some (Inl (left, True)) else Some (Inr ForwardError)
            | Activity \<Rightarrow> Some (Inl (left, right))
            | ActivityClosed \<Rightarrow> if left \<and> right then Some (Inr ForwardOk) else None
            | IdleElapsed \<Rightarrow> Some (Inr ForwardIdle)) of
        Some (Inl (True, True)) \<Rightarrow> Some (Inr ForwardOk)
      | r \<Rightarrow> r)"

fun forward_until_idle :: "bool \<times> bool \<Rightarrow> pump_event list \<Rightarrow> forward_end option" where
  "forward_until_idle s [] = None"
| "forward_until_idle s (e # es) =
     (case forward_turn s e of
        None \<Rightarrow> None
      | Some (Inr r) \<Rightarrow> Some r
      | Some (Inl s') \<Rightarrow> forward_until_idle s' es)"

section \<open>Invariant\<close>

text \<open>A connection has been told about a reload: the policy is pending or already acted upon.\<close>

definition notified :: "tcp_conn \<Rightarrow> bool" where
  "notified c \<longleftrightarrow> conn_signal c \<noteq> None \<or> conn_phase c = Draining \<or> conn_phase c = Pinned"

definition awaiting :: "tcp_proxy \<Rightarrow> nat list" where
  "awaiting p = px_waiting p @ map fst (px_pending p)"

definition tcp_inv :: "tcp_proxy \<Rightarrow> bool" where
  "tcp_inv p \<longleftrightarrow>
     bt_inv (px_conns p) \<and>
     cnt_active (px_counters p) = word_of_nat (length (px_conns p)) \<and>
     distinct (awaiting p) \<and>
     (\<forall>i. i \<in> set (awaiting p) \<or> bt_get (px_conns p) i \<noteq> None \<longrightarrow> i < px_next p) \<and>
     (\<forall>i c. bt_get (px_conns p) i = Some c \<longrightarrow>
        (i \<in> set (awaiting p) \<longleftrightarrow> \<not> notified c) \<and>
        (i \<in> set (px_waiting p) \<longrightarrow> conn_target c = px_target p))"

lemma bt_remove_get: "bt_get (bt_remove k m) j = (if j = k then None else bt_get m j)"
  using map_of_filter_key [of "\<lambda>x. x \<noteq> k" m j] by (auto simp: bt_remove_def)

lemma bt_inv_remove: "bt_inv m \<Longrightarrow> bt_inv (bt_remove k m)"
  by (auto simp: bt_inv_def bt_remove_def sorted_wrt_map sorted_wrt_filter)

lemma length_bt_remove:
  assumes "bt_inv m" and "bt_get m k = Some v"
  shows "Suc (length (bt_remove k m)) = length m"
proof -
  have "k \<in> fst ` set m" using assms(2) by (force dest: map_of_SomeD)
  moreover have d: "distinct (map fst m)" by (rule bt_inv_distinct [OF assms(1)])
  have "length (bt_remove k m) = card (fst ` set (bt_remove k m))"
    using distinct_card [OF bt_inv_distinct [OF bt_inv_remove [OF assms(1)]]] by simp
  moreover have "fst ` set (bt_remove k m) = fst ` set m - {k}"
    by (auto simp: bt_remove_def)
  moreover have "card (fst ` set m) = length m" using distinct_card [OF d] by simp
  ultimately show ?thesis
    by (metis List.finite_set card_Suc_Diff1 finite_imageI)
qed

lemma length_bt_insert_present:
  "bt_inv m \<Longrightarrow> bt_get m k = Some v' \<Longrightarrow> length (bt_insert k v m) = length m"
  by (auto simp: length_bt_insert dest: map_of_SomeD intro: image_eqI [rotated])

lemma bt_keys: "k \<in> fst ` set m \<longleftrightarrow> bt_get m k \<noteq> None"
  by (simp add: map_of_eq_None_iff)

lemma send_transition_get:
  "bt_get (send_transition policy i conns) j =
     (if j = i then map_option (\<lambda>c. c\<lparr>conn_signal := Some policy\<rparr>) (bt_get conns j)
      else bt_get conns j)"
  by (auto simp: send_transition_def split: option.splits)

lemma send_transition_inv:
  "bt_inv conns \<Longrightarrow> bt_inv (send_transition policy i conns) \<and>
     length (send_transition policy i conns) = length conns"
  by (auto simp: send_transition_def bt_inv_insert length_bt_insert_present split: option.splits)

lemma remove1_keys:
  "distinct (map fst xs) \<Longrightarrow> s \<in> set xs \<Longrightarrow>
     distinct (map fst (remove1 s xs)) \<and> fst ` set (remove1 s xs) = fst ` set xs - {fst s}"
proof (induction xs)
  case Nil
  then show ?case by simp
next
  case (Cons x xs)
  show ?case
  proof (cases "s = x")
    case True
    with Cons.prems show ?thesis by auto
  next
    case False
    with Cons have "fst s \<in> fst ` set xs" by auto
    with Cons False show ?thesis by auto
  qed
qed

lemma deliver_all:
  "bt_get (px_conns (fold deliver (map (\<lambda>i. (i, policy)) is) p)) j =
     (if j \<in> set is then map_option (\<lambda>c. c\<lparr>conn_signal := Some policy\<rparr>) (bt_get (px_conns p) j)
      else bt_get (px_conns p) j) \<and>
   px_target (fold deliver (map (\<lambda>i. (i, policy)) is) p) = px_target p \<and>
   px_next (fold deliver (map (\<lambda>i. (i, policy)) is) p) = px_next p"
  by (induction "is" arbitrary: p)
    (auto simp: deliver_def send_transition_get option.map_comp comp_def)

lemma tcp_bind_inv: "tcp_inv (tcp_bind target)"
  by (simp add: tcp_inv_def awaiting_def tcp_bind_def bt.inv_empty)

lemma accept_connection_inv: "tcp_inv p \<Longrightarrow> tcp_inv (accept_connection p)"
proof -
  assume inv: "tcp_inv p"
  then have new: "bt_get (px_conns p) (px_next p) = None" and old: "px_next p \<notin> set (awaiting p)"
    unfolding tcp_inv_def by blast+
  have "length (bt_insert (px_next p) c (px_conns p)) = Suc (length (px_conns p))" for c
    using inv new by (simp add: tcp_inv_def length_bt_insert bt_keys)
  with inv new old show ?thesis
    unfolding tcp_inv_def accept_connection_def Let_def
    by (auto simp: awaiting_def bt_inv_insert notified_def less_Suc_eq)
qed

lemma reload_take_inv: "tcp_inv p \<Longrightarrow> tcp_inv (reload_take target policy p)"
proof -
  have "set (awaiting (reload_take target policy p)) = set (awaiting p)"
    and "distinct (awaiting (reload_take target policy p)) = distinct (awaiting p)"
    by (auto simp: reload_take_def awaiting_def comp_def)
  moreover assume "tcp_inv p"
  ultimately show ?thesis by (simp add: tcp_inv_def) (simp add: reload_take_def)
qed

lemma deliver_inv:
  assumes inv: "tcp_inv p" and s: "s \<in> set (px_pending p)"
  shows "tcp_inv (deliver s p)"
proof -
  have d: "distinct (map fst (px_pending p))" using inv by (simp add: tcp_inv_def awaiting_def)
  have "fst s \<notin> set (px_waiting p)"
    using inv s by (auto simp: tcp_inv_def awaiting_def)
  with inv remove1_keys [OF d s] show ?thesis
    unfolding tcp_inv_def deliver_def
    by (auto simp: awaiting_def send_transition_inv send_transition_get notified_def
        split: if_splits)
qed

lemma proxy_connection_notified:
  assumes "proxy_connection c e = Some (Inl c')"
  shows "notified c' \<longleftrightarrow> notified c" and "conn_target c' = conn_target c"
  using assms
  by (auto simp: notified_def split: phase.splits conn_event.splits option.splits
      transition_policy.splits)

lemma finish_connection_inv:
  assumes inv: "tcp_inv p" and c: "bt_get (px_conns p) i = Some c"
  shows "tcp_inv (finish_connection i failed p)"
proof -
  have "word_of_nat (length (px_conns p)) - 1 = (word_of_nat (length (bt_remove i (px_conns p))) :: u64)"
    using length_bt_remove [of "px_conns p" i c] inv c
    by (metis add_diff_cancel_left' of_nat_Suc tcp_inv_def)
  with inv show ?thesis
    by (auto simp: tcp_inv_def awaiting_def finish_connection_def Let_def bt_inv_remove
        bt_remove_get split: if_splits)
qed

lemma run_connection_inv:
  assumes inv: "tcp_inv p" and c: "bt_get (px_conns p) i = Some c"
    and r: "proxy_connection c e = Some r"
  shows "tcp_inv (run_connection i r p)"
proof (cases r)
  case (Inl c')
  with r have c': "notified c' \<longleftrightarrow> notified c" "conn_target c' = conn_target c"
    using proxy_connection_notified by auto
  have "length (bt_insert i c' (px_conns p)) = length (px_conns p)"
    using inv c by (simp add: tcp_inv_def length_bt_insert_present)
  with inv c c' Inl show ?thesis
    by (auto simp: tcp_inv_def awaiting_def run_connection_def bt_inv_insert)
qed (simp add: run_connection_def finish_connection_inv [OF inv c])

lemma tcp_step_inv: "tcp_step p q \<Longrightarrow> tcp_inv p \<Longrightarrow> tcp_inv q"
proof (induction rule: tcp_step.induct)
  case (shutdown p)
  then show ?case by (simp add: tcp_inv_def awaiting_def shutdown_requested_def)
next
  case (accept_error p)
  then show ?case by (simp add: tcp_inv_def awaiting_def accept_failed_def Let_def)
qed (auto intro: accept_connection_inv reload_take_inv deliver_inv run_connection_inv
    finish_connection_inv)

lemma tcp_reachable_inv: "tcp_reachable target p \<Longrightarrow> tcp_inv p"
  by (induction rule: tcp_reachable.induct) (auto intro: tcp_bind_inv tcp_step_inv)

section \<open>Properties of the proxy\<close>

text \<open>
  C12. No connection silently stays on a replaced target: in every reachable state of the
  listener, under any interleaving of accepts, reloads and connection tasks, a live
  connection whose target is not the current one has been told about a reload (its policy
  is pending in its channel, or it is draining or pinned by it) or is about to be told by a
  reload that is still signalling.
\<close>

theorem no_unnoticed_stale_connection:
  assumes "tcp_reachable target p" and "bt_get (px_conns p) i = Some c"
    and "conn_target c \<noteq> px_target p"
  shows "notified c \<or> i \<in> fst ` set (px_pending p)"
  using tcp_reachable_inv [OF assms(1)] assms(2,3) by (auto simp: tcp_inv_def awaiting_def)

definition sample_tcp :: tcp_proxy where
  "sample_tcp = reload \<lparr>tcp_host = ''b'', tcp_port = 2\<rparr> ClosePolicy
     (accept_connection (tcp_bind \<lparr>tcp_host = ''a'', tcp_port = 1\<rparr>))"

lemma sample_tcp_reachable: "tcp_reachable \<lparr>tcp_host = ''a'', tcp_port = 1\<rparr> sample_tcp"
proof -
  let ?a = "\<lparr>tcp_host = ''a'', tcp_port = 1\<rparr> :: tcp_target"
  have "px_accepting (tcp_bind ?a)" by (simp add: tcp_bind_def)
  then have 1: "tcp_reachable ?a (accept_connection (tcp_bind ?a))" (is "tcp_reachable ?a ?p")
    by (rule tcp_reachable.step [OF tcp_reachable.start tcp_step.accept])
  let ?q = "reload_take \<lparr>tcp_host = ''b'', tcp_port = 2\<rparr> ClosePolicy ?p"
  have w: "px_waiting ?p = [0]" "(0, ClosePolicy) \<in> set (px_pending ?q)"
    by (simp_all add: tcp_bind_def accept_connection_def reload_take_def Let_def)
  have "tcp_reachable ?a ?q" by (rule tcp_reachable.step [OF 1 tcp_step.reload_take])
  from tcp_reachable.step [OF this tcp_step.deliver [OF w(2)]] show ?thesis
    by (simp add: sample_tcp_def reload_def w(1))
qed

lemma sample_tcp_conn:
  "bt_get (px_conns sample_tcp) 0 =
     Some \<lparr>conn_target = \<lparr>tcp_host = ''a'', tcp_port = 1\<rparr>, conn_phase = Connecting,
       conn_signal = Some ClosePolicy\<rparr>"
  by code_simp

theorem no_unnoticed_stale_connection_witness:
  "notified \<lparr>conn_target = \<lparr>tcp_host = ''a'', tcp_port = 1\<rparr>, conn_phase = Connecting,
     conn_signal = Some ClosePolicy\<rparr> \<or> 0 \<in> fst ` set (px_pending sample_tcp)"
  by (rule no_unnoticed_stale_connection [OF sample_tcp_reachable sample_tcp_conn])
    (simp add: sample_tcp_def reload_def reload_take_def deliver_all)

text \<open>
  C13. The active-connections counter is exact (modulo \<open>2 ^ 64\<close>): in every reachable state
  it is the number of live connection tasks, whatever way tasks ended.
\<close>

theorem active_counter_exact:
  assumes "tcp_reachable target p"
  shows "cnt_active (px_counters p) = word_of_nat (length (px_conns p))"
  using tcp_reachable_inv [OF assms] by (simp add: tcp_inv_def)

theorem active_counter_exact_witness:
  "cnt_active (px_counters sample_tcp) = word_of_nat (length (px_conns sample_tcp)) \<and>
   length (px_conns sample_tcp) = 1"
  using active_counter_exact [OF sample_tcp_reachable] by (auto simp: sample_tcp_def) code_simp

text \<open>
  C14. What a reload does, connection by connection: the policy is delivered to exactly the
  live connections that no earlier reload has reached or is reaching; connections already
  told keep the policy they have, no connection is lost, and the next accepted connection
  uses the new target.
\<close>

theorem reload_reaches_untold_connections:
  assumes "tcp_reachable target p"
  shows "bt_get (px_conns (reload t policy p)) i =
       map_option (\<lambda>c. if notified c \<or> i \<in> fst ` set (px_pending p) then c
         else c\<lparr>conn_signal := Some policy\<rparr>) (bt_get (px_conns p) i) \<and>
     map_option conn_target (bt_get (px_conns (accept_connection (reload t policy p)))
       (px_next p)) = Some t"
proof -
  have inv: "tcp_inv p" by (rule tcp_reachable_inv [OF assms])
  then have "bt_get (px_conns (reload t policy p)) i =
       map_option (\<lambda>c. if notified c \<or> i \<in> fst ` set (px_pending p) then c
         else c\<lparr>conn_signal := Some policy\<rparr>) (bt_get (px_conns p) i)"
    by (cases "bt_get (px_conns p) i")
      (auto simp: reload_def reload_take_def deliver_all tcp_inv_def awaiting_def)
  then show ?thesis
    by (simp add: accept_connection_def reload_def reload_take_def deliver_all Let_def)
qed

theorem reload_reaches_untold_connections_witness:
  "bt_get (px_conns (reload \<lparr>tcp_host = ''c'', tcp_port = 3\<rparr> PinPolicy sample_tcp)) 0 =
     Some \<lparr>conn_target = \<lparr>tcp_host = ''a'', tcp_port = 1\<rparr>, conn_phase = Connecting,
       conn_signal = Some ClosePolicy\<rparr>"
proof -
  from reload_reaches_untold_connections [OF sample_tcp_reachable,
      of "\<lparr>tcp_host = ''c'', tcp_port = 3\<rparr>" PinPolicy 0]
  show ?thesis by (simp add: sample_tcp_conn notified_def)
qed

fun conn_run :: "tcp_conn \<Rightarrow> conn_event list \<Rightarrow> (tcp_conn + bool) option" where
  "conn_run c [] = Some (Inl c)"
| "conn_run c (e # es) =
     (case proxy_connection c e of
        None \<Rightarrow> None
      | Some (Inr failed) \<Rightarrow> Some (Inr failed)
      | Some (Inl c') \<Rightarrow> conn_run c' es)"

definition told_to_close :: "tcp_conn \<Rightarrow> bool" where
  "told_to_close c \<longleftrightarrow>
     conn_signal c = Some ClosePolicy \<and> (conn_phase c = Connecting \<or> conn_phase c = Forwarding)"

lemma told_to_close_step:
  "told_to_close c \<Longrightarrow> proxy_connection c e = Some (Inl c') \<Longrightarrow> told_to_close c'"
  by (auto simp: told_to_close_def split: phase.splits conn_event.splits)

lemma told_to_close_run:
  "told_to_close c \<Longrightarrow> conn_run c es = Some (Inl c') \<Longrightarrow> told_to_close c'"
proof (induction es arbitrary: c)
  case Nil
  then show ?case by simp
next
  case (Cons e es)
  from Cons.prems(2) obtain d where d: "proxy_connection c e = Some (Inl d)"
    and run: "conn_run d es = Some (Inl c')"
    by (auto simp del: proxy_connection.simps split: option.splits sum.splits)
  show ?case by (rule Cons.IH [OF told_to_close_step [OF Cons.prems(1) d] run])
qed

text \<open>
  A connection told to close never drains and is never pinned: through any sequence of
  events it stays a connecting or forwarding connection with the pending close, and once it
  forwards, taking notice of the signal ends it without counting an error.
\<close>

theorem close_policy_ends_connection:
  assumes "told_to_close c" and "conn_run c es = Some (Inl c')"
  shows "told_to_close c' \<and>
     (conn_phase c' = Forwarding \<longrightarrow> proxy_connection c' SignalSeen = Some (Inr False))"
  using told_to_close_run [OF assms] by (auto simp: told_to_close_def)

theorem close_policy_ends_connection_witness:
  "told_to_close \<lparr>conn_target = \<lparr>tcp_host = ''a'', tcp_port = 1\<rparr>, conn_phase = Forwarding,
     conn_signal = Some ClosePolicy\<rparr>"
proof -
  let ?c = "\<lparr>conn_target = \<lparr>tcp_host = ''a'', tcp_port = 1\<rparr>, conn_phase = Connecting,
     conn_signal = Some ClosePolicy\<rparr>"
  have "told_to_close ?c" by (simp add: told_to_close_def)
  moreover have "conn_run ?c [ConnectOk] = Some (Inl (?c\<lparr>conn_phase := Forwarding\<rparr>))" by simp
  ultimately show ?thesis using close_policy_ends_connection by fastforce
qed

section \<open>Properties of the byte pump\<close>

definition chunks :: "read_result list \<Rightarrow> string list" where
  "chunks rs = map (\<lambda>r. case r of Read bytes \<Rightarrow> bytes | ReadFailed \<Rightarrow> []) rs"

lemma copy_direction_prefix:
  "\<exists>k part. k \<le> length rs \<and> pump_written (fst (copy_direction rs ws s)) =
     pump_written s @ concat (chunks (take k rs)) @ part \<and>
     prefix part (concat (chunks (take 1 (drop k rs)))) \<and>
     pump_generation (fst (copy_direction rs ws s)) = pump_generation s + word_of_nat k \<and>
     (snd (copy_direction rs ws s) = PumpClosed \<longrightarrow> k < length rs \<and> rs ! k = Read [])"
proof (induction rs ws s rule: copy_direction.induct)
  case (4 b bs rs ws s)
  show ?case
  proof (cases ws)
    case Nil
    then show ?thesis by (intro exI [of _ 0] exI [of _ "[]"]) (auto simp: chunks_def)
  next
    case ws: (Cons w ws')
    show ?thesis
    proof (cases w)
      case WroteAll
      from "4.IH" [OF ws WroteAll] obtain k part where
        "k \<le> length rs" "prefix part (concat (chunks (take 1 (drop k rs))))"
        "pump_written (fst (copy_direction (Read (b # bs) # rs) ws s)) =
           pump_written s @ (b # bs) @ concat (chunks (take k rs)) @ part"
        "pump_generation (fst (copy_direction (Read (b # bs) # rs) ws s)) =
           pump_generation s + 1 + word_of_nat k"
        "snd (copy_direction (Read (b # bs) # rs) ws s) = PumpClosed \<longrightarrow>
           k < length rs \<and> rs ! k = Read []"
        by (auto simp: ws WroteAll)
      then show ?thesis by (intro exI [of _ "Suc k"] exI [of _ part]) (simp add: chunks_def)
    next
      case (WriteFailed n)
      then show ?thesis
        by (intro exI [of _ 0] exI [of _ "take n (b # bs)"])
          (simp add: ws chunks_def take_is_prefix)
    qed
  qed
qed (intro exI [of _ 0] exI [of _ "[]"]; auto simp: chunks_def split: list.splits write_result.splits)+

text \<open>
  C15. The pump neither loses, duplicates nor reorders bytes: what one direction has written
  is the concatenation of the chunks of some initial part of its reads, followed by at most
  a part of the next chunk (when its write failed); one generation is counted for each chunk
  fully written; and the direction closes its peer only after the end of the stream, having
  written every chunk before it.
\<close>

theorem copy_direction_preserves_stream:
  "\<exists>k part. k \<le> length rs \<and>
     pump_written (fst (copy_direction rs ws \<lparr>pump_written = [], pump_generation = 0\<rparr>)) =
       concat (chunks (take k rs)) @ part \<and>
     prefix part (concat (chunks (take 1 (drop k rs)))) \<and>
     pump_generation (fst (copy_direction rs ws \<lparr>pump_written = [], pump_generation = 0\<rparr>)) =
       word_of_nat k \<and>
     (snd (copy_direction rs ws \<lparr>pump_written = [], pump_generation = 0\<rparr>) = PumpClosed \<longrightarrow>
        k < length rs \<and> rs ! k = Read [])"
  using copy_direction_prefix [of rs ws "\<lparr>pump_written = [], pump_generation = 0\<rparr>"] by simp

theorem copy_direction_preserves_stream_witness:
  "\<exists>k part. k < 3 \<and> ''abc'' = concat (chunks (take k [Read ''ab'', Read ''c'', Read []])) @ part \<and>
     [Read ''ab'', Read ''c'', Read []] ! k = Read []"
  using copy_direction_preserves_stream [of "[Read ''ab'', Read ''c'', Read []]"
      "[WroteAll, WroteAll, WroteAll]"]
  by (auto simp: eval_nat_numeral)

lemma forward_until_idle_ok:
  assumes "forward_until_idle s es = Some ForwardOk" and "\<not> (fst s \<and> snd s)"
  shows "(fst s \<or> LeftEnds True \<in> set es) \<and> (snd s \<or> RightEnds True \<in> set es)"
  using assms
proof (induction es arbitrary: s)
  case Nil
  then show ?case by simp
next
  case (Cons e es)
  obtain l r where s: "s = (l, r)" by fastforce
  show ?case
  proof (cases e)
    case (LeftEnds ok)
    with Cons s show ?thesis
      by (cases l; cases r; cases ok) (fastforce split: option.splits sum.splits)+
  next
    case (RightEnds ok)
    with Cons s show ?thesis
      by (cases l; cases r; cases ok) (fastforce split: option.splits sum.splits)+
  next
    case Activity
    with Cons s show ?thesis
      by (cases l; cases r) (fastforce split: option.splits sum.splits)+
  qed (use Cons s in auto)
qed

text \<open>
  \<open>forward_until_idle\<close> reports success only when both directions have finished without
  error: one finished direction alone never ends the connection.
\<close>

theorem forward_ok_needs_both_directions:
  assumes "forward_until_idle (False, False) es = Some ForwardOk"
  shows "LeftEnds True \<in> set es \<and> RightEnds True \<in> set es"
  using forward_until_idle_ok [OF assms] by simp

theorem forward_ok_needs_both_directions_witness:
  "LeftEnds True \<in> set [Activity, LeftEnds True, Activity, RightEnds True]"
proof -
  have "forward_until_idle (False, False) [Activity, LeftEnds True, Activity, RightEnds True] =
      Some ForwardOk"
    by simp
  from forward_ok_needs_both_directions [OF this] show ?thesis by simp
qed

end
