(* ===== verification/RouterControl.thy ===== *)
theory RouterControl
  imports Json HttpPlane TransparentTcp TcpProxy
begin

text \<open>
  The router process of \<open>crates/apmpr-router/src/lib.rs\<close>: its start-up checks, the control
  state shared by the administration connections, the administration protocol (frames,
  token, commands), and the redacting, bounded event log.

  \<open>serde_json::Value\<close> is the datatype \<open>json\<close> of theory Json; decoding a frame into a request, the digest,
  the Base64 encoder, the printing of addresses and the serialization of configuration
  fragments are parameters in \<open>control_env\<close>, with the file system, the networks of the
  probes and the clock during a call. A panic is \<open>None\<close>. \<open>apply_lock\<close> makes each \<open>Apply\<close> one
  step; the other commands read the state once.
\<close>

section \<open>Values and redaction\<close>

definition sensitive_key :: "string \<Rightarrow> bool" where
  "sensitive_key key \<longleftrightarrow>
     (let normalized = to_ascii_lowercase key
      in \<exists>s\<in>set [''authorization'', ''cookie'', ''password'', ''secret'', ''token'',
                ''privatekey'', ''private_key'']. sublist s normalized)"

definition REDACTED :: json where
  "REDACTED = JStr ''[REDACTED]''"

fun redact_value :: "json \<Rightarrow> json" where
  "redact_value (JObj members) =
     JObj (map (\<lambda>(key, value). (key, if sensitive_key key then REDACTED else redact_value value)) members)"
| "redact_value (JArr values) = JArr (map redact_value values)"
| "redact_value value = value"

section \<open>Observability\<close>

definition MAX_FRAME_BYTES :: nat where
  "MAX_FRAME_BYTES = 1024 * 1024"

definition MAX_EVENTS :: nat where
  "MAX_EVENTS = 256"

datatype event_kind = AccessEvent | RoutingDecision | Health | Reload | RejectionEvent

record router_event =
  ev_sequence :: u64
  ev_timestamp_ms :: u64
  ev_kind :: event_kind
  ev_outcome :: string
  ev_fields :: "(string, json) btree"

record observability =
  obs_requests :: u64
  obs_connections :: u64
  obs_errors :: u64
  obs_sequence :: u64
  obs_events :: "router_event list"

definition observability_new :: observability where
  "observability_new =
     \<lparr>obs_requests = 0, obs_connections = 0, obs_errors = 0, obs_sequence = 0, obs_events = []\<rparr>"

definition make_event ::
  "u64 \<Rightarrow> event_kind \<times> string \<times> (string, json) btree \<Rightarrow> observability \<Rightarrow> router_event" where
  "make_event now e obs =
     (case e of (kind, result, members) \<Rightarrow>
        \<lparr>ev_sequence = obs_sequence obs + 1, ev_timestamp_ms = now, ev_kind = kind,
         ev_outcome = result,
         ev_fields = map (\<lambda>(key, value).
           (key, if sensitive_key key then REDACTED else redact_value value)) members\<rparr>)"

definition emit ::
  "u64 \<Rightarrow> event_kind \<times> string \<times> (string, json) btree \<Rightarrow> observability \<Rightarrow> observability" where
  "emit now e obs =
     obs\<lparr>obs_sequence := obs_sequence obs + 1,
         obs_events := push_bounded MAX_EVENTS (make_event now e obs) (obs_events obs)\<rparr>"

definition count_admin_error :: "observability \<Rightarrow> observability" where
  "count_admin_error obs = obs\<lparr>obs_errors := obs_errors obs + 1\<rparr>"

definition rejection :: "u64 \<Rightarrow> string \<Rightarrow> string \<Rightarrow> observability \<Rightarrow> observability" where
  "rejection now code operation =
     emit now (RejectionEvent, ''rejected'', [(''code'', JStr code), (''operation'', JStr operation)])"

section \<open>The control state\<close>

record control_env =
  ce_digest :: "router_config \<Rightarrow> string"
  ce_bind_text :: "socket_address \<Rightarrow> string"
  ce_base64 :: "string \<Rightarrow> string"
  ce_fs :: file_system
  ce_nets :: "nat \<Rightarrow> network"
  ce_now :: u64
  ce_protocol_json :: "protocol \<Rightarrow> json"
  ce_transparent_json :: "transparent_proxy option \<Rightarrow> json"
  ce_browser_json :: "browser_route list \<Rightarrow> json"

record control_state =
  ctl_engine :: route_engine
  ctl_initial_listeners :: "listener list"
  ctl_initial_identity :: identity_policy
  ctl_initial_transparent :: "(instance_id \<times> u16 \<times> u64) option"
  ctl_tcp :: "(listener \<times> tcp_proxy) list"
  ctl_transparent :: "transparent_target list list"
  ctl_http :: telemetry
  ctl_obs :: observability
  ctl_shutdown :: bool

datatype process_error = Io string | Configuration string | HttpBuild build_error

fun build_code_debug :: "build_error_code \<Rightarrow> string" where
  "build_code_debug UnsupportedListener = ''UnsupportedListener''"
| "build_code_debug MissingDestination = ''MissingDestination''"
| "build_code_debug InvalidTlsIdentity = ''InvalidTlsIdentity''"
| "build_code_debug InvalidProxyAuthentication = ''InvalidProxyAuthentication''"
| "build_code_debug ServerInitialization = ''ServerInitialization''"

fun process_error_text :: "process_error \<Rightarrow> string" where
  "process_error_text (Io e) = ''router I/O failed: '' @ e"
| "process_error_text (Configuration message) = ''router configuration failed: '' @ message"
| "process_error_text (HttpBuild e) =
     ''HTTP data plane failed: '' @ build_code_debug (build_code e) @ '': '' @ build_message e"

fun apply_error_text :: "apply_error \<Rightarrow> string" where
  "apply_error_text (Decode e) = ''configuration could not be decoded: '' @ e"
| "apply_error_text (Invalid errors) =
     ''configuration is invalid ('' @ nat_to_string (length errors) @ '' error(s))''"
| "apply_error_text LockPoisoned = ''route snapshot lock is poisoned''"

section \<open>Targets and runtime validation\<close>

definition transparent_targets :: "transparent_proxy \<Rightarrow> transparent_target list" where
  "transparent_targets proxy =
     map (\<lambda>member.
        let instance_of = (case split_once CHR ''/'' (member_component member) of
              None \<Rightarrow> member_component member
            | Some (i, _) \<Rightarrow> i);
            t = target_new (member_component member) (member_host member)
              (instance_of = tproxy_consumer proxy)
        in case member_ports member of
             None \<Rightarrow> t
           | Some ports \<Rightarrow> with_declared_ports t ports)
      (tproxy_members proxy)"

definition tcp_route_target :: "route_engine \<Rightarrow> listener \<Rightarrow> process_error + tcp_target" where
  "tcp_route_target engine l =
     (case listener_destinations l of
        [destination] \<Rightarrow>
          (let slot = destination_slot_id destination; s = engine_snapshot engine;
               selected =
                 (case listener_consumer l of
                    Some consumer \<Rightarrow> lookup_consumer s consumer slot
                  | None \<Rightarrow>
                      (case lookup_browser s \<lparr>lookup_destination = slot,
                              lookup_explicit_header = None, lookup_origin = None,
                              lookup_proxy_listener = proxy_identity l\<rparr> of
                         Inl _ \<Rightarrow> None
                       | Inr t \<Rightarrow> Some t))
           in case selected of
                None \<Rightarrow> Inl (Configuration (''TCP listener route for slot '' @ slot @ '' is unresolved''))
              | Some t \<Rightarrow>
                  if endpoint_protocol (target_endpoint t) \<noteq> Tcp
                  then Inl (Configuration (''TCP slot '' @ slot @ '' selected a non-TCP provider''))
                  else Inr \<lparr>tcp_host = endpoint_host (target_endpoint t),
                            tcp_port = endpoint_port (target_endpoint t)\<rparr>)
      | _ \<Rightarrow> Inl (Configuration ''a TCP listener must declare exactly one destination''))"

fun transition_policy_of :: "connection_transition_policy \<Rightarrow> transition_policy" where
  "transition_policy_of Close = ClosePolicy"
| "transition_policy_of (Drain timeout_ms) = DrainPolicy timeout_ms"
| "transition_policy_of Pin = PinPolicy"

definition http_listeners :: "router_config \<Rightarrow> listener list" where
  "http_listeners c =
     filter (\<lambda>l. listener_protocol l \<noteq> Tcp \<and> proxy_identity l = None) (spec_listeners (config_spec c))"

definition tcp_listeners :: "router_config \<Rightarrow> listener list" where
  "tcp_listeners c = filter (\<lambda>l. listener_protocol l = Tcp) (spec_listeners (config_spec c))"

fun check_tcp_targets :: "route_engine \<Rightarrow> listener list \<Rightarrow> process_error + unit" where
  "check_tcp_targets engine [] = Inr ()"
| "check_tcp_targets engine (l # ls) =
     (case tcp_route_target engine l of
        Inl e \<Rightarrow> Inl e
      | Inr _ \<Rightarrow> check_tcp_targets engine ls)"

definition validate_runtime_config ::
  "control_env \<Rightarrow> router_config \<Rightarrow> (process_error + unit) option" where
  "validate_runtime_config env c =
     (case engine_new (ce_digest env) c of
        None \<Rightarrow> None
      | Some (Inl e) \<Rightarrow> Some (Inl (Configuration (apply_error_text e)))
      | Some (Inr engine) \<Rightarrow>
          if http_listeners c \<noteq> []
          then case data_plane_new (ce_bind_text env) (ce_base64 env) (ce_fs env)
                      (http_listeners c) (spec_identity (config_spec c)) default_proxy_options of
                 Inl e \<Rightarrow> Some (Inl (HttpBuild e))
               | Inr _ \<Rightarrow> Some (check_tcp_targets engine (tcp_listeners c))
          else Some (check_tcp_targets engine (tcp_listeners c)))"

definition transparent_key :: "router_config \<Rightarrow> (instance_id \<times> u16 \<times> u64) option" where
  "transparent_key c =
     map_option (\<lambda>p. (tproxy_consumer p, tproxy_port p, tproxy_connect_timeout_ms p))
       (spec_transparent_proxy (config_spec c))"

definition validate_candidate ::
  "control_env \<Rightarrow> control_state \<Rightarrow> router_config \<Rightarrow> (string + route_engine) option" where
  "validate_candidate env st c =
     (if spec_listeners (config_spec c) \<noteq> ctl_initial_listeners st \<or>
         spec_identity (config_spec c) \<noteq> ctl_initial_identity st \<or>
         transparent_key c \<noteq> ctl_initial_transparent st
      then Some (Inl ''listener, identity, and transparent interception changes require a process restart'')
      else case validate_runtime_config env c of
             None \<Rightarrow> None
           | Some (Inl e) \<Rightarrow> Some (Inl (process_error_text e))
           | Some (Inr _) \<Rightarrow>
               map_option (\<lambda>r. case r of Inl e \<Rightarrow> Inl (apply_error_text e) | Inr engine \<Rightarrow> Inr engine)
                 (engine_new (ce_digest env) c))"

section \<open>Commands\<close>

datatype admin_command =
    ValidateConfig router_config
  | ApplyConfig router_config
  | CurrentVersion
  | Routes
  | HealthReport
  | DrainRouter
  | CountersReport
  | EventsReport

fun command_name :: "admin_command \<Rightarrow> string" where
  "command_name (ValidateConfig _) = ''validate''"
| "command_name (ApplyConfig _) = ''apply''"
| "command_name CurrentVersion = ''current-version''"
| "command_name Routes = ''routes''"
| "command_name HealthReport = ''health''"
| "command_name DrainRouter = ''drain''"
| "command_name CountersReport = ''counters''"
| "command_name EventsReport = ''events''"

text \<open>An object of the \<open>json!\<close> macro; the members are kept in key order.\<close>

definition members_of :: "(string \<times> json) list \<Rightarrow> (string, json) btree" where
  "members_of kvs = fold (\<lambda>(k, v). bt_insert k v) kvs bt_empty"

definition jobj :: "(string \<times> json) list \<Rightarrow> json" where
  "jobj kvs = JObj (members_of kvs)"

definition error_value :: "string \<Rightarrow> string \<Rightarrow> json" where
  "error_value code message = jobj [(''code'', JStr code), (''message'', JStr message)]"

definition snapshot_identity :: "route_engine \<Rightarrow> json" where
  "snapshot_identity engine =
     (let s = engine_snapshot engine
      in jobj [(''id'', JStr (snapshot_ident s)), (''version'', JUInt (version s)),
               (''checksum'', JStr (cs_checksum s))])"

definition inspect_routes :: "control_env \<Rightarrow> route_engine \<Rightarrow> json" where
  "inspect_routes env engine =
     (let s = engine_snapshot engine;
          routes = concat (map (\<lambda>l. case listener_consumer l of
              None \<Rightarrow> []
            | Some consumer \<Rightarrow>
                concat (map (\<lambda>d. case lookup_consumer s consumer (destination_slot_id d) of
                    None \<Rightarrow> []
                  | Some t \<Rightarrow>
                      [jobj [(''consumer'', JStr consumer), (''slot'', JStr (destination_slot_id d)),
                        (''provider'', JStr (target_provider t)),
                        (''endpoint'', jobj
                          [(''protocol'', ce_protocol_json env (endpoint_protocol (target_endpoint t))),
                           (''host'', JStr (endpoint_host (target_endpoint t))),
                           (''port'', JUInt (ucast (endpoint_port (target_endpoint t))))])]])
                  (listener_destinations l)))
            (spec_listeners (config_spec (cs_config s))))
      in jobj [(''version'', JUInt (version s)), (''checksum'', JStr (cs_checksum s)),
               (''consumerRoutes'', JArr routes),
               (''transparentProxy'', ce_transparent_json env
                  (spec_transparent_proxy (config_spec (cs_config s)))),
               (''browserRoutes'', ce_browser_json env
                  (spec_browser_routes (config_spec (cs_config s))))])"

definition probe_targets ::
  "route_engine \<Rightarrow> (component_id \<times> upstream_endpoint \<times> health_check option) list" where
  "probe_targets engine =
     map (\<lambda>p. (provider_id p, provider_endpoint p, provider_health_check p))
       (spec_providers (config_spec (cs_config (engine_snapshot engine))))"

definition failed_providers ::
  "(component_id, string + unit) btree \<Rightarrow> (component_id, string) btree" where
  "failed_providers checks =
     concat (map (\<lambda>(pid, r). case r of Inl e \<Rightarrow> [(pid, e)] | Inr _ \<Rightarrow> []) checks)"

type_synonym reply = "bool \<times> json \<times> bool"

definition log_event ::
  "control_env \<Rightarrow> event_kind \<Rightarrow> string \<Rightarrow> (string \<times> json) list \<Rightarrow> control_state \<Rightarrow> control_state" where
  "log_event env kind result kvs st =
     st\<lparr>ctl_obs := emit (ce_now env) (kind, result, members_of kvs) (ctl_obs st)\<rparr>"

definition log_rejection :: "control_env \<Rightarrow> string \<Rightarrow> string \<Rightarrow> control_state \<Rightarrow> control_state" where
  "log_rejection env code operation st =
     st\<lparr>ctl_obs := rejection (ce_now env) code operation (ctl_obs st)\<rparr>"

fun reload_bindings ::
  "route_engine \<Rightarrow> transition_policy \<Rightarrow> (listener \<times> tcp_proxy) list
     \<Rightarrow> (listener \<times> tcp_proxy) list \<times> process_error option" where
  "reload_bindings engine policy [] = ([], None)"
| "reload_bindings engine policy ((l, proxy) # bs) =
     (case tcp_route_target engine l of
        Inl e \<Rightarrow> ((l, proxy) # bs, Some e)
      | Inr t \<Rightarrow>
          (let (bs', e) = reload_bindings engine policy bs in ((l, reload t policy proxy) # bs', e)))"

definition status_text :: "activation_status \<Rightarrow> string" where
  "status_text status = (case status of Activated \<Rightarrow> ''activated'' | RejectedStale \<Rightarrow> ''rejected_stale'')"

definition unhealthy_reply ::
  "control_env \<Rightarrow> u64 \<Rightarrow> u64 \<Rightarrow> (component_id, string) btree \<Rightarrow> control_state \<Rightarrow> reply \<times> control_state" where
  "unhealthy_reply env active_version candidate_version failed st =
     (let providers = JObj (map (\<lambda>(pid, e). (pid, JStr e)) failed);
          kvs = [(''activeVersion'', JUInt active_version), (''candidateVersion'', JUInt candidate_version),
                 (''providers'', providers)]
      in ((False, jobj ([(''code'', JStr ''provider_unhealthy''),
             (''message'', JStr ''candidate snapshot failed provider readiness; the previous snapshot remains active''),
             (''status'', JStr ''rolled_back'')] @ kvs), False),
          log_rejection env ''provider_unhealthy'' ''apply''
            (log_event env Reload ''rolled_back'' kvs
              (log_event env Health ''candidate_unhealthy'' kvs st))))"

text \<open>After the engine has accepted a snapshot: the listeners follow it.\<close>

definition follow_snapshot ::
  "control_env \<Rightarrow> apply_ack \<Rightarrow> control_state \<Rightarrow> reply \<times> control_state" where
  "follow_snapshot env ack st =
     (let s = engine_snapshot (ctl_engine st);
          (tcp, failure) =
            (if ack_status ack = Activated
             then reload_bindings (ctl_engine st) (transition_policy_of (transition s Tcp)) (ctl_tcp st)
             else (ctl_tcp st, None));
          st = st\<lparr>ctl_tcp := tcp\<rparr>
      in case failure of
           Some e \<Rightarrow>
             ((False, error_value ''tcp_reload_failed'' (process_error_text e), False),
              log_rejection env ''tcp_reload_failed'' ''apply'' st)
         | None \<Rightarrow>
             (let st = (case spec_transparent_proxy (config_spec (cs_config s)) of
                    Some configuration \<Rightarrow>
                      if ack_status ack = Activated
                      then st\<lparr>ctl_transparent := map (\<lambda>_. transparent_targets configuration) (ctl_transparent st)\<rparr>
                      else st
                  | None \<Rightarrow> st);
                  status = status_text (ack_status ack)
              in ((True, jobj [(''version'', JUInt (ack_version ack)), (''checksum'', JStr (ack_checksum ack)),
                     (''status'', JStr status)], False),
                  log_event env Reload status [(''version'', JUInt (ack_version ack))] st)))"

definition execute_apply ::
  "control_env \<Rightarrow> router_config \<Rightarrow> control_state \<Rightarrow> (reply \<times> control_state) option" where
  "execute_apply env c st =
     (case validate_candidate env st c of
        None \<Rightarrow> None
      | Some (Inl message) \<Rightarrow>
          Some ((False, error_value ''invalid_configuration'' message, False),
                log_rejection env ''invalid_configuration'' ''apply'' st)
      | Some (Inr candidate) \<Rightarrow>
          (let active_version = version (engine_snapshot (ctl_engine st));
               candidate_version = version (engine_snapshot candidate);
               failed = (if candidate_version > active_version
                  then failed_providers (readiness (ce_nets env) 0 (probe_targets candidate) bt_empty)
                  else [])
           in if failed \<noteq> []
              then Some (unhealthy_reply env active_version candidate_version failed st)
              else case engine_apply (ce_digest env) c (ctl_engine st) of
                     None \<Rightarrow> None
                   | Some (Inl e, engine) \<Rightarrow>
                       Some ((False, error_value ''apply_failed'' (apply_error_text e), False),
                             log_rejection env ''apply_failed'' ''apply'' (st\<lparr>ctl_engine := engine\<rparr>))
                   | Some (Inr ack, engine) \<Rightarrow>
                       Some (follow_snapshot env ack (st\<lparr>ctl_engine := engine\<rparr>))))"

definition counters_value :: "control_state \<Rightarrow> json" where
  "counters_value st =
     (let http = ctl_http st; snapshots = map (\<lambda>(_, proxy). telemetry_snapshot proxy) (ctl_tcp st)
      in jobj
        [(''dataPlane'', jobj
            [(''httpRequests'', JUInt (tel_requests http)), (''httpActiveRequests'', JUInt (tel_active http)),
             (''httpErrors'', JUInt (tel_errors http)),
             (''tcpAcceptedConnections'', JUInt (sum_list (map fst snapshots))),
             (''tcpActiveConnections'', JUInt (sum_list (map (fst \<circ> snd) snapshots))),
             (''tcpErrors'', JUInt (sum_list (map (snd \<circ> snd) snapshots)))]),
         (''activeSnapshotVersion'', JUInt (version (engine_snapshot (ctl_engine st)))),
         (''adminRequests'', JUInt (obs_requests (ctl_obs st))),
         (''adminConnections'', JUInt (obs_connections (ctl_obs st))),
         (''adminErrors'', JUInt (obs_errors (ctl_obs st)))])"

fun event_kind_text :: "event_kind \<Rightarrow> string" where
  "event_kind_text AccessEvent = ''access''"
| "event_kind_text RoutingDecision = ''routing_decision''"
| "event_kind_text Health = ''health''"
| "event_kind_text Reload = ''reload''"
| "event_kind_text RejectionEvent = ''rejection''"

definition router_event_value :: "router_event \<Rightarrow> json" where
  "router_event_value e =
     jobj [(''sequence'', JUInt (ev_sequence e)), (''timestampMs'', JUInt (ev_timestamp_ms e)),
           (''kind'', JStr (event_kind_text (ev_kind e))), (''outcome'', JStr (ev_outcome e)),
           (''fields'', JObj (ev_fields e))]"

fun data_plane_event_value :: "data_plane_event \<Rightarrow> json" where
  "data_plane_event_value (Routing p v) =
     jobj [(''kind'', JStr ''routing''), (''provider'', JStr p), (''snapshot_version'', JUInt v)]"
| "data_plane_event_value (Rejection status code) =
     jobj [(''kind'', JStr ''rejection''), (''status'', JUInt (word_of_nat status)), (''code'', JStr code)]"
| "data_plane_event_value (Access p ok) =
     jobj [(''kind'', JStr ''access''),
           (''provider'', case p of None \<Rightarrow> JNull | Some name \<Rightarrow> JStr name), (''succeeded'', JBool ok)]"

definition events_value :: "control_state \<Rightarrow> json" where
  "events_value st =
     jobj [(''controlEvents'', JArr (map router_event_value (obs_events (ctl_obs st)))),
           (''httpEvents'', JArr (map data_plane_event_value (tel_events (ctl_http st))))]"

definition health_value :: "(component_id, string + unit) btree \<Rightarrow> bool \<times> json" where
  "health_value checks =
     (let healthy = list_all (\<lambda>(_, r). case r of Inl _ \<Rightarrow> False | Inr _ \<Rightarrow> True) checks
      in (healthy, jobj [(''healthy'', JBool healthy),
           (''providers'', JObj (map (\<lambda>(pid, r). (pid, case r of
               Inr _ \<Rightarrow> jobj [(''healthy'', JBool True)]
             | Inl e \<Rightarrow> jobj [(''healthy'', JBool False), (''message'', JStr e)])) checks))]))"

fun execute :: "control_env \<Rightarrow> admin_command \<Rightarrow> control_state \<Rightarrow> (reply \<times> control_state) option" where
  "execute env (ValidateConfig c) st =
     map_option (\<lambda>r. case r of
         Inr engine \<Rightarrow> ((True, snapshot_identity engine, False), st)
       | Inl message \<Rightarrow>
           ((False, error_value ''invalid_configuration'' message, False),
            log_rejection env ''invalid_configuration'' ''validate'' st))
       (validate_candidate env st c)"
| "execute env (ApplyConfig c) st = execute_apply env c st"
| "execute env CurrentVersion st = Some ((True, snapshot_identity (ctl_engine st), False), st)"
| "execute env Routes st =
     Some ((True, inspect_routes env (ctl_engine st), False), log_event env RoutingDecision ''inspected'' [] st)"
| "execute env HealthReport st =
     (let (healthy, body) = health_value (readiness (ce_nets env) 0 (probe_targets (ctl_engine st)) bt_empty)
      in Some ((True, body, False),
           log_event env Health (if healthy then ''healthy'' else ''unhealthy'') [] st))"
| "execute env DrainRouter st = Some ((True, jobj [(''status'', JStr ''draining'')], True), st)"
| "execute env CountersReport st = Some ((True, counters_value st, False), st)"
| "execute env EventsReport st = Some ((True, events_value st, False), st)"

section \<open>Administration connections\<close>

fun read_frame :: "string \<Rightarrow> string option \<Rightarrow> string \<Rightarrow> string + string" where
  "read_frame [] io_error frame =
     Inl (case io_error of None \<Rightarrow> ''request must end with a newline'' | Some e \<Rightarrow> e)"
| "read_frame (b # bs) io_error frame =
     (if b = CHR 0x0A then Inr frame
      else if length frame = MAX_FRAME_BYTES then Inl ''administration frame is too large''
      else read_frame bs io_error (frame @ [b]))"

text \<open>\<open>constant_time_eq\<close>, its loop over the longer length with zero padding written out.\<close>

definition byte_at :: "string \<Rightarrow> nat \<Rightarrow> u8" where
  "byte_at s i = (if i < length s then word_of_nat (byte (s ! i)) else 0)"

fun byte_differences :: "string \<Rightarrow> string \<Rightarrow> nat list \<Rightarrow> u64 \<Rightarrow> u64" where
  "byte_differences left right [] difference = difference"
| "byte_differences left right (i # is) difference =
     byte_differences left right is (or difference (ucast (xor (byte_at left i) (byte_at right i))))"

definition constant_time_eq :: "string \<Rightarrow> string \<Rightarrow> bool" where
  "constant_time_eq left right \<longleftrightarrow>
     byte_differences left right [0..<max (length left) (length right)]
       (xor (word_of_nat (length left)) (word_of_nat (length right))) = 0"

text \<open>
  \<open>serve_connection\<close> for the bytes a client sends; \<open>write_ok\<close> says whether the answer could
  be written. The result is the answer and whether the call returned \<open>Ok\<close>.
\<close>

definition answer ::
  "bool \<Rightarrow> bool \<times> json \<Rightarrow> control_state \<Rightarrow> (bool \<times> json) option \<times> bool \<times> control_state" where
  "answer write_ok response st = ((if write_ok then Some response else None), write_ok, st)"

definition serve_connection ::
  "control_env \<Rightarrow> (string \<Rightarrow> string + string \<times> admin_command) \<Rightarrow> string \<Rightarrow> bool
     \<Rightarrow> string \<Rightarrow> string option \<Rightarrow> control_state
     \<Rightarrow> ((bool \<times> json) option \<times> bool \<times> control_state) option" where
  "serve_connection env decode expected_token write_ok input io_error st =
     (case read_frame input io_error [] of
        Inl message \<Rightarrow>
          Some (answer write_ok (False, error_value ''invalid_frame'' message)
            (st\<lparr>ctl_obs := count_admin_error (ctl_obs st)\<rparr>))
      | Inr frame \<Rightarrow>
          (let st = st\<lparr>ctl_obs := (ctl_obs st)\<lparr>obs_requests := obs_requests (ctl_obs st) + 1\<rparr>\<rparr>
           in case decode frame of
                Inl message \<Rightarrow>
                  Some (answer write_ok (False, error_value ''invalid_request'' message)
                    (log_rejection env ''invalid_request'' ''decode''
                      (st\<lparr>ctl_obs := count_admin_error (ctl_obs st)\<rparr>)))
              | Inr (token, command) \<Rightarrow>
                  if \<not> constant_time_eq token expected_token
                  then Some (answer write_ok
                         (False, error_value ''unauthorized'' ''invalid administration token'')
                         (log_rejection env ''unauthorized'' ''authentication''
                           (st\<lparr>ctl_obs := count_admin_error (ctl_obs st)\<rparr>)))
                  else (case execute env command st of
                          None \<Rightarrow> None
                        | Some ((ok, body, drain), st) \<Rightarrow>
                            (let st = log_event env AccessEvent (if ok then ''ok'' else ''error'')
                                   [(''operation'', JStr (command_name command))] st;
                                 st = (if ok then st else st\<lparr>ctl_obs := count_admin_error (ctl_obs st)\<rparr>);
                                 st = (if write_ok \<and> drain then st\<lparr>ctl_shutdown := True\<rparr> else st)
                             in Some (answer write_ok (ok, body) st)))))"

text \<open>One accepted connection of \<open>run_admin\<close>.\<close>

definition admin_connection ::
  "control_env \<Rightarrow> (string \<Rightarrow> string + string \<times> admin_command) \<Rightarrow> string \<Rightarrow> bool
     \<Rightarrow> string \<Rightarrow> string option \<Rightarrow> control_state \<Rightarrow> ((bool \<times> json) option \<times> control_state) option" where
  "admin_connection env decode token write_ok input io_error st =
     (let st = st\<lparr>ctl_obs := (ctl_obs st)\<lparr>obs_connections := obs_connections (ctl_obs st) + 1\<rparr>\<rparr>
      in map_option (\<lambda>(response, ok, st).
             (response, if ok then st else st\<lparr>ctl_obs := count_admin_error (ctl_obs st)\<rparr>))
           (serve_connection env decode token write_ok input io_error st))"

section \<open>Process start\<close>

text \<open>
  What the operating system and the Pingora server answer when the process binds its sockets
  and starts its threads: an error or nothing.
\<close>

record bind_results =
  br_http_spawn :: "build_error option"
  br_forward :: "listener \<Rightarrow> string option"
  br_tcp :: "listener \<Rightarrow> string option"
  br_transparent :: "string option"
  br_transparent_v6 :: "string option"
  br_admin :: "string option"

fun first_error :: "('a \<Rightarrow> 'e option) \<Rightarrow> 'a list \<Rightarrow> 'e option" where
  "first_error f [] = None"
| "first_error f (x # xs) = (case f x of Some e \<Rightarrow> Some e | None \<Rightarrow> first_error f xs)"

fun bind_tcp_listeners ::
  "route_engine \<Rightarrow> (listener \<Rightarrow> string option) \<Rightarrow> listener list
     \<Rightarrow> process_error + (listener \<times> tcp_proxy) list" where
  "bind_tcp_listeners engine bind [] = Inr []"
| "bind_tcp_listeners engine bind (l # ls) =
     (case tcp_route_target engine l of
        Inl e \<Rightarrow> Inl e
      | Inr t \<Rightarrow>
          (case bind l of
             Some e \<Rightarrow> Inl (Io e)
           | None \<Rightarrow>
               (case bind_tcp_listeners engine bind ls of
                  Inl e \<Rightarrow> Inl e
                | Inr bs \<Rightarrow> Inr ((l, tcp_bind t) # bs))))"

text \<open>\<open>ForwardProxyBinding::bind\<close>: a forward proxy needs a readable credential.\<close>

definition forward_bind ::
  "control_env \<Rightarrow> (listener \<Rightarrow> string option) \<Rightarrow> listener \<Rightarrow> process_error option" where
  "forward_bind env bind l =
     (case proxy_authentication l of
        None \<Rightarrow> Some (Configuration ''managed forward-proxy listeners require proxy authentication'')
      | Some auth \<Rightarrow>
          (case load_proxy_credential (ce_base64 env) (ce_fs env) auth of
             Inl e \<Rightarrow> Some (HttpBuild e)
           | Inr _ \<Rightarrow> map_option Io (bind l)))"

definition start_http ::
  "control_env \<Rightarrow> bind_results \<Rightarrow> router_config \<Rightarrow> process_error + telemetry" where
  "start_http env binds c =
     (if http_listeners c = [] then Inr (telemetry_new 256)
      else case data_plane_new (ce_bind_text env) (ce_base64 env) (ce_fs env)
                  (http_listeners c) (spec_identity (config_spec c)) default_proxy_options of
             Inl e \<Rightarrow> Inl (HttpBuild e)
           | Inr plane \<Rightarrow>
               (case br_http_spawn binds of
                  Some e \<Rightarrow> Inl (HttpBuild e)
                | None \<Rightarrow> Inr (dp_telemetry plane)))"

definition start_transparent ::
  "bind_results \<Rightarrow> router_config \<Rightarrow> process_error + transparent_target list list" where
  "start_transparent binds c =
     (case spec_transparent_proxy (config_spec c) of
        None \<Rightarrow> Inr []
      | Some proxy \<Rightarrow>
          (case br_transparent binds of
             Some e \<Rightarrow> Inl (Io e)
           | None \<Rightarrow>
               (case br_transparent_v6 binds of
                  Some e \<Rightarrow> Inl (Io e)
                | None \<Rightarrow> Inr [transparent_targets proxy, transparent_targets proxy])))"

definition process_start ::
  "control_env \<Rightarrow> bind_results \<Rightarrow> string \<Rightarrow> router_config \<Rightarrow> (process_error + control_state) option" where
  "process_start env binds token c =
     (if token = [] then Some (Inl (Configuration ''administration token must not be empty''))
      else case validate_runtime_config env c of
             None \<Rightarrow> None
           | Some (Inl e) \<Rightarrow> Some (Inl e)
           | Some (Inr _) \<Rightarrow>
               (case engine_new (ce_digest env) c of
                  None \<Rightarrow> None
                | Some (Inl e) \<Rightarrow> Some (Inl (Configuration (apply_error_text e)))
                | Some (Inr engine) \<Rightarrow> Some
                    (case start_http env binds c of
                       Inl e \<Rightarrow> Inl e
                     | Inr http \<Rightarrow>
                         (case first_error (forward_bind env (br_forward binds))
                                 (filter (\<lambda>l. proxy_identity l \<noteq> None) (spec_listeners (config_spec c))) of
                            Some e \<Rightarrow> Inl e
                          | None \<Rightarrow>
                              (case bind_tcp_listeners engine (br_tcp binds) (tcp_listeners c) of
                                 Inl e \<Rightarrow> Inl e
                               | Inr tcp \<Rightarrow>
                                   (case start_transparent binds c of
                                      Inl e \<Rightarrow> Inl e
                                    | Inr transparent \<Rightarrow>
                                        (case br_admin binds of
                                           Some e \<Rightarrow> Inl (Io e)
                                         | None \<Rightarrow> Inr
                                             \<lparr>ctl_engine = engine,
                                              ctl_initial_listeners = spec_listeners (config_spec c),
                                              ctl_initial_identity = spec_identity (config_spec c),
                                              ctl_initial_transparent = transparent_key c,
                                              ctl_tcp = tcp, ctl_transparent = transparent,
                                              ctl_http = http, ctl_obs = observability_new,
                                              ctl_shutdown = False\<rparr>)))))))"

end
