(* ===== verification/RouterAdmin.thy ===== *)
theory RouterAdmin
  imports RouterControl
begin

text \<open>
  Properties of the router process: the invariant that ties the TCP and transparent listeners
  to the active snapshot, which start-up establishes and every administration connection
  keeps; the outcome of \<open>Apply\<close>; the administration token; the frames; the redaction and the
  bound of the event log.
\<close>

section \<open>Tokens and frames\<close>

lemma or_eq_0_word: "or a b = 0 \<longleftrightarrow> a = 0 \<and> b = 0" for a b :: "'a::len word"
  by (auto simp: bit_eq_iff bit_or_iff)

lemma xor_eq_0_word: "xor a b = 0 \<longleftrightarrow> a = b" for a b :: "'a::len word"
  by (auto simp: bit_eq_iff bit_xor_iff)

lemma byte_at_eq:
  assumes "i < length left" "i < length right"
  shows "byte_at left i = byte_at right i \<longleftrightarrow> left ! i = right ! i"
proof -
  have "byte c < 256" for c by (metis of_char_mod_256 mod_less_divisor zero_less_numeral)
  then have "unat (word_of_nat (byte c) :: u8) = byte c" for c
    by (simp add: unat_of_nat take_bit_eq_mod)
  then show ?thesis using assms by (metis byte_at_def of_char_eq_iff)
qed

lemma byte_differences_0:
  "byte_differences left right is d = 0 \<longleftrightarrow>
     d = 0 \<and> (\<forall>i\<in>set is. byte_at left i = byte_at right i)"
proof (induction "is" arbitrary: d)
  case (Cons i "is")
  have "bit (x :: u8) n \<Longrightarrow> n < 8 \<and> n < 64" for x n
    using bit_imp_le_length [of x n] by simp
  then have "(ucast (x :: u8) :: u64) = 0 \<longleftrightarrow> x = 0" for x
    unfolding bit_eq_iff bit_ucast_iff by auto
  with Cons show ?case by (auto simp: or_eq_0_word xor_eq_0_word)
qed simp

lemma constant_time_eq_iff:
  assumes "length left < 2 ^ 64" "length right < 2 ^ 64"
  shows "constant_time_eq left right \<longleftrightarrow> left = right"
proof -
  have len: "(word_of_nat (length left) :: u64) = word_of_nat (length right) \<longleftrightarrow>
      length left = length right"
    using assms by (auto simp: word_of_nat_eq_iff take_bit_eq_mod)
  show ?thesis
    unfolding constant_time_eq_def byte_differences_0 xor_eq_0_word len
    by (auto intro!: nth_equalityI simp: byte_at_eq)
qed

lemma read_frame_acc:
  "length frame \<le> MAX_FRAME_BYTES \<Longrightarrow> read_frame input io_error frame = Inr f \<longleftrightarrow>
     (\<exists>g rest. f = frame @ g \<and> input = g @ CHR 0x0A # rest \<and> CHR 0x0A \<notin> set g \<and>
        length f \<le> MAX_FRAME_BYTES)"
proof (induction input io_error frame rule: read_frame.induct)
  case (1 io_error frame)
  then show ?case by simp
next
  case (2 b bs io_error frame)
  show ?case
  proof (cases "b = CHR 0x0A")
    case True
    with 2(2) show ?thesis
      by (auto simp: Cons_eq_append_conv)
  next
    case False
    have shift: "(\<exists>g rest. f = frame @ g \<and> b # bs = g @ CHR 0x0A # rest \<and> CHR 0x0A \<notin> set g \<and>
        length f \<le> MAX_FRAME_BYTES) \<longleftrightarrow>
      (\<exists>g rest. f = (frame @ [b]) @ g \<and> bs = g @ CHR 0x0A # rest \<and> CHR 0x0A \<notin> set g \<and>
        length f \<le> MAX_FRAME_BYTES)"
      using False by (auto simp: Cons_eq_append_conv)
    show ?thesis
    proof (cases "length frame = MAX_FRAME_BYTES")
      case True
      with False show ?thesis unfolding shift by auto
    next
      case nf: False
      with "2.prems" have "length (frame @ [b]) \<le> MAX_FRAME_BYTES" by simp
      from "2.IH" [OF False nf this] False nf show ?thesis unfolding shift by simp
    qed
  qed
qed

section \<open>Redaction\<close>

definition redacted :: "json \<Rightarrow> bool" where
  "redacted j \<longleftrightarrow> (\<forall>k v. occurs k v j \<longrightarrow> sensitive_key k \<longrightarrow> v = REDACTED)"

lemma redacted_guarded: "redacted = guarded (\<lambda>k v. sensitive_key k \<longrightarrow> v = REDACTED)"
  by (simp add: fun_eq_iff redacted_def guarded_def)

lemma redacted_simps:
  "redacted (JObj ms) \<longleftrightarrow>
     (\<forall>(k, v)\<in>set ms. redacted v \<and> (sensitive_key k \<longrightarrow> v = REDACTED))"
  "redacted (JArr js) \<longleftrightarrow> (\<forall>j\<in>set js. redacted j)"
  unfolding redacted_guarded guarded_simps by auto

lemma redacted_atom [simp]: "redacted REDACTED"
  by (simp add: redacted_def REDACTED_def)

lemma redact_value_redacted: "redacted (redact_value j)"
proof (induction j rule: redact_value.induct)
  case (1 ms)
  then show ?case by (auto simp: redacted_simps)
next
  case (2 js)
  then show ?case by (auto simp: redacted_simps)
qed (simp_all add: redacted_def)

lemma redact_value_id: "redacted j \<Longrightarrow> redact_value j = j"
proof (induction j rule: redact_value.induct)
  case (1 ms)
  then show ?case by (auto simp: redacted_simps intro!: map_idI)
next
  case (2 js)
  then show ?case by (auto simp: redacted_simps intro!: map_idI)
qed simp_all

lemma make_event_redacted: "redacted (JObj (ev_fields (make_event now e obs)))"
  by (cases e) (auto simp: make_event_def redacted_simps redact_value_redacted)

interpretation control_log: bounded_log obs_events "\<lambda>_. MAX_EVENTS" "make_event now" "emit now" for now
  by unfold_locales (simp_all add: emit_def push_bounded_last_n MAX_EVENTS_def)

definition log_ok :: "observability \<Rightarrow> bool" where
  "log_ok obs \<longleftrightarrow>
     length (obs_events obs) \<le> MAX_EVENTS \<and> (\<forall>e\<in>set (obs_events obs). redacted (JObj (ev_fields e)))"

lemma emit_log_ok: "log_ok obs \<Longrightarrow> log_ok (emit now e obs)"
proof -
  assume ok: "log_ok obs"
  then have "obs_events (emit now e obs) = last_n MAX_EVENTS (obs_events obs @ [make_event now e obs])"
    by (simp add: log_ok_def control_log.push_log)
  moreover have "set (last_n MAX_EVENTS xs) \<subseteq> set xs" for xs :: "router_event list"
    unfolding last_n_def by (rule set_drop_subset)
  ultimately have "set (obs_events (emit now e obs)) \<subseteq> set (obs_events obs @ [make_event now e obs])"
    and "length (obs_events (emit now e obs)) \<le> MAX_EVENTS"
    by (simp only:, simp)
  with ok make_event_redacted [of now e obs] show ?thesis unfolding log_ok_def by auto
qed

lemma rejection_log_ok: "log_ok obs \<Longrightarrow> log_ok (rejection now code operation obs)"
  by (simp add: rejection_def emit_log_ok)

lemma log_ok_counters [simp]:
  "log_ok (obs\<lparr>obs_requests := n\<rparr>) = log_ok obs" "log_ok (obs\<lparr>obs_connections := n\<rparr>) = log_ok obs"
  "log_ok (count_admin_error obs) = log_ok obs"
  by (simp_all add: log_ok_def count_admin_error_def)

section \<open>The invariant of the control state\<close>

definition active_config :: "control_state \<Rightarrow> router_config" where
  "active_config st = cs_config (engine_snapshot (ctl_engine st))"

text \<open>The TCP and transparent listeners follow the active snapshot.\<close>

definition listeners_follow :: "control_state \<Rightarrow> bool" where
  "listeners_follow st \<longleftrightarrow>
     map fst (ctl_tcp st) = tcp_listeners (active_config st) \<and>
     (\<forall>(l, proxy)\<in>set (ctl_tcp st). tcp_route_target (ctl_engine st) l = Inr (px_target proxy)) \<and>
     (\<forall>ts\<in>set (ctl_transparent st).
        Some ts = map_option transparent_targets (spec_transparent_proxy (config_spec (active_config st))))"

definition control_inv :: "(router_config \<Rightarrow> string) \<Rightarrow> control_state \<Rightarrow> bool" where
  "control_inv digest st \<longleftrightarrow>
     engine_inv digest (ctl_engine st) \<and>
     spec_listeners (config_spec (active_config st)) = ctl_initial_listeners st \<and>
     spec_identity (config_spec (active_config st)) = ctl_initial_identity st \<and>
     transparent_key (active_config st) = ctl_initial_transparent st \<and>
     listeners_follow st \<and> log_ok (ctl_obs st)"

lemma engine_new_total:
  "\<exists>r. engine_new digest c = Some r"
  by (cases rule: compile_cases [of c digest]) (auto simp: engine_new_def)

lemma engine_new_snapshot:
  "engine_new digest c = Some (Inr engine) \<Longrightarrow>
     compile digest c = Some (Inr (engine_snapshot engine)) \<and> cs_config (engine_snapshot engine) = c"
  by (cases rule: compile_cases [of c digest]) (auto simp: engine_new_def engine_snapshot_def)

lemma check_tcp_targets_iff:
  "check_tcp_targets engine ls = Inr () \<longleftrightarrow> (\<forall>l\<in>set ls. \<exists>t. tcp_route_target engine l = Inr t)"
  by (induction ls) (auto split: sum.splits)

lemma tcp_route_target_snapshot:
  "engine_snapshot e = engine_snapshot e' \<Longrightarrow> tcp_route_target e l = tcp_route_target e' l"
  by (auto simp: tcp_route_target_def split: list.splits)

lemma validate_runtime_config_ok:
  assumes "validate_runtime_config env c = Some (Inr u)"
    and "engine_new (ce_digest env) c = Some (Inr engine)"
  shows "\<forall>l\<in>set (tcp_listeners c). \<exists>t. tcp_route_target engine l = Inr t"
  using assms check_tcp_targets_iff
  by (auto simp: validate_runtime_config_def split: if_splits sum.splits)

lemma validate_runtime_config_total: "\<exists>r. validate_runtime_config env c = Some r"
  using engine_new_total [of "ce_digest env" c]
  by (auto simp: validate_runtime_config_def split: sum.splits)

lemma validate_candidate_total: "\<exists>r. validate_candidate env st c = Some r"
  using engine_new_total [of "ce_digest env" c] validate_runtime_config_total [of env c]
  by (auto simp: validate_candidate_def split: sum.splits)

lemma validate_candidate_ok:
  assumes "validate_candidate env st c = Some (Inr candidate)"
  shows "spec_listeners (config_spec c) = ctl_initial_listeners st"
    and "spec_identity (config_spec c) = ctl_initial_identity st"
    and "transparent_key c = ctl_initial_transparent st"
    and "engine_new (ce_digest env) c = Some (Inr candidate)"
    and "\<forall>l\<in>set (tcp_listeners c). \<exists>t. tcp_route_target candidate l = Inr t"
proof -
  from assms show "spec_listeners (config_spec c) = ctl_initial_listeners st"
    "spec_identity (config_spec c) = ctl_initial_identity st"
    "transparent_key c = ctl_initial_transparent st"
    by (auto simp: validate_candidate_def split: if_splits)
  from assms obtain u where u: "validate_runtime_config env c = Some (Inr u)"
    and e: "engine_new (ce_digest env) c = Some (Inr candidate)"
    using engine_new_total [of "ce_digest env" c]
    by (fastforce simp: validate_candidate_def split: if_splits option.splits sum.splits)
  then show "engine_new (ce_digest env) c = Some (Inr candidate)"
    "\<forall>l\<in>set (tcp_listeners c). \<exists>t. tcp_route_target candidate l = Inr t"
    by (auto dest: validate_runtime_config_ok)
qed

lemma reload_target [simp]: "px_target (reload t policy p) = t"
  by (simp add: reload_def reload_take_def deliver_all)

lemma reload_bindings_ok:
  "\<forall>l\<in>set (map fst bs). \<exists>t. tcp_route_target engine l = Inr t \<Longrightarrow>
     snd (reload_bindings engine policy bs) = None \<and>
     map fst (fst (reload_bindings engine policy bs)) = map fst bs \<and>
     (\<forall>(l, proxy)\<in>set (fst (reload_bindings engine policy bs)).
        tcp_route_target engine l = Inr (px_target proxy))"
  by (induction bs) (auto split: sum.splits prod.splits)

lemma bind_tcp_listeners_ok:
  "bind_tcp_listeners engine bind ls = Inr bs \<Longrightarrow>
     map fst bs = ls \<and> (\<forall>(l, proxy)\<in>set bs. tcp_route_target engine l = Inr (px_target proxy))"
  by (induction ls arbitrary: bs) (auto simp: tcp_bind_def split: sum.splits option.splits)

text \<open>Changes of the observations alone keep the invariant.\<close>

lemma control_inv_obs:
  "control_inv digest st \<Longrightarrow> log_ok obs \<Longrightarrow> control_inv digest (st\<lparr>ctl_obs := obs\<rparr>)"
  by (simp add: control_inv_def listeners_follow_def active_config_def)

lemma control_inv_log:
  assumes "control_inv digest st"
  shows "control_inv digest (log_event env kind result kvs st)"
    and "control_inv digest (log_rejection env code operation st)"
    and "control_inv digest (st\<lparr>ctl_obs := count_admin_error (ctl_obs st)\<rparr>)"
    and "control_inv digest (st\<lparr>ctl_obs := (ctl_obs st)\<lparr>obs_requests := n\<rparr>\<rparr>)"
    and "control_inv digest (st\<lparr>ctl_obs := (ctl_obs st)\<lparr>obs_connections := n\<rparr>\<rparr>)"
    and "control_inv digest (st\<lparr>ctl_shutdown := b\<rparr>)"
proof -
  have "log_ok (ctl_obs st)" using assms by (simp add: control_inv_def)
  then show "control_inv digest (log_event env kind result kvs st)"
    "control_inv digest (log_rejection env code operation st)"
    "control_inv digest (st\<lparr>ctl_obs := count_admin_error (ctl_obs st)\<rparr>)"
    "control_inv digest (st\<lparr>ctl_obs := (ctl_obs st)\<lparr>obs_requests := n\<rparr>\<rparr>)"
    "control_inv digest (st\<lparr>ctl_obs := (ctl_obs st)\<lparr>obs_connections := n\<rparr>\<rparr>)"
    by (simp_all add: log_event_def log_rejection_def control_inv_obs [OF assms] emit_log_ok
        rejection_log_ok)
  show "control_inv digest (st\<lparr>ctl_shutdown := b\<rparr>)"
    using assms by (simp add: control_inv_def listeners_follow_def active_config_def)
qed

text \<open>The part of the state that routes traffic or stops the process.\<close>

definition same_routing :: "control_state \<Rightarrow> control_state \<Rightarrow> bool" where
  "same_routing st st' \<longleftrightarrow>
     ctl_engine st' = ctl_engine st \<and> ctl_tcp st' = ctl_tcp st \<and>
     ctl_transparent st' = ctl_transparent st \<and> ctl_http st' = ctl_http st \<and>
     ctl_shutdown st' = ctl_shutdown st"

lemma same_routing_log [simp]:
  "same_routing st (log_event env kind result kvs st') = same_routing st st'"
  "same_routing st (log_rejection env code operation st') = same_routing st st'"
  "same_routing st (st'\<lparr>ctl_obs := obs\<rparr>) = same_routing st st'"
  "same_routing st st"
  by (simp_all add: same_routing_def log_event_def log_rejection_def)

lemma start_inv:
  assumes "process_start env binds token c = Some (Inr st)"
  shows "control_inv (ce_digest env) st" and "active_config st = c"
proof -
  from assms obtain engine http tcp transparent where
    e: "engine_new (ce_digest env) c = Some (Inr engine)"
    and tcp: "bind_tcp_listeners engine (br_tcp binds) (tcp_listeners c) = Inr tcp"
    and tr: "start_transparent binds c = Inr transparent"
    and st: "st = \<lparr>ctl_engine = engine, ctl_initial_listeners = spec_listeners (config_spec c),
      ctl_initial_identity = spec_identity (config_spec c), ctl_initial_transparent = transparent_key c,
      ctl_tcp = tcp, ctl_transparent = transparent, ctl_http = http, ctl_obs = observability_new,
      ctl_shutdown = False\<rparr>"
    by (auto simp: process_start_def split: if_splits option.splits sum.splits)
  have c: "cs_config (engine_snapshot engine) = c" using engine_new_snapshot [OF e] by simp
  then show "active_config st = c" by (simp add: active_config_def st)
  have "\<forall>ts\<in>set transparent. Some ts = map_option transparent_targets (spec_transparent_proxy (config_spec c))"
    using tr by (auto simp: start_transparent_def split: option.splits)
  with bind_tcp_listeners_ok [OF tcp] c engine_new_inv [OF e]
  show "control_inv (ce_digest env) st"
    by (simp add: control_inv_def listeners_follow_def active_config_def st log_ok_def
        observability_new_def)
qed

section \<open>Applying a configuration\<close>

lemma engine_apply_result:
  assumes "engine_inv digest e" and "engine_new digest c = Some (Inr candidate)"
  shows "engine_apply digest c e =
     (if version (engine_snapshot candidate) \<le> version (engine_snapshot e)
      then Some (Inr \<lparr>ack_version = version (engine_snapshot candidate),
             ack_checksum = cs_checksum (engine_snapshot candidate), ack_status = RejectedStale\<rparr>, e)
      else Some (Inr \<lparr>ack_version = version (engine_snapshot candidate),
             ack_checksum = cs_checksum (engine_snapshot candidate), ack_status = Activated\<rparr>,
             e\<lparr>eng_current := engine_snapshot candidate, eng_previous := Some (eng_current e)\<rparr>))"
  using engine_new_snapshot [OF assms(2)] assms(1)
  by (simp add: engine_apply_def engine_commit_def engine_inv_def engine_snapshot_def Let_def)

lemma follow_stale:
  assumes "ack_status ack = RejectedStale"
  shows "follow_snapshot env ack st =
     ((True, jobj [(''version'', JUInt (ack_version ack)), (''checksum'', JStr (ack_checksum ack)),
        (''status'', JStr ''rejected_stale'')], False),
      log_event env Reload ''rejected_stale'' [(''version'', JUInt (ack_version ack))] st)"
  using assms by (simp add: follow_snapshot_def status_text_def Let_def split: option.splits)

text \<open>The state after the listeners have followed a newly activated snapshot.\<close>

definition followed :: "control_state \<Rightarrow> control_state" where
  "followed st =
     st\<lparr>ctl_tcp := fst (reload_bindings (ctl_engine st)
            (transition_policy_of (transition (engine_snapshot (ctl_engine st)) Tcp)) (ctl_tcp st)),
        ctl_transparent :=
          (case spec_transparent_proxy (config_spec (active_config st)) of
             None \<Rightarrow> ctl_transparent st
           | Some p \<Rightarrow> map (\<lambda>_. transparent_targets p) (ctl_transparent st))\<rparr>"

lemma follow_activated:
  assumes "ack_status ack = Activated"
    and "\<forall>l\<in>set (map fst (ctl_tcp st)). \<exists>t. tcp_route_target (ctl_engine st) l = Inr t"
  shows "follow_snapshot env ack st =
     ((True, jobj [(''version'', JUInt (ack_version ack)), (''checksum'', JStr (ack_checksum ack)),
        (''status'', JStr ''activated'')], False),
      log_event env Reload ''activated'' [(''version'', JUInt (ack_version ack))] (followed st))"
proof -
  obtain tcp where "reload_bindings (ctl_engine st)
      (transition_policy_of (transition (engine_snapshot (ctl_engine st)) Tcp)) (ctl_tcp st) = (tcp, None)"
    using reload_bindings_ok [OF assms(2)] by (metis prod.collapse)
  with assms(1) show ?thesis
    by (simp add: follow_snapshot_def followed_def active_config_def status_text_def Let_def
        split: option.splits)
qed

lemma followed_inv:
  assumes inv: "control_inv digest st"
    and e: "engine_inv digest e" and c: "cs_config (engine_snapshot e) = c"
    and same: "spec_listeners (config_spec c) = ctl_initial_listeners st"
      "spec_identity (config_spec c) = ctl_initial_identity st"
      "transparent_key c = ctl_initial_transparent st"
    and tcp: "\<forall>l\<in>set (tcp_listeners c). \<exists>t. tcp_route_target e l = Inr t"
  shows "control_inv digest (followed (st\<lparr>ctl_engine := e\<rparr>))"
    and "\<forall>l\<in>set (map fst (ctl_tcp st)). \<exists>t. tcp_route_target e l = Inr t"
proof -
  let ?st = "st\<lparr>ctl_engine := e\<rparr>"
  have ls: "map fst (ctl_tcp st) = tcp_listeners c"
    using inv same(1) by (simp add: control_inv_def listeners_follow_def tcp_listeners_def)
  then show targets: "\<forall>l\<in>set (map fst (ctl_tcp st)). \<exists>t. tcp_route_target e l = Inr t"
    using tcp by simp
  have ac: "active_config ?st = c" "active_config (followed ?st) = c"
    using c by (simp_all add: active_config_def followed_def)
  have "(spec_transparent_proxy (config_spec c) = None) =
      (spec_transparent_proxy (config_spec (active_config st)) = None)"
    using inv same(3) by (auto simp: control_inv_def transparent_key_def split: option.splits)
  then have "\<forall>ts\<in>set (ctl_transparent (followed ?st)). Some ts =
      map_option transparent_targets (spec_transparent_proxy (config_spec c))"
    using inv by (auto simp: followed_def ac control_inv_def listeners_follow_def split: option.splits)
  then have "listeners_follow (followed ?st)"
    using reload_bindings_ok [OF targets] ls
    by (simp add: listeners_follow_def ac) (simp add: followed_def)
  moreover have "log_ok (ctl_obs (followed ?st))" using inv by (simp add: control_inv_def followed_def)
  ultimately show "control_inv digest (followed ?st)"
    using e same unfolding control_inv_def ac by (simp add: followed_def)
qed

text \<open>The machine-readable code of an error reply.\<close>

definition body_code :: "json \<Rightarrow> string option" where
  "body_code body =
     (case body of
        JObj ms \<Rightarrow> (case map_of ms ''code'' of Some (JStr code) \<Rightarrow> Some code | _ \<Rightarrow> None)
      | _ \<Rightarrow> None)"

lemma body_code_values:
  "body_code (error_value code message) = Some code"
  "body_code (jobj [(''version'', a), (''checksum'', b), (''status'', d)]) = None"
  by (simp_all add: body_code_def error_value_def jobj_def members_of_def bt_get_insert
      split: if_splits)

definition apply_outcome ::
  "control_env \<Rightarrow> router_config \<Rightarrow> control_state \<Rightarrow> json \<Rightarrow> bool \<Rightarrow> control_state \<Rightarrow> bool" where
  "apply_outcome env c st body ok st' \<longleftrightarrow>
     same_routing st st' \<and>
       body_code body \<in> {None, Some ''invalid_configuration'', Some ''provider_unhealthy''} \<or>
     ok \<and> body_code body = None \<and> active_config st' = c \<and>
       version (engine_snapshot (ctl_engine st)) < version (engine_snapshot (ctl_engine st')) \<and>
       (\<exists>candidate. engine_new (ce_digest env) c = Some (Inr candidate) \<and>
          failed_providers (readiness (ce_nets env) 0 (probe_targets candidate) bt_empty) = [])"

text \<open>The three replies of \<open>Apply\<close>: refused, stale, or activated.\<close>

definition ack_body :: "u64 \<Rightarrow> string \<Rightarrow> string \<Rightarrow> json" where
  "ack_body v checksum status =
     jobj [(''version'', JUInt v), (''checksum'', JStr checksum), (''status'', JStr status)]"

definition apply_reply ::
  "control_env \<Rightarrow> router_config \<Rightarrow> control_state \<Rightarrow> json \<Rightarrow> bool \<Rightarrow> control_state \<Rightarrow> bool" where
  "apply_reply env c st body ok st' \<longleftrightarrow>
     \<not> ok \<and> same_routing st st' \<and>
       body_code body \<in> {Some ''invalid_configuration'', Some ''provider_unhealthy''} \<or>
     ok \<and> same_routing st st' \<and> (\<exists>v checksum. body = ack_body v checksum ''rejected_stale'') \<or>
     ok \<and> active_config st' = c \<and>
       body = ack_body (version (engine_snapshot (ctl_engine st')))
         (cs_checksum (engine_snapshot (ctl_engine st'))) ''activated'' \<and>
       version (engine_snapshot (ctl_engine st)) < version (engine_snapshot (ctl_engine st')) \<and>
       (\<exists>candidate. engine_new (ce_digest env) c = Some (Inr candidate) \<and>
          failed_providers (readiness (ce_nets env) 0 (probe_targets candidate) bt_empty) = [])"

lemma apply_reply_outcome: "apply_reply env c st body ok st' \<Longrightarrow> apply_outcome env c st body ok st'"
  by (auto simp: apply_reply_def apply_outcome_def ack_body_def body_code_values)

lemma unhealthy_code:
  "body_code (fst (snd (fst (unhealthy_reply env a b failed st)))) = Some ''provider_unhealthy''"
  by (simp add: unhealthy_reply_def body_code_def jobj_def members_of_def bt_get_insert Let_def)

lemma unhealthy_refused: "\<not> fst (fst (unhealthy_reply env a b failed st))"
  by (simp add: unhealthy_reply_def Let_def)

lemma unhealthy_state:
  "same_routing st (snd (unhealthy_reply env a b failed st))"
  "control_inv digest st \<Longrightarrow> control_inv digest (snd (unhealthy_reply env a b failed st))"
  "snd (snd (fst (unhealthy_reply env a b failed st))) = False"
  by (simp_all add: unhealthy_reply_def Let_def control_inv_log)

lemma execute_apply_reply:
  assumes inv: "control_inv (ce_digest env) st"
  shows "\<exists>ok body st'. execute_apply env c st = Some ((ok, body, False), st') \<and>
     control_inv (ce_digest env) st' \<and> apply_reply env c st body ok st'"
proof -
  obtain r where r: "validate_candidate env st c = Some r" using validate_candidate_total by blast
  have ei: "engine_inv (ce_digest env) (ctl_engine st)" using inv by (simp add: control_inv_def)
  show ?thesis
  proof (cases r)
    case (Inl message)
    with r show ?thesis
      by (auto simp: execute_apply_def apply_reply_def body_code_values control_inv_log [OF inv])
  next
    case (Inr candidate)
    note ok = validate_candidate_ok [OF r [unfolded Inr]]
    let ?old = "version (engine_snapshot (ctl_engine st))" and ?new = "version (engine_snapshot candidate)"
    let ?failed = "failed_providers (readiness (ce_nets env) 0 (probe_targets candidate) bt_empty)"
    let ?e = "(ctl_engine st)\<lparr>eng_current := engine_snapshot candidate,
        eng_previous := Some (eng_current (ctl_engine st))\<rparr>"
    consider (unhealthy) "?old < ?new" "?failed \<noteq> []" | (stale) "?new \<le> ?old"
      | (fresh) "?old < ?new" "?failed = []" by fastforce
    then show ?thesis
    proof cases
      case unhealthy
      then have "execute_apply env c st = Some (unhealthy_reply env ?old ?new ?failed st)"
        by (simp add: execute_apply_def r Inr Let_def)
      then show ?thesis
        using unhealthy_state [where st = st and env = env and a = ?old and b = ?new and failed = ?failed]
          inv unhealthy_code [of env ?old ?new ?failed st]
          unhealthy_refused [of env ?old ?new ?failed st]
        by (cases "unhealthy_reply env ?old ?new ?failed st") (auto simp: apply_reply_def)
    next
      case stale
      then have "execute_apply env c st =
          Some (follow_snapshot env \<lparr>ack_version = ?new,
             ack_checksum = cs_checksum (engine_snapshot candidate), ack_status = RejectedStale\<rparr> st)"
        using engine_apply_result [OF ei ok(4)] by (simp add: execute_apply_def r Inr Let_def)
      then show ?thesis
        by (auto simp: follow_stale apply_reply_def ack_body_def control_inv_log [OF inv])
    next
      case fresh
      have snap: "engine_snapshot ?e = engine_snapshot candidate" by (simp add: engine_snapshot_def)
      have cfg: "cs_config (engine_snapshot ?e) = c" using engine_new_snapshot [OF ok(4)] snap by simp
      have applied: "engine_apply (ce_digest env) c (ctl_engine st) =
          Some (Inr \<lparr>ack_version = ?new, ack_checksum = cs_checksum (engine_snapshot candidate),
             ack_status = Activated\<rparr>, ?e)"
        using engine_apply_result [OF ei ok(4)] fresh(1) by simp
      have "engine_inv (ce_digest env) ?e"
        using ei fresh(1) compile_sound [of "ce_digest env" c] engine_new_snapshot [OF ok(4)]
        by (simp add: engine_inv_def engine_snapshot_def)
      note follow = followed_inv [OF inv this cfg ok(1-3)]
      have "\<forall>l\<in>set (tcp_listeners c). \<exists>t. tcp_route_target ?e l = Inr t"
        using ok(5) tcp_route_target_snapshot [OF snap] by simp
      note follow = follow [OF this]
      let ?st = "followed (st\<lparr>ctl_engine := ?e\<rparr>)"
      let ?st' = "log_event env Reload ''activated'' [(''version'', JUInt ?new)] ?st"
      let ?body = "jobj [(''version'', JUInt ?new),
        (''checksum'', JStr (cs_checksum (engine_snapshot candidate))), (''status'', JStr ''activated'')]"
      have "execute_apply env c st =
          Some (follow_snapshot env \<lparr>ack_version = ?new,
             ack_checksum = cs_checksum (engine_snapshot candidate), ack_status = Activated\<rparr>
             (st\<lparr>ctl_engine := ?e\<rparr>))"
        using fresh by (simp add: execute_apply_def r Inr applied Let_def)
      also have "\<dots> = Some ((True, ?body, False), ?st')"
        by (subst follow_activated) (use follow(2) in simp_all)
      finally have eq: "execute_apply env c st = Some ((True, ?body, False), ?st')" .
      have "engine_snapshot (ctl_engine ?st') = engine_snapshot candidate"
        by (simp add: log_event_def followed_def snap)
      moreover from this have "active_config ?st' = c" using cfg snap by (simp add: active_config_def)
      ultimately have "apply_reply env c st ?body True ?st'"
        using fresh ok(4) by (simp add: apply_reply_def ack_body_def)
      with eq control_inv_log(1) [OF follow(1)] show ?thesis by blast
    qed
  qed
qed

lemma execute_apply_outcome:
  assumes "control_inv (ce_digest env) st"
  shows "\<exists>ok body st'. execute_apply env c st = Some ((ok, body, False), st') \<and>
     control_inv (ce_digest env) st' \<and> apply_outcome env c st body ok st'"
  using execute_apply_reply [OF assms] apply_reply_outcome by blast

lemma execute_total:
  assumes "control_inv (ce_digest env) st"
  shows "\<exists>reply st'. execute env command st = Some (reply, st') \<and> control_inv (ce_digest env) st'"
proof (cases command)
  case (ValidateConfig c)
  obtain r where "validate_candidate env st c = Some r" using validate_candidate_total by blast
  with ValidateConfig assms show ?thesis by (cases r) (auto simp: control_inv_log)
next
  case (ApplyConfig c)
  then show ?thesis using execute_apply_outcome [OF assms, of c] by auto
qed (use assms in \<open>auto simp: control_inv_log split: prod.splits\<close>)

lemma serve_connection_total:
  assumes "control_inv (ce_digest env) st"
  shows "\<exists>response ok st'.
     serve_connection env decode token write_ok input io_error st = Some (response, ok, st') \<and>
     control_inv (ce_digest env) st'"
proof (cases "read_frame input io_error []")
  case (Inl message)
  then show ?thesis by (simp add: serve_connection_def answer_def control_inv_log assms)
next
  case (Inr frame)
  let ?st = "st\<lparr>ctl_obs := (ctl_obs st)\<lparr>obs_requests := obs_requests (ctl_obs st) + 1\<rparr>\<rparr>"
  have inv: "control_inv (ce_digest env) ?st" by (rule control_inv_log(4) [OF assms])
  have rejected: "control_inv (ce_digest env) (log_rejection env code operation
      (?st\<lparr>ctl_obs := count_admin_error (ctl_obs ?st)\<rparr>))" for code operation
    by (rule control_inv_log(2) [OF control_inv_log(3) [OF inv]])
  show ?thesis
  proof (cases "decode frame")
    case (Inl message)
    then show ?thesis
      using Inr rejected by (simp add: serve_connection_def answer_def Let_def)
  next
    case d: (Inr request)
    obtain tok command where req: "request = (tok, command)" by fastforce
    obtain ok body drain st' where ex: "execute env command ?st = Some ((ok, body, drain), st')"
      and inv': "control_inv (ce_digest env) st'"
      using execute_total [OF inv, of command] by auto
    show ?thesis
      using Inr d req ex rejected inv'
      by (simp add: serve_connection_def answer_def Let_def control_inv_log)
  qed
qed

text \<open>One administration connection: the environment, whether the answer can be written, the bytes.\<close>

type_synonym admin_input = "control_env \<times> bool \<times> string \<times> string option"

definition admin_step ::
  "(string \<Rightarrow> string + string \<times> admin_command) \<Rightarrow> string \<Rightarrow> admin_input \<Rightarrow> control_state
     \<Rightarrow> ((bool \<times> json) option \<times> control_state) option" where
  "admin_step decode token i st =
     (case i of (env, write_ok, input, io_error) \<Rightarrow>
        admin_connection env decode token write_ok input io_error st)"

lemma admin_connection_total:
  assumes "control_inv (ce_digest env) st"
  shows "\<exists>response st'. admin_connection env decode token write_ok input io_error st = Some (response, st') \<and>
     control_inv (ce_digest env) st'"
proof -
  let ?st = "st\<lparr>ctl_obs := (ctl_obs st)\<lparr>obs_connections := obs_connections (ctl_obs st) + 1\<rparr>\<rparr>"
  from serve_connection_total [OF control_inv_log(5) [OF assms], of decode token write_ok input io_error
      "obs_connections (ctl_obs st) + 1"]
  obtain response ok st' where
    "serve_connection env decode token write_ok input io_error ?st = Some (response, ok, st')"
    "control_inv (ce_digest env) st'"
    by blast
  then show ?thesis by (auto simp: admin_connection_def Let_def control_inv_log)
qed

interpretation admin: server "admin_step decode token" "control_inv digest"
    "\<lambda>i. ce_digest (fst i) = digest" for decode token digest
proof (unfold_locales, goal_cases)
  case (1 st i)
  then show ?case
    using admin_connection_total [of "fst i" st decode token "fst (snd i)" "fst (snd (snd i))"
        "snd (snd (snd i))"]
    by (auto simp: admin_step_def split: prod.splits)
next
  case (2 st i out st')
  then show ?case
    using admin_connection_total [of "fst i" st decode token "fst (snd i)" "fst (snd (snd i))"
        "snd (snd (snd i))"]
    by (auto simp: admin_step_def split: prod.splits)
qed

section \<open>A worked process\<close>

definition sample_env :: control_env where
  "sample_env =
     \<lparr>ce_digest = \<lambda>_. ''abc'', ce_bind_text = \<lambda>_. ''127.0.0.1:80'', ce_base64 = \<lambda>s. s,
      ce_fs = \<lparr>fs_symlink_metadata = \<lambda>_. Inl ''not found'', fs_read = \<lambda>_. Inl ''not found''\<rparr>,
      ce_nets = \<lambda>_. \<lparr>net_lookup_host = \<lambda>_ port _. Finished (Inr [SocketAddress (V4 2130706433) port]),
        net_connect = \<lambda>_ _. Finished (Inr ()), net_http_get = \<lambda>_ _ _ _ _. Finished (Inr (Some 200)),
        net_task_failed = \<lambda>_ _. None\<rparr>,
      ce_now = 7, ce_protocol_json = \<lambda>_. JNull, ce_transparent_json = \<lambda>_. JNull,
      ce_browser_json = \<lambda>_. JNull\<rparr>"

definition no_bind_errors :: bind_results where
  "no_bind_errors =
     \<lparr>br_http_spawn = None, br_forward = \<lambda>_. None, br_tcp = \<lambda>_. None, br_transparent = None,
      br_transparent_v6 = None, br_admin = None\<rparr>"

text \<open>A decoder for the witnesses: the token, a space, and the first letter of the command.\<close>

definition sample_decode :: "string \<Rightarrow> string + string \<times> admin_command" where
  "sample_decode frame =
     (case split_once CHR '' '' frame of
        None \<Rightarrow> Inl ''malformed''
      | Some (token, rest) \<Rightarrow>
          Inr (token, if rest = ''a'' then ApplyConfig (sample_config 2)
                      else if rest = ''d'' then DrainRouter else Routes))"

definition sample_control :: control_state where
  "sample_control = projr (the (process_start sample_env no_bind_errors ''secret'' (sample_config 1)))"

lemma sample_starts: "process_start sample_env no_bind_errors ''secret'' (sample_config 1) = Some (Inr sample_control)"
proof -
  have "case process_start sample_env no_bind_errors ''secret'' (sample_config 1) of
      Some (Inr _) \<Rightarrow> True | _ \<Rightarrow> False"
    by code_simp
  then show ?thesis by (auto simp: sample_control_def split: option.splits sum.splits)
qed

lemma sample_digest [simp]: "ce_digest sample_env = (\<lambda>_. ''abc'')"
  by (simp add: sample_env_def)

lemma sample_control_inv: "control_inv (ce_digest sample_env) sample_control"
  by (rule start_inv(1) [OF sample_starts])

section \<open>Properties of the router process\<close>

definition admin_run ::
  "(string \<Rightarrow> string + string \<times> admin_command) \<Rightarrow> string \<Rightarrow> admin_input list \<Rightarrow> control_state
     \<Rightarrow> ((bool \<times> json) option list \<times> control_state) option" where
  "admin_run decode token = server.run (admin_step decode token)"

text \<open>
  C22. The router process keeps its listeners in step with its snapshot: a process that has
  started, after any sequence of administration connections (whatever bytes they send, whether
  or not their answers can be written), has handled every one of them without panicking and is
  in a state where the engine's invariant holds, the listeners, identity policy and
  interception settings are those it started with, every TCP listener forwards to the route of
  its slot in the active snapshot, every transparent listener has the active members, and the
  event log is bounded and redacted.
\<close>

theorem control_invariant_maintained:
  assumes "process_start env binds token c = Some (Inr st)"
    and "\<forall>i\<in>set inputs. ce_digest (fst i) = ce_digest env"
  shows "\<exists>outs st'. admin_run decode token inputs st = Some (outs, st') \<and>
     length outs = length inputs \<and> control_inv (ce_digest env) st'"
  using admin.run_total [OF start_inv(1) [OF assms(1)] assms(2)]
    admin.run_inv [OF start_inv(1) [OF assms(1)] assms(2)]
  unfolding admin_run_def by blast

theorem control_invariant_maintained_witness:
  "\<exists>outs st'. admin_run sample_decode ''secret''
     [(sample_env, True, ''secret a'' @ [CHR 0x0A], None), (sample_env, True, ''x'', None)] sample_control =
       Some (outs, st') \<and> length outs = 2 \<and> control_inv (ce_digest sample_env) st'"
  using control_invariant_maintained [OF sample_starts,
      of "[(sample_env, True, ''secret a'' @ [CHR 0x0A], None), (sample_env, True, ''x'', None)]"
      sample_decode] by (simp add: numeral_2_eq_2)

text \<open>
  C23. \<open>Apply\<close> is all or nothing: it never panics and never answers that it failed half-way
  (\<open>apply_failed\<close>, \<open>tcp_reload_failed\<close>). Either it is accepted, and then the active
  configuration is the applied one, its version is strictly newer, every provider passed its
  readiness probe and, by the invariant, all TCP and transparent listeners already follow it;
  or routes, listeners, telemetry and the shutdown request are exactly as before.
\<close>

theorem apply_all_or_nothing:
  assumes "control_inv (ce_digest env) st"
  shows "\<exists>ok body st'. execute env (ApplyConfig c) st = Some ((ok, body, False), st') \<and>
     control_inv (ce_digest env) st' \<and> apply_outcome env c st body ok st'"
  using execute_apply_outcome [OF assms] by simp

theorem apply_all_or_nothing_witness:
  "\<exists>ok body st'. execute sample_env (ApplyConfig (sample_config 2)) sample_control =
       Some ((ok, body, False), st') \<and> active_config st' = sample_config 2 \<and>
     apply_outcome sample_env (sample_config 2) sample_control body ok st'"
proof -
  have "case execute sample_env (ApplyConfig (sample_config 2)) sample_control of
      None \<Rightarrow> False | Some (_, st') \<Rightarrow> snapshot_version (spec_snapshot (config_spec (active_config st'))) = 2"
    by code_simp
  moreover have "snapshot_version (spec_snapshot (config_spec (active_config sample_control))) = 1"
    by code_simp
  ultimately show ?thesis
    using apply_all_or_nothing [OF sample_control_inv, of "sample_config 2"]
    by (fastforce simp: apply_outcome_def same_routing_def active_config_def)
qed

text \<open>
  C24. Without the administration token nothing happens: a request whose token differs from
  the configured one is answered \<open>unauthorized\<close> (if it can be answered at all) and changes
  neither routes, listeners nor telemetry and never stops the process, whatever command it
  carries.
\<close>

theorem unauthorized_request_has_no_effect:
  assumes "read_frame input io_error [] = Inr frame" and "decode frame = Inr (tok, command)"
    and "tok \<noteq> token" and "length tok < 2 ^ 64" and "length token < 2 ^ 64"
  shows "\<exists>st'. admin_connection env decode token write_ok input io_error st =
       Some ((if write_ok then Some (False, error_value ''unauthorized'' ''invalid administration token'')
              else None), st') \<and> same_routing st st'"
proof -
  have "\<not> constant_time_eq tok token"
    using assms(3-5) by (simp add: constant_time_eq_iff)
  with assms(1,2) show ?thesis
    by (simp add: admin_connection_def serve_connection_def answer_def Let_def)
qed

theorem unauthorized_request_has_no_effect_witness:
  "\<exists>st'. admin_connection sample_env sample_decode ''secret'' True (''guess d'' @ [CHR 0x0A]) None
     sample_control = Some (Some (False, error_value ''unauthorized'' ''invalid administration token''), st') \<and>
     same_routing sample_control st'"
proof -
  have "read_frame (''guess d'' @ [CHR 0x0A]) None [] = Inr ''guess d''" by code_simp
  moreover have "sample_decode ''guess d'' = Inr (''guess'', DrainRouter)" by code_simp
  ultimately show ?thesis
    using unauthorized_request_has_no_effect [of "''guess d'' @ [CHR 0x0A]" None "''guess d''"
        sample_decode "''guess''" DrainRouter "''secret''" sample_env True sample_control] by simp
qed

text \<open>
  Redaction, specified independently of the code: a name is secret when it contains one of seven
  words in any letter case; members with secret names are replaced, everything else stays.
\<close>

definition names_secret :: "string \<Rightarrow> bool" where
  "names_secret name \<longleftrightarrow>
     (\<exists>before word after. name = before @ word @ after \<and>
        (\<exists>w\<in>{''authorization'', ''cookie'', ''password'', ''secret'', ''token'', ''privatekey'', ''private_key''}.
           eq_ignore_ascii_case word w))"

inductive redaction_of :: "json \<Rightarrow> json \<Rightarrow> bool" where
  same_null: "redaction_of JNull JNull"
| same_bool: "redaction_of (JBool x) (JBool x)"
| same_number: "redaction_of (JNum n) (JNum n)"
| same_text: "redaction_of (JStr t) (JStr t)"
| each_element: "length js = length js' \<Longrightarrow> (\<And>i. i < length js \<Longrightarrow> redaction_of (js ! i) (js' ! i)) \<Longrightarrow>
    redaction_of (JArr js) (JArr js')"
| each_member: "map fst ms = map fst ms' \<Longrightarrow>
    (\<And>i. i < length ms \<Longrightarrow> names_secret (fst (ms ! i)) \<Longrightarrow> snd (ms' ! i) = JStr ''[REDACTED]'') \<Longrightarrow>
    (\<And>i. i < length ms \<Longrightarrow> \<not> names_secret (fst (ms ! i)) \<Longrightarrow> redaction_of (snd (ms ! i)) (snd (ms' ! i))) \<Longrightarrow>
    redaction_of (JObj ms) (JObj ms')"

lemma sublist_lowercase:
  "sublist w (to_ascii_lowercase name) \<longleftrightarrow>
     (\<exists>before word after. name = before @ word @ after \<and> to_ascii_lowercase word = w)"
proof
  assume "sublist w (to_ascii_lowercase name)"
  then obtain ps ss where "map ascii_lower name = ps @ w @ ss"
    by (auto simp: sublist_def to_ascii_lowercase_def)
  then obtain before word after where "name = before @ word @ after" "map ascii_lower word = w"
    by (auto simp: map_eq_append_conv append_eq_map_conv)
  then show "\<exists>before word after. name = before @ word @ after \<and> to_ascii_lowercase word = w"
    unfolding to_ascii_lowercase_def by blast
next
  assume "\<exists>before word after. name = before @ word @ after \<and> to_ascii_lowercase word = w"
  then show "sublist w (to_ascii_lowercase name)"
    by (auto simp: sublist_def to_ascii_lowercase_def) blast
qed

lemma sensitive_key_names_secret: "sensitive_key name \<longleftrightarrow> names_secret name"
proof -
  let ?words = "[''authorization'', ''cookie'', ''password'', ''secret'', ''token'', ''privatekey'', ''private_key'']"
  have all: "\<forall>w\<in>set ?words. to_ascii_lowercase w = w" by code_simp
  have low: "eq_ignore_ascii_case word w \<longleftrightarrow> to_ascii_lowercase word = w" if "w \<in> set ?words" for word w
    unfolding eq_ignore_ascii_case_def bspec [OF all that] ..
  have "sensitive_key name \<longleftrightarrow> (\<exists>w\<in>set ?words. \<exists>before word after. name = before @ word @ after \<and> to_ascii_lowercase word = w)"
    unfolding sensitive_key_def Let_def sublist_lowercase ..
  also have "\<dots> \<longleftrightarrow> (\<exists>before word after. name = before @ word @ after \<and> (\<exists>w\<in>set ?words. eq_ignore_ascii_case word w))"
    using low by blast
  finally show ?thesis unfolding names_secret_def by simp
qed

lemma redact_value_redaction: "redaction_of j (redact_value j)"
proof (induction j rule: redact_value.induct)
  case (1 ms)
  have "redaction_of (snd (ms ! i)) (redact_value (snd (ms ! i)))" if "i < length ms" "\<not> sensitive_key (fst (ms ! i))" for i
    using 1 [of "ms ! i" "fst (ms ! i)" "snd (ms ! i)"] that by (simp add: prod_eq_iff)
  then show ?case
    by (auto simp: REDACTED_def case_prod_unfold comp_def sensitive_key_names_secret [symmetric] intro!: each_member)
next
  case (2 js)
  then show ?case by (auto intro!: each_element)
qed (auto intro: redaction_of.intros)

lemma make_event_redaction:
  "redaction_of (JObj members) (JObj (ev_fields (make_event now (kind, result, members) obs)))"
  using redact_value_redaction [of "JObj members"] by (simp add: make_event_def)

lemma length_entries: "length (control_log.entries now es obs) = length es"
  by (induction es arbitrary: obs) auto

lemma nth_entries: "i < length es \<Longrightarrow> \<exists>obs'. control_log.entries now es obs ! i = make_event now (es ! i) obs'"
proof (induction es arbitrary: obs i)
  case (Cons e es)
  then show ?case by (cases i) auto
qed simp

text \<open>
  C25. Secrets do not reach the event log and nothing else is lost from it: after any sequence of
  emitted events the log holds the last 256 of them in order, each with its kind, its outcome and
  the redaction of its fields, in which exactly the members whose name contains a sensitive word
  (in any letter case, at any depth) are replaced by \<open>[REDACTED]\<close> and every other value is kept.
\<close>

theorem events_are_redacted:
  "length (obs_events (fold (emit now) es observability_new)) = min (length es) 256 \<and>
   (\<forall>i < min (length es) 256.
      let e = obs_events (fold (emit now) es observability_new) ! i;
          (kind, result, members) = es ! (length es - min (length es) 256 + i)
      in ev_kind e = kind \<and> ev_outcome e = result \<and> redaction_of (JObj members) (JObj (ev_fields e)) \<and>
         (\<forall>k v. occurs k v (JObj (ev_fields e)) \<longrightarrow> names_secret k \<longrightarrow> v = JStr ''[REDACTED]''))"
proof -
  have log: "obs_events (fold (emit now) es observability_new) =
      drop (length es - 256) (control_log.entries now es observability_new)"
    using control_log.run_log [of observability_new now es]
    by (simp add: observability_new_def last_n_def MAX_EVENTS_def length_entries)
  have "\<exists>obs. obs_events (fold (emit now) es observability_new) ! i =
      make_event now (es ! (length es - min (length es) 256 + i)) obs" if "i < min (length es) 256" for i
    using that nth_entries [of "length es - 256 + i" es now observability_new]
    by (simp add: log length_entries min_def split: if_splits)
  then show ?thesis
    using make_event_redaction make_event_redacted
    unfolding redacted_def sensitive_key_names_secret REDACTED_def
    by (fastforce simp: log length_entries make_event_def Let_def)
qed

definition secret_event :: "event_kind \<times> string \<times> (string, json) btree" where
  "secret_event = (Reload, ''activated'', [(''apiToken'', JStr ''x''), (''version'', JUInt 3)])"

theorem events_are_redacted_witness:
  "\<exists>e. obs_events (fold (emit 7) [secret_event] observability_new) = [e] \<and>
     ev_kind e = Reload \<and> ev_outcome e = ''activated'' \<and>
     (\<forall>k v. occurs k v (JObj (ev_fields e)) \<longrightarrow> names_secret k \<longrightarrow> v = JStr ''[REDACTED]'') \<and>
     ev_fields e = [(''apiToken'', JStr ''[REDACTED]''), (''version'', JUInt 3)]"
proof -
  let ?log = "obs_events (fold (emit 7) [secret_event] observability_new)"
  have one: "?log = [?log ! 0]" "ev_fields (?log ! 0) = [(''apiToken'', JStr ''[REDACTED]''), (''version'', JUInt 3)]"
    by code_simp+
  have "(0::nat) < min (length [secret_event]) 256" by simp
  with conjunct2 [OF events_are_redacted [of 7 "[secret_event]"]] one(2)
  show ?thesis by (intro exI [of _ "?log ! 0"]) (use one(1) in \<open>auto simp: secret_event_def Let_def\<close>)
qed


text \<open>
  Administration frames: a frame is accepted exactly when the client's bytes start with
  it followed by a newline, it has no newline in it and at most one mebibyte; nothing after
  the newline is part of the request.
\<close>

theorem frame_is_first_line:
  "read_frame input io_error [] = Inr frame \<longleftrightarrow>
     (\<exists>rest. input = frame @ CHR 0x0A # rest) \<and> CHR 0x0A \<notin> set frame \<and>
     length frame \<le> MAX_FRAME_BYTES"
  by (subst read_frame_acc) auto

end
