(* ===== verification/RouterClient.thy ===== *)
theory RouterClient
  imports RouterAdmin
begin

text \<open>
  The typed client of the administration channel (\<open>apmpr-router-admin/src/lib.rs\<close>) and the
  bridge \<open>apmpr-router admin-client\<close> that runs inside a container. A request goes over a host
  socket, or through \<open>docker exec\<close> into a container whose ownership labels have been verified;
  the routers at the other end are the processes of theory RouterControl. The locale
  \<open>router_channel\<close> is what an orchestrator may rely on when it talks to routers through this
  client.
\<close>

section \<open>Endpoints, answers and errors\<close>

definition DEFAULT_TIMEOUT_SECONDS :: nat where "DEFAULT_TIMEOUT_SECONDS = 10"
definition MAX_COMMAND_OUTPUT_BYTES :: nat where "MAX_COMMAND_OUTPUT_BYTES = 2 * 1024 * 1024"

datatype admin_endpoint =
    UnixEndpoint string
  | DockerExec (ep_container: string) (ep_socket: string) (ep_deployment: string)
      (ep_instance: string) (ep_resource_hash: string)

record snapshot_identity_v1 =
  si_id :: string
  si_version :: u64
  si_checksum :: string

record apply_acknowledgement =
  aa_version :: u64
  aa_checksum :: string
  aa_status :: activation_status

datatype admin_error =
    AdminIo string
  | EndpointError string string
  | InvalidResponse string
  | AdminRejected string string json

fun rejection_code :: "admin_error \<Rightarrow> string option" where
  "rejection_code (AdminRejected code _ _) = Some code"
| "rejection_code _ = None"

fun endpoint_code :: "admin_error \<Rightarrow> string option" where
  "endpoint_code (EndpointError code _) = Some code"
| "endpoint_code _ = None"

fun rejection_details :: "admin_error \<Rightarrow> json option" where
  "rejection_details (AdminRejected _ _ details) = Some details"
| "rejection_details _ = None"

fun admin_error_text :: "admin_error \<Rightarrow> string" where
  "admin_error_text (AdminIo e) = ''router administration failed: '' @ e"
| "admin_error_text (EndpointError code message) =
     ''router administration failed ('' @ code @ ''): '' @ message"
| "admin_error_text (InvalidResponse message) = ''router returned an invalid response: '' @ message"
| "admin_error_text (AdminRejected code message _) = ''router rejected '' @ code @ '': '' @ message"

section \<open>The wire\<close>

text \<open>
  \<open>serde_json\<close> and the derived serializers: printing and parsing of values, the value of a
  router configuration, the router's decoder of a request line, and the text of a type error.
\<close>

record admin_wire =
  aw_print :: "json \<Rightarrow> string"
  aw_parse :: "string \<Rightarrow> string + json"
  aw_config_json :: "router_config \<Rightarrow> json"
  aw_decode :: "string \<Rightarrow> string + string \<times> admin_command"
  aw_type_error :: "json \<Rightarrow> string"

abbreviation newline :: char where "newline \<equiv> CHR 0x0A"

fun json_get :: "json \<Rightarrow> string \<Rightarrow> json option" where
  "json_get (JObj ms) k = map_of ms k"
| "json_get _ k = None"

fun json_str :: "json \<Rightarrow> string option" where
  "json_str (JStr s) = Some s"
| "json_str _ = None"

definition json_get_str :: "json \<Rightarrow> string \<Rightarrow> string option" where
  "json_get_str j k = Option.bind (json_get j k) json_str"

definition apply_request :: "admin_wire \<Rightarrow> string \<Rightarrow> router_config \<Rightarrow> json" where
  "apply_request wire token c =
     jobj [(''token'', JStr token), (''operation'', JStr ''apply''), (''config'', aw_config_json wire c)]"

definition version_request :: "string \<Rightarrow> json" where
  "version_request token = jobj [(''token'', JStr token), (''operation'', JStr ''current-version'')]"

definition write_response :: "admin_wire \<Rightarrow> bool \<Rightarrow> json \<Rightarrow> string" where
  "write_response wire ok body =
     aw_print wire (if ok then jobj [(''ok'', JBool True), (''result'', body)]
                    else jobj [(''ok'', JBool False), (''error'', body)]) @ [newline]"

definition decode_response :: "admin_wire \<Rightarrow> string \<Rightarrow> admin_error + json" where
  "decode_response wire response =
     (case aw_parse wire response of
        Inl e \<Rightarrow> Inl (InvalidResponse e)
      | Inr v \<Rightarrow>
          if json_get v ''ok'' = Some (JBool False)
          then (let error = case json_get v ''error'' of None \<Rightarrow> JNull | Some e \<Rightarrow> e
                in Inl (AdminRejected
                  (case json_get_str error ''code'' of None \<Rightarrow> ''unknown'' | Some code \<Rightarrow> code)
                  (case json_get_str error ''message'' of
                     None \<Rightarrow> ''router rejected the request'' | Some m \<Rightarrow> m)
                  error))
          else (case json_get v ''result'' of
                  None \<Rightarrow> Inl (InvalidResponse ''missing result'')
                | Some r \<Rightarrow> Inr r))"

text \<open>
  The derived deserializers of the two answers: a struct is read from an object by member
  name or from an array by position, a unit variant from its name or from an object with it.
\<close>

definition struct_fields :: "string list \<Rightarrow> json \<Rightarrow> json list option" where
  "struct_fields names j =
     (case j of
        JObj ms \<Rightarrow> those (map (map_of ms) names)
      | JArr js \<Rightarrow> if length js = length names then Some js else None
      | _ \<Rightarrow> None)"

definition identity_from_value :: "admin_wire \<Rightarrow> json \<Rightarrow> admin_error + snapshot_identity_v1" where
  "identity_from_value wire j =
     (case struct_fields [''id'', ''version'', ''checksum''] j of
        Some [JStr i, JNum (PosInt v), JStr c] \<Rightarrow> Inr \<lparr>si_id = i, si_version = v, si_checksum = c\<rparr>
      | _ \<Rightarrow> Inl (InvalidResponse (aw_type_error wire j)))"

definition status_from_value :: "json \<Rightarrow> activation_status option" where
  "status_from_value j =
     (let named = (\<lambda>s. if s = ''activated'' then Some Activated
                       else if s = ''rejected_stale'' then Some RejectedStale else None)
      in case j of JStr s \<Rightarrow> named s | JObj [(s, JNull)] \<Rightarrow> named s | _ \<Rightarrow> None)"

definition acknowledgement_from_value :: "admin_wire \<Rightarrow> json \<Rightarrow> admin_error + apply_acknowledgement" where
  "acknowledgement_from_value wire j =
     (case struct_fields [''version'', ''checksum'', ''status''] j of
        Some [JNum (PosInt v), JStr c, s] \<Rightarrow>
          (case status_from_value s of
             Some status \<Rightarrow> Inr \<lparr>aa_version = v, aa_checksum = c, aa_status = status\<rparr>
           | None \<Rightarrow> Inl (InvalidResponse (aw_type_error wire j)))
      | _ \<Rightarrow> Inl (InvalidResponse (aw_type_error wire j)))"

section \<open>The network of routers\<close>

text \<open>
  Where routers listen, and what happens to one call: whether the connection or the Docker
  command fails before the request is delivered, whether the router can write its answer,
  whether the answer is lost afterwards, and the environment the router runs in.
\<close>

datatype router_site = HostSocket string | ContainerSocket string string

datatype docker_failure =
    SpawnFailed string
  | WriteFailed string
  | WaitFailed string
  | DockerTimedOut
  | ExitFailure string string

record channel_call =
  cc_env :: control_env
  cc_refused :: "string option"
  cc_write_ok :: bool
  cc_lost :: "string option"
  cc_inspect_failure :: "docker_failure option"
  cc_exec_failure :: "docker_failure option"
  cc_exec_lost :: "docker_failure option"
  cc_non_utf8 :: "string option"

record router_process =
  rp_token :: string
  rp_state :: control_state

text \<open>
  The containers keep their names, identifiers and labels while an operation runs:
  \<open>rn_inspection\<close> is the output of \<open>docker container inspect\<close>.
\<close>

record router_net =
  rn_routers :: "router_site \<Rightarrow> router_process option"
  rn_inspection :: "string \<Rightarrow> string"
  rn_calls :: "nat \<Rightarrow> channel_call"
  rn_clock :: nat

definition call_of :: "router_net \<Rightarrow> channel_call" where
  "call_of net = rn_calls net (rn_clock net)"

text \<open>The bytes a router sends back on one connection; an empty answer is a closed connection.\<close>

definition router_exchange ::
  "admin_wire \<Rightarrow> router_site \<Rightarrow> string \<Rightarrow> router_net \<Rightarrow> (string + string) \<times> router_net" where
  "router_exchange wire site bytes net =
     (let call = call_of net
      in case cc_refused call of
           Some e \<Rightarrow> (Inl e, net)
         | None \<Rightarrow>
             (case rn_routers net site of
                None \<Rightarrow> (Inl ''Connection refused'', net)
              | Some p \<Rightarrow>
                  (case admin_connection (cc_env call) (aw_decode wire) (rp_token p) (cc_write_ok call)
                          bytes None (rp_state p) of
                     None \<Rightarrow> (Inr [], net)
                   | Some (response, st) \<Rightarrow>
                       ((case cc_lost call of
                           Some e \<Rightarrow> Inl e
                         | None \<Rightarrow> Inr (case response of
                             None \<Rightarrow> [] | Some (ok, body) \<Rightarrow> write_response wire ok body)),
                        net\<lparr>rn_routers := (rn_routers net)(site \<mapsto> p\<lparr>rp_state := st\<rparr>)\<rparr>))))"

section \<open>Requests\<close>

definition read_line :: "string \<Rightarrow> string" where
  "read_line s = takeWhile (\<lambda>c. c \<noteq> newline) s @ (if newline \<in> set s then [newline] else [])"

definition unix_request ::
  "admin_wire \<Rightarrow> string \<Rightarrow> string \<Rightarrow> router_net \<Rightarrow> (admin_error + string) \<times> router_net" where
  "unix_request wire socket bytes net =
     (case router_exchange wire (HostSocket socket) bytes net of
        (Inl e, net) \<Rightarrow> (Inl (AdminIo e), net)
      | (Inr response, net) \<Rightarrow> (Inr (read_line response), net))"

text \<open>\<open>run_admin_client\<close>, in the container: one frame in, one frame out.\<close>

definition one_frame :: "string \<Rightarrow> bool" where
  "one_frame s \<longleftrightarrow> \<not> (length (take (MAX_FRAME_BYTES + 2) s) > MAX_FRAME_BYTES + 1) \<and>
     ends_with (take (MAX_FRAME_BYTES + 2) s) [newline]"

definition run_admin_client ::
  "admin_wire \<Rightarrow> router_site \<Rightarrow> string \<Rightarrow> router_net \<Rightarrow> (string + string) \<times> router_net" where
  "run_admin_client wire site input net =
     (if \<not> one_frame input
      then (Inl ''administration request must be one newline-terminated frame of at most 1 MiB'', net)
      else case router_exchange wire site input net of
             (Inl e, net) \<Rightarrow> (Inl e, net)
           | (Inr response, net) \<Rightarrow>
               if \<not> one_frame response
               then (Inl ''administration response must be one newline-terminated frame of at most 1 MiB'', net)
               else (Inr response, net))"

fun docker_failure_error :: "docker_failure \<Rightarrow> admin_error" where
  "docker_failure_error (SpawnFailed e) = AdminIo e"
| "docker_failure_error (WriteFailed e) = AdminIo e"
| "docker_failure_error (WaitFailed e) = AdminIo e"
| "docker_failure_error DockerTimedOut =
     EndpointError ''endpoint_timeout''
       (''Docker administration command exceeded '' @ nat_to_string DEFAULT_TIMEOUT_SECONDS @ '' seconds'')"
| "docker_failure_error (ExitFailure status stderr) =
     EndpointError ''docker_command_failed''
       (let detail = str_trim (take MAX_COMMAND_OUTPUT_BYTES stderr)
        in if detail = [] then status else detail)"

definition run_docker :: "docker_failure + string \<Rightarrow> admin_error + string" where
  "run_docker outcome =
     (case outcome of
        Inl failure \<Rightarrow> Inl (docker_failure_error failure)
      | Inr stdout \<Rightarrow> Inr (take MAX_COMMAND_OUTPUT_BYTES stdout))"

definition label_expectations :: "string \<Rightarrow> string \<Rightarrow> string \<Rightarrow> (string \<times> string) list" where
  "label_expectations deployment inst resource_hash =
     [(''dev.apmpr.managed'', ''true''), (''dev.apmpr.deployment'', deployment),
      (''dev.apmpr.instance'', inst), (''dev.apmpr.resource-hash'', resource_hash)]"

definition verify_container_labels ::
  "json \<Rightarrow> string \<Rightarrow> (string \<times> string) list \<Rightarrow> admin_error + unit" where
  "verify_container_labels labels container expectations =
     (case find (\<lambda>(name, expected). json_get_str labels name \<noteq> Some expected) expectations of
        None \<Rightarrow> Inr ()
      | Some (name, _) \<Rightarrow>
          Inl (EndpointError ''container_ownership_mismatch''
            (''container `'' @ container @ ''` does not have the expected `'' @ name @ ''` ownership label'')))"

text \<open>What an inspection must show before the container is used: its identifier.\<close>

definition inspected_container ::
  "admin_wire \<Rightarrow> string \<Rightarrow> string \<Rightarrow> string \<Rightarrow> string \<Rightarrow> string \<Rightarrow> admin_error + string" where
  "inspected_container wire container deployment inst resource_hash stdout =
     (case aw_parse wire stdout of
        Inl e \<Rightarrow> Inl (EndpointError ''invalid_container_inspection'' e)
      | Inr inspection \<Rightarrow>
          (case json_get_str inspection ''id'' of
             None \<Rightarrow> Inl (EndpointError ''invalid_container_inspection''
                       ''Docker inspection did not return a container ID'')
           | Some container_id \<Rightarrow>
               if container_id = []
               then Inl (EndpointError ''invalid_container_inspection''
                      ''Docker inspection did not return a container ID'')
               else (case json_get inspection ''labels'' of
                       None \<Rightarrow> Inl (EndpointError ''invalid_container_inspection''
                                 ''Docker inspection did not return container labels'')
                     | Some labels \<Rightarrow>
                         and_then (verify_container_labels labels container
                                     (label_expectations deployment inst resource_hash))
                           (\<lambda>_. Inr container_id))))"

definition docker_exec_request ::
  "admin_wire \<Rightarrow> string \<Rightarrow> string \<Rightarrow> string \<Rightarrow> string \<Rightarrow> string \<Rightarrow> string \<Rightarrow> router_net
     \<Rightarrow> (admin_error + string) \<times> router_net" where
  "docker_exec_request wire container socket deployment inst resource_hash bytes net =
     (if container = [] \<or> deployment = [] \<or> inst = [] \<or> resource_hash = [] \<or>
         \<not> starts_with socket ''/''
      then (Inl (EndpointError ''invalid_endpoint'' ''container administration endpoint is incomplete''), net)
      else
        (let call = call_of net;
             inspect = (case cc_inspect_failure call of
                          Some failure \<Rightarrow> Inl failure | None \<Rightarrow> Inr (rn_inspection net container))
         in case and_then (run_docker inspect)
                   (inspected_container wire container deployment inst resource_hash) of
              Inl e \<Rightarrow> (Inl e, net)
            | Inr container_id \<Rightarrow>
                (case cc_exec_failure call of
                   Some failure \<Rightarrow> (run_docker (Inl failure), net)
                 | None \<Rightarrow>
                     (case run_admin_client wire (ContainerSocket container_id socket) bytes net of
                        (outcome, net) \<Rightarrow>
                          (case cc_exec_lost call of
                             Some failure \<Rightarrow> (run_docker (Inl failure), net)
                           | None \<Rightarrow>
                               (case outcome of
                                  Inl e \<Rightarrow> (run_docker (Inl (ExitFailure ''exit status: 1'' (''apmpr-router: '' @ e @ [newline]))), net)
                                | Inr response \<Rightarrow>
                                    (case cc_non_utf8 call of
                                       Some e \<Rightarrow> (Inl (InvalidResponse e), net)
                                     | None \<Rightarrow> (run_docker (Inr response), net))))))))"

definition send_request ::
  "admin_wire \<Rightarrow> admin_endpoint \<Rightarrow> json \<Rightarrow> router_net \<Rightarrow> (admin_error + json) \<times> router_net" where
  "send_request wire endpoint req net =
     (let encoded = aw_print wire req @ [newline];
          (response, net) =
            (case endpoint of
               UnixEndpoint socket \<Rightarrow> unix_request wire socket encoded net
             | DockerExec container socket deployment inst resource_hash \<Rightarrow>
                 docker_exec_request wire container socket deployment inst resource_hash encoded net)
      in (and_then response (decode_response wire), net\<lparr>rn_clock := rn_clock net + 1\<rparr>))"

definition apply_snapshot ::
  "admin_wire \<Rightarrow> string \<Rightarrow> admin_endpoint \<Rightarrow> router_config \<Rightarrow> router_net
     \<Rightarrow> (admin_error + apply_acknowledgement) \<times> router_net" where
  "apply_snapshot wire token endpoint c net =
     (case send_request wire endpoint (apply_request wire token c) net of
        (response, net) \<Rightarrow> (and_then response (acknowledgement_from_value wire), net))"

definition current_snapshot ::
  "admin_wire \<Rightarrow> string \<Rightarrow> admin_endpoint \<Rightarrow> router_net
     \<Rightarrow> (admin_error + snapshot_identity_v1) \<times> router_net" where
  "current_snapshot wire token endpoint net =
     (case send_request wire endpoint (version_request token) net of
        (response, net) \<Rightarrow> (and_then response (identity_from_value wire), net))"

section \<open>What a connection does to the router\<close>

abbreviation config_version :: "router_config \<Rightarrow> u64" where
  "config_version c \<equiv> snapshot_version (spec_snapshot (config_spec c))"

text \<open>Documented behaviour of \<open>serde_json\<close>: compact text on one line, and round trips.\<close>

definition admin_wire_laws :: "admin_wire \<Rightarrow> bool" where
  "admin_wire_laws wire \<longleftrightarrow>
     (\<exists>e. aw_parse wire [] = Inl e) \<and>
     (\<forall>j. newline \<notin> set (aw_print wire j) \<and> aw_parse wire (aw_print wire j @ [newline]) = Inr j) \<and>
     (\<forall>t. aw_decode wire (aw_print wire (version_request t)) = Inr (t, CurrentVersion)) \<and>
     (\<forall>t c. aw_decode wire (aw_print wire (apply_request wire t c)) = Inr (t, ApplyConfig c))"

lemma admin_wire_lawsD:
  assumes "admin_wire_laws wire"
  shows "newline \<notin> set (aw_print wire j)"
    and "aw_parse wire (aw_print wire j @ [newline]) = Inr j"
    and "aw_decode wire (aw_print wire (version_request t)) = Inr (t, CurrentVersion)"
    and "aw_decode wire (aw_print wire (apply_request wire t c)) = Inr (t, ApplyConfig c)"
    and "\<exists>e. aw_parse wire [] = Inl e"
  using assms by (auto simp: admin_wire_laws_def)

text \<open>
  A router that gets a request line either refuses it before executing it, or executes the
  decoded command; \<open>observed st'\<close> are states that differ from \<open>st'\<close> in the event log and
  the counters alone.
\<close>

definition observed :: "control_state \<Rightarrow> control_state set" where
  "observed st = {st\<lparr>ctl_obs := obs\<rparr> | obs. log_ok (ctl_obs st) \<longrightarrow> log_ok obs}"

lemma observedD:
  assumes "st' \<in> observed st"
  shows "ctl_engine st' = ctl_engine st" and "active_config st' = active_config st"
    and "control_inv digest st \<Longrightarrow> control_inv digest st'"
  using assms by (auto simp: observed_def active_config_def control_inv_obs) (simp add: control_inv_def)

lemma observed_refl [simp]: "st \<in> observed st"
  unfolding observed_def by (auto intro: exI [of _ "ctl_obs st"])

lemma observed_log:
  assumes "st' \<in> observed st"
  shows "log_event env kind result kvs st' \<in> observed st"
    and "log_rejection env code operation st' \<in> observed st"
    and "st'\<lparr>ctl_obs := count_admin_error (ctl_obs st')\<rparr> \<in> observed st"
    and "st'\<lparr>ctl_obs := (ctl_obs st')\<lparr>obs_requests := n\<rparr>\<rparr> \<in> observed st"
    and "st'\<lparr>ctl_obs := (ctl_obs st')\<lparr>obs_connections := n\<rparr>\<rparr> \<in> observed st"
  using assms by (auto simp: observed_def log_event_def log_rejection_def emit_log_ok rejection_log_ok)

lemma line_is_frame:
  assumes "newline \<notin> set line"
  shows "read_frame (line @ [newline]) None [] = Inr line \<or>
     (\<exists>message. read_frame (line @ [newline]) None [] = Inl message)"
proof (cases "read_frame (line @ [newline]) None []")
  case (Inr f)
  then obtain rest where "line @ [newline] = f @ newline # rest" "newline \<notin> set f"
    using read_frame_acc [of "[]" "line @ [newline]" None f] by auto
  with assms have "f = line" by (simp add: append_eq_append_conv2 Cons_eq_append_conv append_eq_Cons_conv) auto
  with Inr show ?thesis by simp
qed auto

text \<open>The request line is refused, or its command is executed.\<close>

definition refused :: "control_state \<Rightarrow> control_state \<Rightarrow> (bool \<times> json) option \<Rightarrow> bool" where
  "refused st st' response \<longleftrightarrow> st' \<in> observed st \<and> response \<in> {None} \<union> {Some (False, body) | body. True}"

definition executed ::
  "control_env \<Rightarrow> admin_command \<Rightarrow> control_state \<Rightarrow> control_state \<Rightarrow> (bool \<times> json) option \<Rightarrow> bool" where
  "executed env command st st' response \<longleftrightarrow>
     (\<exists>st0 st1 ok body drain. st0 \<in> observed st \<and>
        execute env command st0 = Some ((ok, body, drain), st1) \<and>
        (drain \<or> st' \<in> observed st1) \<and> response \<in> {None, Some (ok, body)})"

lemma connection_outcome:
  assumes line: "newline \<notin> set line" and dec: "decode line = Inr (t, command)"
    and run: "admin_connection env decode token write_ok (line @ [newline]) None st = Some (response, st')"
  shows "refused st st' response \<or> executed env command st st' response"
proof -
  let ?st = "st\<lparr>ctl_obs := (ctl_obs st)\<lparr>obs_connections := obs_connections (ctl_obs st) + 1\<rparr>\<rparr>"
  let ?req = "?st\<lparr>ctl_obs := (ctl_obs ?st)\<lparr>obs_requests := obs_requests (ctl_obs ?st) + 1\<rparr>\<rparr>"
  have o: "?st \<in> observed st" "?req \<in> observed st" by (intro observed_log observed_refl)+
  obtain ok1 st1 where serve: "serve_connection env decode token write_ok (line @ [newline]) None ?st =
      Some (response, ok1, st1)"
    and st': "st' = (if ok1 then st1 else st1\<lparr>ctl_obs := count_admin_error (ctl_obs st1)\<rparr>)"
    using run by (auto simp: admin_connection_def Let_def)
  then have st1: "st1 \<in> observed x \<Longrightarrow> st' \<in> observed x" for x by (auto intro: observed_log)
  consider (frame) message where "read_frame (line @ [newline]) None [] = Inl message"
    | (token) "read_frame (line @ [newline]) None [] = Inr line" "\<not> constant_time_eq t token"
    | (run) "read_frame (line @ [newline]) None [] = Inr line" "constant_time_eq t token"
    using line_is_frame [OF line] by blast
  then show ?thesis
  proof cases
    case frame
    with serve have "st1 = ?st\<lparr>ctl_obs := count_admin_error (ctl_obs ?st)\<rparr>"
      and "response \<in> {None} \<union> {Some (False, body) | body. True}"
      by (auto simp: serve_connection_def answer_def)
    with observed_log(3) [OF o(1)] st1 show ?thesis by (simp add: refused_def)
  next
    case token
    with serve dec have "st1 = log_rejection env ''unauthorized'' ''authentication''
        (?req\<lparr>ctl_obs := count_admin_error (ctl_obs ?req)\<rparr>)"
      and "response \<in> {None} \<union> {Some (False, body) | body. True}"
      by (auto simp: serve_connection_def answer_def Let_def)
    with observed_log(2) [OF observed_log(3) [OF o(2)]] st1 show ?thesis by (simp add: refused_def)
  next
    case run
    obtain ok body drain st2 where ex: "execute env command ?req = Some ((ok, body, drain), st2)"
      and r: "response \<in> {None, Some (ok, body)}" and "drain \<or> st1 \<in> observed st2"
      using run serve dec
      by (auto simp: serve_connection_def answer_def Let_def observed_log
          split: option.splits prod.splits if_splits)
    with st1 o have "executed env command st st' response" unfolding executed_def by blast
    then show ?thesis ..
  qed
qed

text \<open>The effect of the two requests the client sends.\<close>

lemma identity_body:
  "snapshot_identity e =
     jobj [(''id'', JStr (snapshot_ident (engine_snapshot e))), (''version'', JUInt (version (engine_snapshot e))),
           (''checksum'', JStr (cs_checksum (engine_snapshot e)))]"
  by (simp add: snapshot_identity_def Let_def)

lemma sound_snapshot_checksum: "sound_snapshot digest s \<Longrightarrow> cs_checksum s = digest (cs_config s)"
  unfolding sound_snapshot_def compile_Inr_iff by (erule conjE, erule ssubst) simp

lemma engine_inv_checksum:
  "engine_inv digest e \<Longrightarrow> cs_checksum (engine_snapshot e) = digest (cs_config (engine_snapshot e))"
  by (simp add: engine_inv_def engine_snapshot_def sound_snapshot_checksum)

lemma version_request_effect:
  assumes "refused st st' response \<or> executed env CurrentVersion st st' response"
  shows "st' \<in> observed st"
    and "response \<in> {None, Some (True, snapshot_identity (ctl_engine st))} \<union> {Some (False, body) | body. True}"
proof -
  have trans: "st' \<in> observed st0 \<Longrightarrow> st0 \<in> observed st \<Longrightarrow> st' \<in> observed st" for st0
    by (auto simp: observed_def)
  consider "refused st st' response" | st0 where "st0 \<in> observed st" "st' \<in> observed st0"
      "response \<in> {None, Some (True, snapshot_identity (ctl_engine st0))}"
    using assms by (auto simp: executed_def)
  then have "st' \<in> observed st \<and> response \<in> {None, Some (True, snapshot_identity (ctl_engine st))} \<union>
      {Some (False, body) | body. True}"
    by cases (auto simp: refused_def observedD(1) intro: trans)
  then show "st' \<in> observed st"
    "response \<in> {None, Some (True, snapshot_identity (ctl_engine st))} \<union> {Some (False, body) | body. True}"
    by simp_all
qed

lemma apply_request_effect:
  assumes inv: "control_inv (ce_digest env) st"
    and "refused st st' response \<or> executed env (ApplyConfig c) st st' response"
  obtains (kept) "control_inv (ce_digest env) st'" "active_config st' = active_config st"
      "response \<in> {None} \<union> {Some (False, body) | body. True} \<union>
         {Some (True, ack_body v k ''rejected_stale'') | v k. True}"
    | (activated) "control_inv (ce_digest env) st'" "active_config st' = c"
      "response \<in> {None, Some (True, ack_body (config_version c) (ce_digest env c) ''activated'')}"
  using assms(2)
proof
  assume "refused st st' response"
  then show ?thesis using observedD [of st' st] inv by (intro kept) (auto simp: refused_def)
next
  assume "executed env (ApplyConfig c) st st' response"
  then obtain st0 st1 ok body drain where st0: "st0 \<in> observed st"
    and ex: "execute_apply env c st0 = Some ((ok, body, drain), st1)"
    and st1: "drain \<or> st' \<in> observed st1" and r: "response \<in> {None, Some (ok, body)}"
    by (auto simp: executed_def)
  have inv0: "control_inv (ce_digest env) st0" by (rule observedD(3) [OF st0 inv])
  then have inv1: "control_inv (ce_digest env) st1" and rep: "apply_reply env c st0 body ok st1"
    and st': "st' \<in> observed st1"
    using execute_apply_reply [OF inv0, of c] ex st1 by auto
  have inv': "control_inv (ce_digest env) st'" by (rule observedD(3) [OF st' inv1])
  have same: "same_routing st0 st1 \<Longrightarrow> active_config st' = active_config st"
    using observedD(1) [OF st0] observedD(1) [OF st'] by (simp add: same_routing_def active_config_def)
  have checksum: "cs_checksum (engine_snapshot (ctl_engine st1)) = ce_digest env (active_config st1)"
    using inv1 engine_inv_checksum by (simp add: control_inv_def active_config_def)
  have vsn: "version (engine_snapshot (ctl_engine st1)) = config_version (active_config st1)"
    by (simp add: version_def active_config_def)
  from rep consider (refuse) "\<not> ok" "same_routing st0 st1"
    | (stale) v k where "ok" "same_routing st0 st1" "body = ack_body v k ''rejected_stale''"
    | (fresh) "ok" "active_config st1 = c" "body = ack_body (config_version c) (ce_digest env c) ''activated''"
    unfolding apply_reply_def checksum vsn by blast
  then show ?thesis
  proof cases
    case fresh
    with r observedD(2) [OF st'] show ?thesis by (intro activated [OF inv']) auto
  qed (use r same in \<open>auto intro!: kept [OF inv']\<close>)
qed

section \<open>The channel\<close>

text \<open>
  What the client promises an orchestrator. \<open>site\<close> is the router an endpoint leads to and
  \<open>active\<close> the configuration that router serves. Reading the version changes nothing and
  identifies the active configuration; an apply touches only its own router and leaves there
  the old configuration or the sent one; an acknowledged activation means the sent
  configuration is served, a stale acknowledgement or a rejection that nothing changed. A
  transport error says neither.
\<close>

definition apply_contract ::
  "(router_config \<Rightarrow> string) \<Rightarrow> router_config \<Rightarrow> admin_error + apply_acknowledgement
     \<Rightarrow> router_config option \<Rightarrow> router_config option \<Rightarrow> bool" where
  "apply_contract digest c r old new \<longleftrightarrow>
     new \<in> {old, Some c} \<and>
     (case r of
        Inl e \<Rightarrow> rejection_code e \<noteq> None \<longrightarrow> new = old
      | Inr ack \<Rightarrow>
          if aa_status ack = Activated
          then new = Some c \<and> aa_version ack = config_version c \<and> aa_checksum ack = digest c
          else new = old)"

locale router_channel =
  fixes current :: "admin_endpoint \<Rightarrow> 'w \<Rightarrow> (admin_error + snapshot_identity_v1) \<times> 'w"
    and app :: "admin_endpoint \<Rightarrow> router_config \<Rightarrow> 'w \<Rightarrow> (admin_error + apply_acknowledgement) \<times> 'w"
    and site :: "'w \<Rightarrow> admin_endpoint \<Rightarrow> 's option"
    and active :: "'w \<Rightarrow> admin_endpoint \<Rightarrow> router_config option"
    and digest :: "router_config \<Rightarrow> string"
    and winv :: "'w \<Rightarrow> bool"
  assumes current_step: "winv w \<Longrightarrow> current e w = (r, w') \<Longrightarrow>
      winv w' \<and> site w' = site w \<and> active w' = active w"
    and current_identity: "winv w \<Longrightarrow> current e w = (Inr i, w') \<Longrightarrow>
      \<exists>c. active w e = Some c \<and> si_version i = config_version c \<and> si_checksum i = digest c"
    and app_step: "winv w \<Longrightarrow> app e c w = (a, w') \<Longrightarrow>
      winv w' \<and> site w' = site w \<and> apply_contract digest c a (active w e) (active w' e)"
    and app_other: "winv w \<Longrightarrow> app e c w = (a, w') \<Longrightarrow> site w k \<noteq> site w e \<Longrightarrow>
      active w' k = active w k"

definition endpoint_site :: "admin_wire \<Rightarrow> router_net \<Rightarrow> admin_endpoint \<Rightarrow> router_site option" where
  "endpoint_site wire net endpoint =
     (case endpoint of
        UnixEndpoint socket \<Rightarrow> Some (HostSocket socket)
      | DockerExec container socket deployment inst resource_hash \<Rightarrow>
          (case inspected_container wire container deployment inst resource_hash
                  (take MAX_COMMAND_OUTPUT_BYTES (rn_inspection net container)) of
             Inl _ \<Rightarrow> None
           | Inr container_id \<Rightarrow> Some (ContainerSocket container_id socket)))"

definition served :: "router_net \<Rightarrow> router_site \<Rightarrow> router_config option" where
  "served net s = map_option (\<lambda>p. active_config (rp_state p)) (rn_routers net s)"

definition endpoint_active :: "admin_wire \<Rightarrow> router_net \<Rightarrow> admin_endpoint \<Rightarrow> router_config option" where
  "endpoint_active wire net endpoint = Option.bind (endpoint_site wire net endpoint) (served net)"

definition net_inv :: "(router_config \<Rightarrow> string) \<Rightarrow> router_net \<Rightarrow> bool" where
  "net_inv digest net \<longleftrightarrow>
     (\<forall>s p. rn_routers net s = Some p \<longrightarrow> control_inv digest (rp_state p)) \<and>
     (\<forall>n. ce_digest (cc_env (rn_calls net n)) = digest)"

text \<open>A request either reaches no router, or one router handles one connection.\<close>

definition reached ::
  "admin_wire \<Rightarrow> json \<Rightarrow> router_site \<Rightarrow> (bool \<times> json) option \<Rightarrow> router_net \<Rightarrow> router_net \<Rightarrow> bool" where
  "reached wire req s response net net' \<longleftrightarrow>
     (\<exists>p st call. rn_routers net s = Some p \<and> call = call_of net \<and>
        admin_connection (cc_env call) (aw_decode wire) (rp_token p) (cc_write_ok call)
          (aw_print wire req @ [newline]) None (rp_state p) = Some (response, st) \<and>
        net' = net\<lparr>rn_routers := (rn_routers net)(s \<mapsto> p\<lparr>rp_state := st\<rparr>)\<rparr>)"

lemma exchange_cases:
  assumes "router_exchange wire s (aw_print wire req @ [newline]) net = (r, net')"
  obtains (unreached) "net' = net" "r = Inr [] \<or> (\<exists>e. r = Inl e)"
    | (lost) response e where "reached wire req s response net net'" "r = Inl e"
    | (answered) response where "reached wire req s response net net'"
      "r = Inr (case response of None \<Rightarrow> [] | Some (ok, body) \<Rightarrow> write_response wire ok body)"
  using assms unfolding router_exchange_def reached_def Let_def
  by (auto split: option.splits prod.splits)

text \<open>What the client makes of the router's answer.\<close>

definition answer_of :: "bool \<times> json \<Rightarrow> admin_error + json \<Rightarrow> bool" where
  "answer_of response r \<longleftrightarrow>
     (case response of (ok, body) \<Rightarrow>
        if ok then r = Inr body else (\<exists>code message. r = Inl (AdminRejected code message body)))"

definition transport_error :: "admin_error + 'a \<Rightarrow> bool" where
  "transport_error r \<longleftrightarrow> (case r of Inl e \<Rightarrow> rejection_code e = None | Inr _ \<Rightarrow> False)"

lemma decode_write_response:
  "admin_wire_laws wire \<Longrightarrow> answer_of (ok, body) (decode_response wire (write_response wire ok body))"
  by (auto simp: answer_of_def decode_response_def write_response_def admin_wire_lawsD(2) jobj_def
      members_of_def Let_def)

lemma read_line_line: "newline \<notin> set line \<Longrightarrow> read_line (line @ [newline]) = line @ [newline]"
  by (auto simp: read_line_def takeWhile_tail)

lemma read_line_response: "admin_wire_laws wire \<Longrightarrow> read_line (write_response wire ok body) = write_response wire ok body"
  unfolding write_response_def by (rule read_line_line) (rule admin_wire_lawsD(1))

lemma decode_empty: "admin_wire_laws wire \<Longrightarrow> transport_error (decode_response wire [])"
  using admin_wire_lawsD(5) [of wire] by (auto simp: transport_error_def decode_response_def)

lemma transport_error_simps [simp]:
  "transport_error (Inl e) \<longleftrightarrow> rejection_code e = None" "\<not> transport_error (Inr a)"
  by (simp_all add: transport_error_def)

lemma docker_failure_transport [simp]: "transport_error (run_docker (Inl failure))"
  by (cases failure) (simp_all add: transport_error_def run_docker_def)

definition client_outcome ::
  "admin_wire \<Rightarrow> json \<Rightarrow> router_site option \<Rightarrow> admin_error + json \<Rightarrow> router_net \<Rightarrow> router_net \<Rightarrow> bool" where
  "client_outcome wire req dest r net net' \<longleftrightarrow>
     transport_error r \<and> net' = net \<or>
     (\<exists>s response. dest = Some s \<and> reached wire req s response net net' \<and>
        (transport_error r \<or> (\<exists>reply. response = Some reply \<and> answer_of reply r)))"

lemma unix_outcome:
  assumes laws: "admin_wire_laws wire"
    and run: "unix_request wire socket (aw_print wire req @ [newline]) net = (r, net')"
  shows "client_outcome wire req (Some (HostSocket socket)) (and_then r (decode_response wire)) net net'"
proof -
  obtain x where x: "router_exchange wire (HostSocket socket) (aw_print wire req @ [newline]) net = (x, net')"
    and r: "r = (case x of Inl e \<Rightarrow> Inl (AdminIo e) | Inr response \<Rightarrow> Inr (read_line response))"
    using run by (auto simp: unix_request_def split: sum.splits prod.splits)
  have empty: "read_line [] = []" by (simp add: read_line_def)
  from x show ?thesis
  proof (cases rule: exchange_cases)
    case unreached
    then show ?thesis using decode_empty [OF laws] r empty
      by (auto simp: client_outcome_def transport_error_def)
  next
    case lost
    then show ?thesis using r by (auto simp: client_outcome_def transport_error_def)
  next
    case (answered response)
    then show ?thesis
      using decode_empty [OF laws] r empty decode_write_response [OF laws] read_line_response [OF laws]
      by (cases response) (auto simp: client_outcome_def)
  qed
qed

lemma one_frame_take: "one_frame s \<Longrightarrow> take MAX_COMMAND_OUTPUT_BYTES s = s"
  by (auto simp: one_frame_def MAX_COMMAND_OUTPUT_BYTES_def MAX_FRAME_BYTES_def)

lemma admin_client_outcome:
  assumes laws: "admin_wire_laws wire"
    and run: "run_admin_client wire s (aw_print wire req @ [newline]) net = (r, net')"
  shows "net' = net \<and> (\<exists>e. r = Inl e) \<or>
    (\<exists>response. reached wire req s response net net' \<and>
      ((\<exists>e. r = Inl e) \<or> (\<exists>ok body. response = Some (ok, body) \<and> r = Inr (write_response wire ok body) \<and>
          one_frame (write_response wire ok body))))"
proof (cases "one_frame (aw_print wire req @ [newline])")
  case True
  have empty: "\<not> one_frame []" by (simp add: one_frame_def ends_with_def)
  obtain x where x: "router_exchange wire s (aw_print wire req @ [newline]) net = (x, net')"
    and r: "\<forall>response. r = Inr response \<longleftrightarrow> x = Inr response \<and> one_frame response"
    using run True by (auto simp: run_admin_client_def split: sum.splits prod.splits if_splits)
  have err: "(\<exists>e. r = Inl e) \<longleftrightarrow> \<not> (\<exists>response. x = Inr response \<and> one_frame response)"
    using r by (cases r) auto
  from x show ?thesis
  proof (cases rule: exchange_cases)
    case unreached
    then show ?thesis using err empty by auto
  next
    case lost
    then show ?thesis using err by auto
  next
    case (answered response)
    then show ?thesis using err r empty
      by (cases response) (auto split: if_splits)
  qed
qed (use run in \<open>auto simp: run_admin_client_def\<close>)

lemma transport_error_and_then: "transport_error r \<Longrightarrow> transport_error (and_then r f)"
  by (cases r) (simp_all add: transport_error_def)

lemma inspected_container_transport:
  "inspected_container wire container deployment inst resource_hash stdout = Inl e \<Longrightarrow> rejection_code e = None"
  by (auto simp: inspected_container_def verify_container_labels_def and_then_Inl
      split: sum.splits option.splits if_splits prod.splits)

lemma docker_outcome:
  assumes laws: "admin_wire_laws wire"
    and run: "docker_exec_request wire container socket deployment inst resource_hash
       (aw_print wire req @ [newline]) net = (r, net')"
  shows "client_outcome wire req
     (endpoint_site wire net (DockerExec container socket deployment inst resource_hash))
     (and_then r (decode_response wire)) net net'"
proof -
  let ?inspected = "and_then (run_docker (case cc_inspect_failure (call_of net) of
      Some failure \<Rightarrow> Inl failure | None \<Rightarrow> Inr (rn_inspection net container)))
      (inspected_container wire container deployment inst resource_hash)"
  let ?site = "endpoint_site wire net (DockerExec container socket deployment inst resource_hash)"
  have keep: "client_outcome wire req ?site (and_then x (decode_response wire)) net net"
    if "transport_error x" for x
    using transport_error_and_then [OF that] unfolding client_outcome_def by blast
  have refused: "transport_error (?inspected :: admin_error + string)" if "?inspected = Inl e" for e
    using that inspected_container_transport [of wire container deployment inst resource_hash]
      docker_failure_transport
    by (auto simp: transport_error_def and_then_Inl run_docker_def split: option.splits sum.splits)
  consider (invalid) "transport_error r" "net' = net"
    | (exec) container_id outcome where "?inspected = Inr container_id"
      "run_admin_client wire (ContainerSocket container_id socket) (aw_print wire req @ [newline]) net =
         (outcome, net')"
      "transport_error r \<or> (\<exists>response. outcome = Inr response \<and> r = run_docker (Inr response))"
    using run refused
    by (simp add: docker_exec_request_def Let_def split: if_splits sum.splits option.splits prod.splits)
      (metis transport_error_simps(1) rejection_code.simps(2,3,4) docker_failure_transport)+
  then show ?thesis
  proof cases
    case invalid
    then show ?thesis using keep by simp
  next
    case exec
    from exec(1) have site: "?site = Some (ContainerSocket container_id socket)"
      by (auto simp: endpoint_site_def and_then_Inr run_docker_def split: option.splits)
    have lost: "transport_error r \<or> outcome = Inl e \<Longrightarrow> transport_error (and_then r (decode_response wire))" for e
      using exec(3) transport_error_and_then by blast
    from admin_client_outcome [OF laws exec(2)] show ?thesis
    proof (elim disjE conjE exE)
      fix e assume "net' = net" "outcome = Inl e"
      then show ?thesis using lost unfolding client_outcome_def by blast
    next
      fix response e assume "reached wire req (ContainerSocket container_id socket) response net net'" "outcome = Inl e"
      then show ?thesis using lost site unfolding client_outcome_def by blast
    next
      fix response ok body
      assume reach: "reached wire req (ContainerSocket container_id socket) response net net'"
        and resp: "response = Some (ok, body)" "outcome = Inr (write_response wire ok body)"
        and frame: "one_frame (write_response wire ok body)"
      from exec(3) resp(2) frame have "transport_error r \<or> r = Inr (write_response wire ok body)"
        by (simp add: run_docker_def one_frame_take)
      then have "transport_error (and_then r (decode_response wire)) \<or>
          answer_of (ok, body) (and_then r (decode_response wire))"
        using decode_write_response [OF laws] transport_error_and_then by force
      then show ?thesis using reach resp(1) site unfolding client_outcome_def by blast
    qed
  qed
qed

lemma send_outcome:
  assumes laws: "admin_wire_laws wire" and run: "send_request wire e req net = (r, net')"
  obtains net1 where "client_outcome wire req (endpoint_site wire net e) r net net1"
    and "net' = net1\<lparr>rn_clock := rn_clock net1 + 1\<rparr>"
proof (cases e)
  case (UnixEndpoint socket)
  obtain x net1 where x: "unix_request wire socket (aw_print wire req @ [newline]) net = (x, net1)" by fastforce
  with run UnixEndpoint have "r = and_then x (decode_response wire)" "net' = net1\<lparr>rn_clock := rn_clock net1 + 1\<rparr>"
    by (auto simp: send_request_def Let_def)
  with unix_outcome [OF laws x] UnixEndpoint that show ?thesis by (simp add: endpoint_site_def)
next
  case (DockerExec container socket deployment inst resource_hash)
  obtain x net1 where x: "docker_exec_request wire container socket deployment inst resource_hash
      (aw_print wire req @ [newline]) net = (x, net1)" by fastforce
  with run DockerExec have "r = and_then x (decode_response wire)" "net' = net1\<lparr>rn_clock := rn_clock net1 + 1\<rparr>"
    by (auto simp: send_request_def Let_def)
  with docker_outcome [OF laws x] DockerExec that show ?thesis by simp
qed

lemma net_inv_update:
  "net_inv digest net \<Longrightarrow> control_inv digest st \<Longrightarrow>
     net_inv digest (net\<lparr>rn_routers := (rn_routers net)(s \<mapsto> p\<lparr>rp_state := st\<rparr>)\<rparr>)"
  by (simp add: net_inv_def)

lemma net_inv_clock [simp]: "net_inv digest (net\<lparr>rn_clock := n\<rparr>) = net_inv digest net"
  by (simp add: net_inv_def)

lemma served_update [simp]:
  "served (net\<lparr>rn_routers := (rn_routers net)(s \<mapsto> p)\<rparr>) = (served net)(s \<mapsto> active_config (rp_state p))"
  "served (net\<lparr>rn_clock := n\<rparr>) = served net"
  by (auto simp: served_def fun_eq_iff)

lemma endpoint_site_inspection:
  "rn_inspection net' = rn_inspection net \<Longrightarrow> endpoint_site wire net' = endpoint_site wire net"
  by (simp add: endpoint_site_def fun_eq_iff split: admin_endpoint.splits)

lemma reached_current:
  assumes inv: "net_inv digest net" and laws: "admin_wire_laws wire"
    and "reached wire (version_request t) s response net net'"
  shows "net_inv digest net'" and "rn_inspection net' = rn_inspection net" and "served net' = served net"
    and "\<exists>c ident. served net s = Some c \<and>
      response \<in> {None} \<union> {Some (False, body) | body. True} \<union>
        {Some (True, jobj [(''id'', JStr ident), (''version'', JUInt (config_version c)),
           (''checksum'', JStr (digest c))])}"
proof -
  obtain p st where p: "rn_routers net s = Some p"
    and run: "admin_connection (cc_env (call_of net)) (aw_decode wire) (rp_token p) (cc_write_ok (call_of net))
        (aw_print wire (version_request t) @ [newline]) None (rp_state p) = Some (response, st)"
    and net': "net' = net\<lparr>rn_routers := (rn_routers net)(s \<mapsto> p\<lparr>rp_state := st\<rparr>)\<rparr>"
    using assms(3) by (auto simp: reached_def)
  note effect = version_request_effect [OF connection_outcome [OF admin_wire_lawsD(1) [OF laws]
      admin_wire_lawsD(3) [OF laws] run]]
  have cinv: "control_inv digest (rp_state p)" using inv p by (simp add: net_inv_def)
  then show "net_inv digest net'" using net_inv_update [OF inv observedD(3) [OF effect(1)]] net' by simp
  show "rn_inspection net' = rn_inspection net" by (simp add: net')
  show "served net' = served net"
    using observedD(2) [OF effect(1)] p by (auto simp: net' served_def fun_eq_iff)
  let ?c = "active_config (rp_state p)"
  have "snapshot_identity (ctl_engine (rp_state p)) =
      jobj [(''id'', JStr (snapshot_ident (engine_snapshot (ctl_engine (rp_state p))))),
        (''version'', JUInt (config_version ?c)), (''checksum'', JStr (digest ?c))]"
    using cinv engine_inv_checksum [of digest]
    by (simp add: identity_body active_config_def version_def control_inv_def)
  moreover have "served net s = Some ?c" by (simp add: served_def p)
  ultimately show "\<exists>c ident. served net s = Some c \<and>
      response \<in> {None} \<union> {Some (False, body) | body. True} \<union>
        {Some (True, jobj [(''id'', JStr ident), (''version'', JUInt (config_version c)),
           (''checksum'', JStr (digest c))])}"
    using effect(2) by auto
qed

lemma reached_apply:
  assumes inv: "net_inv digest net" and laws: "admin_wire_laws wire"
    and "reached wire (apply_request wire t c) s response net net'"
  shows "net_inv digest net'" and "rn_inspection net' = rn_inspection net"
    and "\<And>k. k \<noteq> s \<Longrightarrow> served net' k = served net k"
    and "served net' s = served net s \<and>
           response \<in> {None} \<union> {Some (False, body) | body. True} \<union>
             {Some (True, ack_body v k ''rejected_stale'') | v k. True} \<or>
         served net' s = Some c \<and>
           response \<in> {None, Some (True, ack_body (config_version c) (digest c) ''activated'')}"
proof -
  obtain p st where p: "rn_routers net s = Some p"
    and run: "admin_connection (cc_env (call_of net)) (aw_decode wire) (rp_token p) (cc_write_ok (call_of net))
        (aw_print wire (apply_request wire t c) @ [newline]) None (rp_state p) = Some (response, st)"
    and net': "net' = net\<lparr>rn_routers := (rn_routers net)(s \<mapsto> p\<lparr>rp_state := st\<rparr>)\<rparr>"
    using assms(3) by (auto simp: reached_def)
  have d: "ce_digest (cc_env (call_of net)) = digest" using inv by (simp add: net_inv_def call_of_def)
  then have cinv: "control_inv (ce_digest (cc_env (call_of net))) (rp_state p)" using inv p by (simp add: net_inv_def)
  have s: "served net s = Some (active_config (rp_state p))" "served net' s = Some (active_config st)"
    by (simp_all add: served_def p net')
  show "rn_inspection net' = rn_inspection net" by (simp add: net')
  show "served net' k = served net k" if "k \<noteq> s" for k using that by (simp add: net' served_def)
  have "connection": "refused (rp_state p) st response \<or>
      executed (cc_env (call_of net)) (ApplyConfig c) (rp_state p) st response"
    by (rule connection_outcome [OF admin_wire_lawsD(1) [OF laws] admin_wire_lawsD(4) [OF laws] run])
  have "control_inv digest st \<and> (served net' s = served net s \<and>
           response \<in> {None} \<union> {Some (False, body) | body. True} \<union>
             {Some (True, ack_body v k ''rejected_stale'') | v k. True} \<or>
         served net' s = Some c \<and>
           response \<in> {None, Some (True, ack_body (config_version c) (digest c) ''activated'')})"
    by (rule apply_request_effect [OF cinv connection]) (simp_all add: d s)
  then show "net_inv digest net'" and "served net' s = served net s \<and>
           response \<in> {None} \<union> {Some (False, body) | body. True} \<union>
             {Some (True, ack_body v k ''rejected_stale'') | v k. True} \<or>
         served net' s = Some c \<and>
           response \<in> {None, Some (True, ack_body (config_version c) (digest c) ''activated'')}"
    using net_inv_update [OF inv, of st s p] net' by simp_all
qed

lemma identity_round_trip:
  "identity_from_value wire (jobj [(''id'', JStr i), (''version'', JUInt v), (''checksum'', JStr c)]) =
     Inr \<lparr>si_id = i, si_version = v, si_checksum = c\<rparr>"
  by (simp add: identity_from_value_def struct_fields_def jobj_def members_of_def)

lemma acknowledgement_round_trip:
  "acknowledgement_from_value wire (ack_body v c ''activated'') =
     Inr \<lparr>aa_version = v, aa_checksum = c, aa_status = Activated\<rparr>"
  "acknowledgement_from_value wire (ack_body v c ''rejected_stale'') =
     Inr \<lparr>aa_version = v, aa_checksum = c, aa_status = RejectedStale\<rparr>"
  by (simp_all add: acknowledgement_from_value_def struct_fields_def ack_body_def jobj_def members_of_def
      status_from_value_def)

lemma identity_from_value_Inl: "identity_from_value wire j = Inl e \<Longrightarrow> rejection_code e = None"
  by (auto simp: identity_from_value_def split: option.splits list.splits json.splits json_number.splits)

lemma acknowledgement_from_value_Inl: "acknowledgement_from_value wire j = Inl e \<Longrightarrow> rejection_code e = None"
  by (auto simp: acknowledgement_from_value_def split: option.splits list.splits json.splits json_number.splits)

lemma current_snapshot_effect:
  assumes inv: "net_inv digest net" and laws: "admin_wire_laws wire"
    and run: "current_snapshot wire token e net = (r, net')"
  shows "net_inv digest net'" and "rn_inspection net' = rn_inspection net" and "served net' = served net"
    and "r = Inr i \<Longrightarrow> \<exists>c. endpoint_active wire net e = Some c \<and>
      si_version i = config_version c \<and> si_checksum i = digest c"
proof -
  obtain x where x: "send_request wire e (version_request token) net = (x, net')"
    and r: "r = and_then x (identity_from_value wire)"
    using run by (auto simp: current_snapshot_def split: prod.splits)
  obtain net1 where out: "client_outcome wire (version_request token) (endpoint_site wire net e) x net net1"
    and net': "net' = net1\<lparr>rn_clock := rn_clock net1 + 1\<rparr>"
    using send_outcome [OF laws x] .
  note effect = reached_current [OF inv laws]
  from out have "net_inv digest net1 \<and> rn_inspection net1 = rn_inspection net \<and> served net1 = served net"
    unfolding client_outcome_def using effect(1-3) inv by blast
  with net' show "net_inv digest net'" "rn_inspection net' = rn_inspection net" "served net' = served net"
    by simp_all
  show "\<exists>c. endpoint_active wire net e = Some c \<and> si_version i = config_version c \<and> si_checksum i = digest c"
    if i: "r = Inr i"
  proof -
    obtain j where j: "x = Inr j" "identity_from_value wire j = Inr i" using i r by (auto simp: and_then_Inr)
    with out obtain s reply where s: "endpoint_site wire net e = Some s"
      and reach: "reached wire (version_request token) s (Some reply) net net1" and "answer_of reply (Inr j)"
      unfolding client_outcome_def by auto
    then have "reply = (True, j)" by (cases reply) (auto simp: answer_of_def split: if_splits)
    with effect(4) [OF reach] obtain c ident where "served net s = Some c"
      "j = jobj [(''id'', JStr ident), (''version'', JUInt (config_version c)), (''checksum'', JStr (digest c))]"
      by auto
    with j(2) s show ?thesis by (auto simp: identity_round_trip endpoint_active_def)
  qed
qed

lemma apply_answer:
  assumes "transport_error x \<or> (\<exists>reply. response = Some reply \<and> answer_of reply x)"
    and "new = old \<and> response \<in> {None} \<union> {Some (False, body) | body. True} \<union>
           {Some (True, ack_body v k ''rejected_stale'') | v k. True} \<or>
         new = Some c \<and> response \<in> {None, Some (True, ack_body (config_version c) (digest c) ''activated'')}"
  shows "apply_contract digest c (and_then x (acknowledgement_from_value wire)) old new"
  using assms(1)
proof
  assume "transport_error x"
  then show ?thesis using assms(2) by (cases x) (auto simp: apply_contract_def)
next
  assume "\<exists>reply. response = Some reply \<and> answer_of reply x"
  then obtain ok body where "response = Some (ok, body)"
    and x: "if ok then x = Inr body else (\<exists>code message. x = Inl (AdminRejected code message body))"
    by (auto simp: answer_of_def)
  with assms(2) consider "new = old" "\<not> ok" | v k where "new = old" "ok" "body = ack_body v k ''rejected_stale''"
    | "new = Some c" "ok" "body = ack_body (config_version c) (digest c) ''activated''" by auto
  then show ?thesis using x by cases (auto simp: apply_contract_def acknowledgement_round_trip)
qed

lemma apply_snapshot_effect:
  assumes inv: "net_inv digest net" and laws: "admin_wire_laws wire"
    and run: "apply_snapshot wire token e c net = (r, net')"
  shows "net_inv digest net'" and "rn_inspection net' = rn_inspection net"
    and "\<And>k. endpoint_site wire net e \<noteq> Some k \<Longrightarrow> served net' k = served net k"
    and "apply_contract digest c r (endpoint_active wire net e) (endpoint_active wire net' e)"
proof -
  obtain x where x: "send_request wire e (apply_request wire token c) net = (x, net')"
    and r: "r = and_then x (acknowledgement_from_value wire)"
    using run by (auto simp: apply_snapshot_def split: prod.splits)
  obtain net1 where out: "client_outcome wire (apply_request wire token c) (endpoint_site wire net e) x net net1"
    and net': "net' = net1\<lparr>rn_clock := rn_clock net1 + 1\<rparr>"
    using send_outcome [OF laws x] .
  consider (unreached) "transport_error x" "net1 = net"
    | (reached) s response where "endpoint_site wire net e = Some s"
      "reached wire (apply_request wire token c) s response net net1"
      "transport_error x \<or> (\<exists>reply. response = Some reply \<and> answer_of reply x)"
    using out unfolding client_outcome_def by blast
  then have "net_inv digest net' \<and> rn_inspection net' = rn_inspection net \<and>
     (\<forall>k. endpoint_site wire net e \<noteq> Some k \<longrightarrow> served net' k = served net k) \<and>
     apply_contract digest c r (endpoint_active wire net e) (endpoint_active wire net' e)"
  proof cases
    case unreached
    then have "apply_contract digest c r (endpoint_active wire net e) (endpoint_active wire net e)"
      unfolding r by (intro apply_answer [where response = None]) auto
    with unreached net' inv show ?thesis
      using endpoint_site_inspection [of net' net wire] by (simp add: endpoint_active_def)
  next
    case reached
    note effect = reached_apply [OF inv laws reached(2)]
    have insp: "rn_inspection net' = rn_inspection net" using effect(2) net' by simp
    have act: "endpoint_active wire net' e = served net1 s" "endpoint_active wire net e = served net s"
      using reached(1) endpoint_site_inspection [OF insp, of wire] net' by (simp_all add: endpoint_active_def)
    show ?thesis
      using effect(1,3) insp reached(1) net' apply_answer [where digest = digest and c = c, OF reached(3) effect(4)]
      unfolding act r by simp
  qed
  then show "net_inv digest net'" "rn_inspection net' = rn_inspection net"
    "\<And>k. endpoint_site wire net e \<noteq> Some k \<Longrightarrow> served net' k = served net k"
    "apply_contract digest c r (endpoint_active wire net e) (endpoint_active wire net' e)"
    by simp_all
qed

interpretation router_net: router_channel "current_snapshot wire token" "apply_snapshot wire token"
    "endpoint_site wire" "endpoint_active wire" digest "\<lambda>net. admin_wire_laws wire \<and> net_inv digest net"
  for wire token digest
proof (unfold_locales, goal_cases)
  case (1 w e r w')
  then have "net_inv digest w'" "rn_inspection w' = rn_inspection w" "served w' = served w"
    using current_snapshot_effect(1-3) [of digest w wire token e r w'] by auto
  with 1 show ?case using endpoint_site_inspection [of w' w wire] by (simp add: endpoint_active_def [abs_def])
next
  case (2 w e i w')
  then show ?case using current_snapshot_effect(4) by blast
next
  case (3 w e c a w')
  then show ?case
    using apply_snapshot_effect(1,2,4) [of digest w wire token e c a w'] endpoint_site_inspection by blast
next
  case (4 w e c a w' k)
  then show ?case
    using apply_snapshot_effect(2,3) [of digest w wire token e c a w'] endpoint_site_inspection [of w' w wire]
    by (cases "endpoint_site wire w k") (simp_all add: endpoint_active_def)
qed

section \<open>Ownership\<close>

lemma verify_container_labels_iff:
  "verify_container_labels labels container expectations = Inr () \<longleftrightarrow>
     (\<forall>(name, expected)\<in>set expectations. json_get_str labels name = Some expected)"
proof (cases "find (\<lambda>(name, expected). json_get_str labels name \<noteq> Some expected) expectations")
  case None
  then have "\<forall>(name, expected)\<in>set expectations. json_get_str labels name = Some expected"
    by (auto simp: find_None_iff)
  with None show ?thesis by (simp add: verify_container_labels_def)
next
  case (Some p)
  then have "p \<in> set expectations" "json_get_str labels (fst p) \<noteq> Some (snd p)"
    by (auto simp: find_Some_iff case_prod_beta)
  with Some show ?thesis by (auto simp: verify_container_labels_def split: prod.splits)
qed

lemma inspected_container_Inr:
  "inspected_container wire container deployment inst resource_hash stdout = Inr container_id \<longleftrightarrow>
     (\<exists>inspection labels. aw_parse wire stdout = Inr inspection \<and> container_id \<noteq> [] \<and>
        json_get_str inspection ''id'' = Some container_id \<and> json_get inspection ''labels'' = Some labels \<and>
        (\<forall>(name, expected)\<in>set (label_expectations deployment inst resource_hash).
           json_get_str labels name = Some expected))"
  by (auto simp: inspected_container_def and_then_Inr verify_container_labels_iff
      split: sum.splits option.splits if_splits)

lemma reached_site:
  "reached wire req s response net net' \<Longrightarrow> k \<noteq> s \<Longrightarrow> rn_routers net' k = rn_routers net k"
  by (auto simp: reached_def)

text \<open>What must hold before a request of this endpoint may act on the router at a site.\<close>

definition owned_site :: "admin_wire \<Rightarrow> router_net \<Rightarrow> admin_endpoint \<Rightarrow> router_site \<Rightarrow> bool" where
  "owned_site wire net endpoint s \<longleftrightarrow>
     (case endpoint of
        UnixEndpoint socket \<Rightarrow> s = HostSocket socket
      | DockerExec container socket deployment inst resource_hash \<Rightarrow>
          (\<exists>inspection labels container_id.
             aw_parse wire (take MAX_COMMAND_OUTPUT_BYTES (rn_inspection net container)) = Inr inspection \<and>
             s = ContainerSocket container_id socket \<and>
             json_get_str inspection ''id'' = Some container_id \<and>
             json_get inspection ''labels'' = Some labels \<and>
             json_get_str labels ''dev.apmpr.managed'' = Some ''true'' \<and>
             json_get_str labels ''dev.apmpr.deployment'' = Some deployment \<and>
             json_get_str labels ''dev.apmpr.instance'' = Some inst \<and>
             json_get_str labels ''dev.apmpr.resource-hash'' = Some resource_hash))"

lemma endpoint_site_owned: "endpoint_site wire net e = Some s \<Longrightarrow> owned_site wire net e s"
  by (cases e) (auto simp: endpoint_site_def owned_site_def inspected_container_Inr label_expectations_def
      split: sum.splits)

lemma send_request_owned:
  assumes "admin_wire_laws wire" and "send_request wire e req net = (r, net')"
    and "rn_routers net' s \<noteq> rn_routers net s"
  shows "owned_site wire net e s"
proof -
  obtain net1 where out: "client_outcome wire req (endpoint_site wire net e) r net net1"
    and net': "net' = net1\<lparr>rn_clock := rn_clock net1 + 1\<rparr>"
    using send_outcome [OF assms(1,2)] .
  with assms(3) obtain s' response where "endpoint_site wire net e = Some s'" "reached wire req s' response net net1"
    unfolding client_outcome_def by auto
  moreover from this assms(3) net' have "s = s'" using reached_site [of wire req s' response net net1 s] by auto
  ultimately show ?thesis by (simp add: endpoint_site_owned)
qed

end
