(* ===== verification/ConfigEncoding.thy ===== *)
theory ConfigEncoding
  imports RouterClient "HOL-Library.Countable"
begin

text \<open>
  Router configurations and \<open>serde_json\<close> values are countable, so there is an encoding with
  the documented behaviour of the wire (\<open>admin_wire_laws\<close>): the hypothesis under which the
  administration channel is verified can be met. The encoding numbers the values.
\<close>

section \<open>Countable types\<close>

instance word :: (len) countable
  by (rule countable_classI [of "\<lambda>w. to_nat (uint w)"]) (simp add: word_uint_eq_iff)

instance ip_addr :: countable
  by countable_datatype

instance protocol :: countable
  by countable_datatype

instance connection_transition_policy :: countable
  by countable_datatype

instance connection_transition_policies_ext :: (countable) countable
  by (rule countable_classI [of "\<lambda>r. to_nat (tp_http r, tp_https r, tp_websocket r, tp_grpc r, tp_tcp r, connection_transition_policies.more r)"])
    (simp add: connection_transition_policies.equality)

instance route_snapshot_ext :: (countable) countable
  by (rule countable_classI [of "\<lambda>r. to_nat (snapshot_id r, snapshot_version r, snapshot_transitions r, route_snapshot.more r)"])
    (simp add: route_snapshot.equality)

instance gateway_exposure_mode :: countable
  by countable_datatype

instance gateway_exposure_ext :: (countable) countable
  by (rule countable_classI [of "\<lambda>r. to_nat (exposure_mode_of r, acknowledge_lan_exposure_risk r, publish_tailscale r, gateway_exposure.more r)"])
    (simp add: gateway_exposure.equality)

instance socket_address :: countable
  by countable_datatype

instance proxy_authentication_scheme :: countable
  by countable_datatype

instance proxy_authentication_cfg_ext :: (countable) countable
  by (rule countable_classI [of "\<lambda>r. to_nat (auth_scheme r, credential_file r, proxy_authentication_cfg.more r)"])
    (simp add: proxy_authentication_cfg.equality)

instance tls_identity_ext :: (countable) countable
  by (rule countable_classI [of "\<lambda>r. to_nat (tls_certificate r, tls_private_key r, tls_identity.more r)"])
    (simp add: tls_identity.equality)

instance listener_destination :: countable
  by countable_datatype

instance listener_ext :: (countable) countable
  by (rule countable_classI [of "\<lambda>r. to_nat (listener_consumer r, listener_bind r, listener_protocol r, listener_tls r, listener_destinations r, proxy_identity r, proxy_authentication r, listener.more r)"])
    (simp add: listener.equality)

instance upstream_endpoint_ext :: (countable) countable
  by (rule countable_classI [of "\<lambda>r. to_nat (endpoint_protocol r, endpoint_host r, endpoint_port r, upstream_endpoint.more r)"])
    (simp add: upstream_endpoint.equality)

instance health_check_protocol :: countable
  by countable_datatype

instance health_check_ext :: (countable) countable
  by (rule countable_classI [of "\<lambda>r. to_nat (check_protocol r, check_path r, check_interval_ms r, check_timeout_ms r, health_check.more r)"])
    (simp add: health_check.equality)

instance provider_ext :: (countable) countable
  by (rule countable_classI [of "\<lambda>r. to_nat (provider_id r, provider_endpoint r, provider_health_check r, receive_identity_header r, provider.more r)"])
    (simp add: provider.equality)

instance transparent_member_ext :: (countable) countable
  by (rule countable_classI [of "\<lambda>r. to_nat (member_component r, member_host r, member_ports r, transparent_member.more r)"])
    (simp add: transparent_member.equality)

instance transparent_proxy_ext :: (countable) countable
  by (rule countable_classI [of "\<lambda>r. to_nat (tproxy_consumer r, tproxy_port r, tproxy_members r, tproxy_connect_timeout_ms r, transparent_proxy.more r)"])
    (simp add: transparent_proxy.equality)

instance service_group_ext :: (countable) countable
  by (rule countable_classI [of "\<lambda>r. to_nat (group_id_of r, group_providers r, service_group.more r)"])
    (simp add: service_group.equality)

instance binding_cfg_ext :: (countable) countable
  by (rule countable_classI [of "\<lambda>r. to_nat (binding_id_of r, binding_consumer r, binding_group r, binding_required_slots r, binding_cfg.more r)"])
    (simp add: binding_cfg.equality)

instance route_cfg_ext :: (countable) countable
  by (rule countable_classI [of "\<lambda>r. to_nat (route_consumer r, route_slot r, route_provider r, route_cfg.more r)"])
    (simp add: route_cfg.equality)

instance browser_identity :: countable
  by countable_datatype

instance browser_route_ext :: (countable) countable
  by (rule countable_classI [of "\<lambda>r. to_nat (browser_identity_of r, browser_destination r, browser_provider r, browser_route.more r)"])
    (simp add: browser_route.equality)

instance identity_policy_ext :: (countable) countable
  by (rule countable_classI [of "\<lambda>r. to_nat (explicit_header_name r, strip_before_forwarding r, identity_policy.more r)"])
    (simp add: identity_policy.equality)

instance router_spec_ext :: (countable) countable
  by (rule countable_classI [of "\<lambda>r. to_nat (spec_snapshot r, spec_exposure r, spec_listeners r, spec_providers r, spec_groups r, spec_bindings r, spec_routes r, spec_browser_routes r, spec_transparent_proxy r, spec_identity r, router_spec.more r)"])
    (simp add: router_spec.equality)

instance router_config_ext :: (countable) countable
  by (rule countable_classI [of "\<lambda>r. to_nat (api_version r, config_kind r, metadata_deployment r, config_spec r, router_config.more r)"])
    (simp add: router_config.equality)

instance gateway_exposure_summary_ext :: (countable) countable
  by (rule countable_classI [of "\<lambda>r. to_nat (summary_mode r, exposed_addresses r, gateway_exposure_summary.more r)"])
    (simp add: gateway_exposure_summary.equality)

instance validation_code :: countable
  by countable_datatype

instance validation_error_ext :: (countable) countable
  by (rule countable_classI [of "\<lambda>r. to_nat (error_code r, error_path r, error_message r, error_context r, validation_error.more r)"])
    (simp add: validation_error.equality)

instance json_number :: countable
  by countable_datatype

instance json :: countable
  by countable_datatype

section \<open>The numbering as a wire\<close>

definition numbered :: "'a::countable \<Rightarrow> string" where
  "numbered x = nat_to_string (to_nat x)"

lemma numbered_eq [simp]: "numbered x = numbered y \<longleftrightarrow> x = y"
  by (auto simp: numbered_def dest: nat_to_string_inj)

lemma numbered_no_newline [simp]: "newline \<notin> set (numbered x)"
proof
  assume "newline \<in> set (numbered x)"
  then have "is_ascii_digit newline" unfolding numbered_def by (rule nat_to_string_digits)
  then show False by (simp add: is_ascii_digit_def)
qed

definition unnumber :: "('a \<Rightarrow> string) \<Rightarrow> string \<Rightarrow> string + 'a" where
  "unnumber f s = (if s \<in> range f then Inr (inv f s) else Inl ''no such value'')"

lemma unnumber: "inj f \<Longrightarrow> unnumber f (f x) = Inr x"
  by (simp add: unnumber_def)

definition config_value :: "router_config \<Rightarrow> json" where
  "config_value c = JStr (numbered c)"

definition encoded_command :: "string \<times> router_config option \<Rightarrow> json" where
  "encoded_command = (\<lambda>(t, c). jobj ([(''token'', JStr t)] @
     (case c of
        None \<Rightarrow> [(''operation'', JStr ''current-version'')]
      | Some c \<Rightarrow> [(''operation'', JStr ''apply''), (''config'', config_value c)])))"

lemma encoded_command_inj: "inj (\<lambda>x. numbered (encoded_command x))"
  by (rule injI) (auto simp: encoded_command_def jobj_def members_of_def bt_insert_def config_value_def
      split: option.splits)

definition numbered_wire :: admin_wire where
  "numbered_wire =
     \<lparr>aw_print = numbered,
      aw_parse = unnumber (\<lambda>j. numbered j @ [newline]),
      aw_config_json = config_value,
      aw_decode = (\<lambda>line. and_then (unnumber (\<lambda>x. numbered (encoded_command x)) line) (\<lambda>(t, c).
        Inr (t, case c of None \<Rightarrow> CurrentVersion | Some c \<Rightarrow> ApplyConfig c))),
      aw_type_error = (\<lambda>_. ''invalid type'')\<rparr>"

lemma numbered_wire_laws: "admin_wire_laws numbered_wire"
proof -
  have inj: "inj (\<lambda>j :: json. numbered j @ [newline])" by (rule injI) simp
  have requests: "version_request t = encoded_command (t, None)"
    "apply_request numbered_wire t c = encoded_command (t, Some c)" for t c
    by (simp_all add: version_request_def apply_request_def encoded_command_def numbered_wire_def)
  show ?thesis
    unfolding admin_wire_laws_def requests
    by (auto simp: numbered_wire_def unnumber [OF inj] unnumber [OF encoded_command_inj])
      (auto simp: unnumber_def)
qed

end
