(* ===== verification/StateModel.thy ===== *)
theory StateModel
  imports Json
begin

text \<open>
  The vocabulary of \<open>crates/apmpr-state/src/lib.rs\<close>: errors, project markers, the
  enumerations with the texts they are stored as, secret references and the check that keeps
  literal secrets out of persisted JSON, and the validation of identifiers and devices.

  \<open>serde_json\<close>, \<open>OsStr::to_string_lossy\<close> and SQLite's \<open>json_valid\<close> are parameters collected in
  \<open>store_env\<close>; a path is the byte sequence of its \<open>OsStr\<close>.
\<close>

section \<open>Parameters\<close>

type_synonym labels = "(string, string) btree"

record store_env =
  se_lossy :: "string \<Rightarrow> string"
  se_to_string :: "json \<Rightarrow> string"
  se_from_str :: "string \<Rightarrow> string + json"
  se_labels_to_string :: "labels \<Rightarrow> string"
  se_labels_from_str :: "string \<Rightarrow> string + labels"
  se_json_valid :: "string \<Rightarrow> bool"
  se_constraint_text :: string

section \<open>Errors\<close>

datatype state_error =
    StateIo string
  | StateSqlite string
  | StateJson string
  | NewerSchema i64 i64
  | InvalidInput string string
  | LockContended string string i64
  | LockLost string

fun state_error_code :: "state_error \<Rightarrow> string" where
  "state_error_code (StateIo e) = ''state_io''"
| "state_error_code (StateSqlite e) = ''state_sqlite''"
| "state_error_code (StateJson e) = ''invalid_json''"
| "state_error_code (NewerSchema found supported) = ''newer_schema''"
| "state_error_code (InvalidInput code context) = code"
| "state_error_code (LockContended deployment owner expires_at) = ''operation_lock_contended''"
| "state_error_code (LockLost deployment) = ''operation_lock_lost''"

fun state_error_text :: "state_error \<Rightarrow> string" where
  "state_error_text (StateIo e) = ''state filesystem error: '' @ e"
| "state_error_text (StateSqlite e) = ''SQLite state error: '' @ e"
| "state_error_text (StateJson e) = ''invalid state JSON: '' @ e"
| "state_error_text (NewerSchema found supported) =
     ''database schema '' @ int_to_string found @ '' is newer than supported schema '' @
     int_to_string supported"
| "state_error_text (InvalidInput code context) = code @ '': '' @ context"
| "state_error_text (LockContended deployment owner expires_at) =
     ''deployment `'' @ deployment @ ''` is locked by `'' @ owner @ ''` until '' @
     int_to_string expires_at"
| "state_error_text (LockLost deployment) =
     ''operation lock for `'' @ deployment @ ''` is no longer owned''"

type_synonym 'a state_result = "state_error + 'a"

definition invalid :: "string \<Rightarrow> string \<Rightarrow> state_error" where
  "invalid code context = InvalidInput code context"

section \<open>Project markers\<close>

definition SCHEMA_VERSION :: i64 where "SCHEMA_VERSION = 8"
definition MANAGED_LABEL :: string where "MANAGED_LABEL = ''dev.apmpr.managed''"
definition DEPLOYMENT_LABEL :: string where "DEPLOYMENT_LABEL = ''dev.apmpr.deployment''"
definition RESOURCE_HASH_LABEL :: string where "RESOURCE_HASH_LABEL = ''dev.apmpr.resource-hash''"
definition INSTANCE_LABEL :: string where "INSTANCE_LABEL = ''dev.apmpr.instance''"
definition SERVICE_LABEL :: string where "SERVICE_LABEL = ''dev.apmpr.service''"
definition DEVICE_LABEL :: string where "DEVICE_LABEL = ''dev.apmpr.device''"
definition PROJECT_API_VERSION :: string where "PROJECT_API_VERSION = ''apmpr.dev/v1alpha1''"

lemmas label_defs = MANAGED_LABEL_def DEPLOYMENT_LABEL_def RESOURCE_HASH_LABEL_def
  INSTANCE_LABEL_def SERVICE_LABEL_def DEVICE_LABEL_def

record project_metadata =
  pm_api_version :: string
  pm_name :: string

definition valid_project_name :: "string \<Rightarrow> bool" where
  "valid_project_name name \<longleftrightarrow>
     name \<noteq> [] \<and> length name \<le> 63 \<and>
     (\<forall>(index, c)\<in>set (enumerate 0 name).
        is_ascii_lowercase c \<or> (is_ascii_digit c \<and> 0 < index) \<or> (c = CHR ''-'' \<and> 0 < index)) \<and>
     \<not> ends_with name ''-''"

datatype file_read = FileContents string | FileNotFound | FileError string

definition load_project_metadata ::
  "(string \<Rightarrow> string + project_metadata) \<Rightarrow> string \<Rightarrow> file_read \<Rightarrow> project_metadata option state_result" where
  "load_project_metadata decode path file =
     (case file of
        FileContents contents \<Rightarrow>
          (case decode contents of
             Inl e \<Rightarrow> Inl (invalid ''invalid_project_marker'' (''could not parse `'' @ path @ ''`: '' @ e))
           | Inr metadata \<Rightarrow>
               if pm_api_version metadata \<noteq> PROJECT_API_VERSION
               then Inl (invalid ''unsupported_project_marker_version''
                      (''unsupported project marker version `'' @ pm_api_version metadata @ ''`''))
               else if \<not> valid_project_name (pm_name metadata)
               then Inl (invalid ''invalid_project_marker''
                      (''project marker contains invalid name `'' @ pm_name metadata @ ''`''))
               else Inr (Some metadata))
      | FileNotFound \<Rightarrow> Inr None
      | FileError e \<Rightarrow> Inl (StateIo e))"

section \<open>Enumerations and their stored texts\<close>

datatype device_check_status = CheckNever | CheckOk | Eligible | Ineligible | Unreachable | AuthFailed

fun device_status_str :: "device_check_status \<Rightarrow> string" where
  "device_status_str CheckNever = ''never''"
| "device_status_str CheckOk = ''ok''"
| "device_status_str Eligible = ''eligible''"
| "device_status_str Ineligible = ''ineligible''"
| "device_status_str Unreachable = ''unreachable''"
| "device_status_str AuthFailed = ''auth-failed''"

definition device_status_parse :: "string \<Rightarrow> device_check_status state_result" where
  "device_status_parse value =
     (if value = ''never'' then Inr CheckNever
      else if value = ''ok'' then Inr CheckOk
      else if value = ''eligible'' then Inr Eligible
      else if value = ''ineligible'' then Inr Ineligible
      else if value = ''unreachable'' then Inr Unreachable
      else if value = ''auth-failed'' then Inr AuthFailed
      else Inl (invalid ''invalid_device_status'' (''unknown device status `'' @ value @ ''`'')))"

datatype registered_source_kind = Unmanaged | Managed

fun source_kind_str :: "registered_source_kind \<Rightarrow> string" where
  "source_kind_str Unmanaged = ''unmanaged''"
| "source_kind_str Managed = ''managed''"

definition source_kind_parse :: "string \<Rightarrow> registered_source_kind state_result" where
  "source_kind_parse value =
     (if value = ''unmanaged'' then Inr Unmanaged
      else if value = ''managed'' then Inr Managed
      else Inl (invalid ''invalid_source_kind'' (''unknown source kind `'' @ value @ ''`'')))"

datatype operation_kind = Build | Start | Stop | Membership | ApplyOp | Cleanup | Other string

fun operation_kind_str :: "operation_kind \<Rightarrow> string" where
  "operation_kind_str Build = ''build''"
| "operation_kind_str Start = ''start''"
| "operation_kind_str Stop = ''stop''"
| "operation_kind_str Membership = ''membership''"
| "operation_kind_str ApplyOp = ''apply''"
| "operation_kind_str Cleanup = ''cleanup''"
| "operation_kind_str (Other value) = value"

datatype operation_status = OpPending | OpRunning | OpSucceeded | OpFailed | OpCancelled

fun operation_status_str :: "operation_status \<Rightarrow> string" where
  "operation_status_str OpPending = ''pending''"
| "operation_status_str OpRunning = ''running''"
| "operation_status_str OpSucceeded = ''succeeded''"
| "operation_status_str OpFailed = ''failed''"
| "operation_status_str OpCancelled = ''cancelled''"

datatype snapshot_status = SnPending | SnActive | SnRejected | SnRolledBack

fun snapshot_status_str :: "snapshot_status \<Rightarrow> string" where
  "snapshot_status_str SnPending = ''pending''"
| "snapshot_status_str SnActive = ''active''"
| "snapshot_status_str SnRejected = ''rejected''"
| "snapshot_status_str SnRolledBack = ''rolled_back''"

datatype router_apply_status = RaPending | RaActive | RaFailed | RaRolledBack

fun router_apply_status_str :: "router_apply_status \<Rightarrow> string" where
  "router_apply_status_str RaPending = ''pending''"
| "router_apply_status_str RaActive = ''active''"
| "router_apply_status_str RaFailed = ''failed''"
| "router_apply_status_str RaRolledBack = ''rolled_back''"

fun history_status :: "router_apply_status \<Rightarrow> string" where
  "history_status RaPending = ''pending''"
| "history_status RaActive = ''active''"
| "history_status RaFailed = ''rejected''"
| "history_status RaRolledBack = ''rolled_back''"

datatype resource_kind = Container | Image | Network | Volume

fun resource_kind_str :: "resource_kind \<Rightarrow> string" where
  "resource_kind_str Container = ''container''"
| "resource_kind_str Image = ''image''"
| "resource_kind_str Network = ''network''"
| "resource_kind_str Volume = ''volume''"

definition resource_kind_parse :: "string \<Rightarrow> resource_kind state_result" where
  "resource_kind_parse value =
     (if value = ''container'' then Inr Container
      else if value = ''image'' then Inr Image
      else if value = ''network'' then Inr Network
      else if value = ''volume'' then Inr Volume
      else Inl (invalid ''invalid_resource_kind''
             (''stored resource kind `'' @ value @ ''` is unsupported'')))"

section \<open>Secrets\<close>

datatype secret_reference = EnvironmentVariable string | SecretFile string

definition secret_environment :: "string \<Rightarrow> secret_reference state_result" where
  "secret_environment name =
     (if \<not> (name \<noteq> [] \<and>
            (\<forall>(index, c)\<in>set (enumerate 0 name).
               c = CHR ''_'' \<or> is_ascii_uppercase c \<or> (0 < index \<and> is_ascii_digit c)))
      then Inl (invalid ''invalid_secret_reference''
             ''environment references must be uppercase variable names'')
      else Inr (EnvironmentVariable name))"

definition secret_file :: "string \<Rightarrow> secret_reference state_result" where
  "secret_file path =
     (if path = []
      then Inl (invalid ''invalid_secret_reference'' ''secret file references cannot be empty'')
      else Inr (SecretFile path))"

definition secret_like :: "string \<Rightarrow> bool" where
  "secret_like key \<longleftrightarrow>
     (let normalized = filter (\<lambda>c. c \<noteq> CHR ''-'' \<and> c \<noteq> CHR ''_'') (to_ascii_lowercase key)
      in (\<exists>word\<in>set [''secret'', ''password'', ''passwd'', ''token'', ''apikey'', ''privatekey''].
            sublist word normalized) \<and>
         \<not> ends_with normalized ''reference'' \<and> \<not> ends_with normalized ''ref'')"

fun valid_secret_reference :: "json \<Rightarrow> bool" where
  "valid_secret_reference (JObj members) \<longleftrightarrow>
     length members = 1 \<and>
     (\<forall>(kind, value)\<in>set members.
        case value of
          JStr text' \<Rightarrow>
            if kind = ''environmentVariable'' then \<not> isl (secret_environment text')
            else if kind = ''file'' then \<not> isl (secret_file text')
            else False
        | _ \<Rightarrow> False)"
| "valid_secret_reference _ \<longleftrightarrow> False"

fun validate_no_secret_values :: "json \<Rightarrow> string \<Rightarrow> unit state_result"
  and validate_members :: "(string \<times> json) list \<Rightarrow> string \<Rightarrow> unit state_result"
  and validate_elements :: "json list \<Rightarrow> nat \<Rightarrow> string \<Rightarrow> unit state_result" where
  "validate_no_secret_values (JObj members) path = validate_members members path"
| "validate_no_secret_values (JArr values) path = validate_elements values 0 path"
| "validate_no_secret_values _ path = Inr ()"
| "validate_members [] path = Inr ()"
| "validate_members ((key, child) # members) path =
     (let child_path = path @ ''.'' @ key
      in if secret_like key \<and> \<not> valid_secret_reference child
         then Inl (invalid ''secret_value_forbidden''
                (child_path @ '' must contain an environmentVariable or file reference''))
         else and_then (validate_no_secret_values child child_path)
                (\<lambda>_. validate_members members path))"
| "validate_elements [] index path = Inr ()"
| "validate_elements (child # values) index path =
     and_then (validate_no_secret_values child (path @ ''['' @ nat_to_string index @ '']''))
       (\<lambda>_. validate_elements values (Suc index) path)"

text \<open>
  \<open>AppliedSnapshot\<close> and \<open>StructuredContext\<close>: newtypes around the canonical text, built only
  through the checking constructors.
\<close>

datatype applied_snapshot = AppliedSnapshot (snapshot_text: string)
datatype structured_context = StructuredContext (context_text: string)

definition snapshot_from_json :: "store_env \<Rightarrow> json \<Rightarrow> applied_snapshot state_result" where
  "snapshot_from_json env value =
     and_then (validate_no_secret_values value ''$'')
       (\<lambda>_. Inr (AppliedSnapshot (se_to_string env value)))"

definition structured_context_new :: "store_env \<Rightarrow> json \<Rightarrow> structured_context state_result" where
  "structured_context_new env value =
     and_then (validate_no_secret_values value ''$'')
       (\<lambda>_. Inr (StructuredContext (se_to_string env value)))"

section \<open>Identifiers and devices\<close>

definition validate_id :: "string \<Rightarrow> string \<Rightarrow> unit state_result" where
  "validate_id name value =
     (if is_blank value then Inl (invalid ''invalid_identifier'' (name @ '' cannot be empty''))
      else Inr ())"

fun validate_ids :: "(string \<times> string) list \<Rightarrow> unit state_result" where
  "validate_ids [] = Inr ()"
| "validate_ids ((name, value) # rest) = and_then (validate_id name value) (\<lambda>_. validate_ids rest)"

record registered_device =
  dev_name :: string
  dev_host :: string
  dev_port :: u16
  dev_user :: string
  dev_identity_file :: "string option"
  dev_created_at :: i64
  dev_last_checked_at :: "i64 option"
  dev_last_check_status :: device_check_status
  dev_last_check_detail :: "string option"

definition validate_device :: "registered_device \<Rightarrow> unit state_result" where
  "validate_device device =
     and_then (validate_id ''device name'' (dev_name device)) (\<lambda>_.
     and_then (reject_if (is_blank (dev_host device) \<or> contains_whitespace (dev_host device) \<or>
                 starts_with (dev_host device) ''-'')
        (invalid ''invalid_device_host''
           ''device host cannot be empty, contain whitespace, or start with `-`'')) (\<lambda>_.
     and_then (reject_if (is_blank (dev_user device) \<or> contains_whitespace (dev_user device) \<or>
                 starts_with (dev_user device) ''-'' \<or> CHR ''@'' \<in> set (dev_user device))
        (invalid ''invalid_device_user''
           ''device user cannot be empty, contain whitespace or `@`, or start with `-`'')) (\<lambda>_.
     and_then (reject_if (dev_port device = 0)
        (invalid ''invalid_device_port'' ''device port must be between 1 and 65535'')) (\<lambda>_.
     reject_if (dev_identity_file device = Some [])
        (invalid ''invalid_identity_file'' ''identity file path cannot be empty'')))))"

section \<open>Laws\<close>

lemma device_status_round_trip [simp]: "device_status_parse (device_status_str s) = Inr s"
  by (cases s) (simp_all add: device_status_parse_def)

lemma source_kind_round_trip [simp]: "source_kind_parse (source_kind_str k) = Inr k"
  by (cases k) (simp_all add: source_kind_parse_def)

lemma resource_kind_round_trip [simp]: "resource_kind_parse (resource_kind_str k) = Inr k"
  by (cases k) (simp_all add: resource_kind_parse_def)

lemma validate_id_Inr [simp]: "validate_id name value = Inr u \<longleftrightarrow> \<not> is_blank value"
  by (simp add: validate_id_def)

lemma validate_ids_Inr [simp]:
  "validate_ids ids = Inr u \<longleftrightarrow> (\<forall>(name, value)\<in>set ids. \<not> is_blank value)"
  by (induction ids rule: validate_ids.induct) (auto simp: and_then_Inr)

text \<open>A value free of literal secrets, at any depth.\<close>

definition secret_free :: "json \<Rightarrow> bool" where
  "secret_free = guarded (\<lambda>k v. secret_like k \<longrightarrow> valid_secret_reference v)"

lemma validate_no_secret_values_iff:
  "validate_no_secret_values j path = Inr u \<longleftrightarrow> secret_free j"
  "validate_members ms path = Inr u \<longleftrightarrow>
     (\<forall>(k, v)\<in>set ms. (secret_like k \<longrightarrow> valid_secret_reference v) \<and> secret_free v)"
  "validate_elements js index path = Inr u \<longleftrightarrow> (\<forall>j\<in>set js. secret_free j)"
  by (induction j path and ms path and js index path
        rule: validate_no_secret_values_validate_members_validate_elements.induct)
    (auto simp: secret_free_def guarded_simps Let_def and_then_Inr)

lemma snapshot_from_json_iff:
  "snapshot_from_json env j = Inr s \<longleftrightarrow> secret_free j \<and> s = AppliedSnapshot (se_to_string env j)"
  by (auto simp: snapshot_from_json_def and_then_Inr validate_no_secret_values_iff)

lemma structured_context_new_iff:
  "structured_context_new env j = Inr s \<longleftrightarrow> secret_free j \<and> s = StructuredContext (se_to_string env j)"
  by (auto simp: structured_context_new_def and_then_Inr validate_no_secret_values_iff)

end
