(* ===== verification/StateTables.thy ===== *)
theory StateTables
  imports StateModel
begin

text \<open>
  The tables of the state database and the operations of \<open>StateStore\<close> in
  \<open>crates/apmpr-state/src/lib.rs\<close>, except \<open>reconcile\<close> (theory StateReconcile). The tables and
  their constraints are those of the SQL files of \<open>crates/apmpr-state/src/migrations\<close> after the
  last migration: a table with a text primary key is an ordered map from the key (SQLite compares
  text bytewise), an append-only table is the list of its rows in sequence order.

  An operation is one statement or one transaction, so it is a function from the database to an
  error or a result with the new database; an error leaves the database as it was. Failures of
  the SQLite library other than violated constraints are not modelled.
\<close>

section \<open>Rows\<close>

record source_row =
  sr_name :: string
  sr_kind :: string
  sr_path :: string
  sr_repository_path :: "string option"
  sr_requested_ref :: "string option"
  sr_created_at :: i64
  sr_managed_relative_path :: "string option"

record device_row =
  dr_name :: string
  dr_host :: string
  dr_port :: int
  dr_user :: string
  dr_identity_file :: "string option"
  dr_created_at :: i64
  dr_last_checked_at :: "i64 option"
  dr_last_check_status :: string
  dr_last_check_detail :: "string option"

record imported_profile =
  ip_name :: string
  ip_source_name :: string
  ip_source_commit :: "string option"
  ip_content_hash :: string
  ip_definition_json :: string
  ip_imported_at :: i64

record deployment_row =
  dep_definition_hash :: "string option"
  dep_snapshot_json :: "string option"
  dep_applied_at :: "i64 option"
  dep_last_observed_at :: "i64 option"

record history_row =
  hr_deployment :: string
  hr_event :: string
  hr_definition_hash :: "string option"
  hr_recorded_at :: i64
  hr_context_json :: "string option"

record stored_operation =
  so_id :: string
  so_deployment :: string
  so_instance :: "string option"
  so_kind :: string
  so_status :: string
  so_started_at :: i64
  so_finished_at :: "i64 option"
  so_error_code :: "string option"
  so_error_context_json :: "string option"

record resource_row =
  rr_deployment :: string
  rr_kind :: string
  rr_runtime_id :: string
  rr_name :: string
  rr_resource_hash :: "string option"
  rr_state :: "string option"
  rr_labels_json :: string
  rr_observed_at :: i64
  rr_active :: bool

record health_observation =
  ho_deployment :: string
  ho_subject :: string
  ho_health :: string
  ho_readiness :: string
  ho_observed_at :: i64
  ho_context_json :: string

record route_record =
  rt_deployment :: string
  rt_route_key :: string
  rt_consumer :: string
  rt_provider :: string
  rt_protocol :: string
  rt_recorded_at :: i64

record stored_route_snapshot =
  ss_deployment :: string
  ss_router :: "string option"
  ss_binding :: "string option"
  ss_operation_id :: "string option"
  ss_version :: i64
  ss_checksum :: string
  ss_activation_status :: string
  ss_recorded_at :: i64
  ss_context_json :: string

record binding_row =
  br_desired_version :: "i64 option"
  br_desired_checksum :: "string option"
  br_current_version :: "i64 option"
  br_current_checksum :: "string option"
  br_previous_version :: "i64 option"
  br_previous_checksum :: "string option"
  br_observed_version :: "i64 option"
  br_observed_checksum :: "string option"
  br_status :: string
  br_transition_json :: string
  br_last_error_code :: "string option"
  br_updated_at :: i64

record lock_row =
  lk_owner :: string
  lk_pid :: u32
  lk_started_at :: i64
  lk_token :: string
  lk_heartbeat_at :: i64
  lk_expires_at :: i64

record database =
  db_sources :: "(string, source_row) btree"
  db_profiles :: "(string, imported_profile) btree"
  db_devices :: "(string, device_row) btree"
  db_deployments :: "(string, deployment_row) btree"
  db_history :: "history_row list"
  db_operations :: "(string, stored_operation) btree"
  db_resources :: "resource_row list"
  db_health :: "health_observation list"
  db_routes :: "route_record list"
  db_snapshots :: "stored_route_snapshot list"
  db_bindings :: "(string \<times> string \<times> string, binding_row) btree"
  db_locks :: "(string, lock_row) btree"

definition empty_database :: database where
  "empty_database =
     \<lparr>db_sources = [], db_profiles = [], db_devices = [], db_deployments = [], db_history = [],
      db_operations = [], db_resources = [], db_health = [], db_routes = [], db_snapshots = [],
      db_bindings = [], db_locks = []\<rparr>"

definition bt_delete :: "'k \<Rightarrow> ('k, 'v) btree \<Rightarrow> ('k, 'v) btree" where
  "bt_delete k m = filter (\<lambda>e. fst e \<noteq> k) m"

type_synonym 'a store_op = "database \<Rightarrow> ('a \<times> database) state_result"

abbreviation constraint_violation :: "store_env \<Rightarrow> state_error" where
  "constraint_violation env \<equiv> StateSqlite (se_constraint_text env)"

text \<open>\<open>CHECK(length(x) > 0)\<close>: SQLite counts the characters before the first NUL.\<close>

definition sqlite_nonempty :: "string \<Rightarrow> bool" where
  "sqlite_nonempty s \<longleftrightarrow> takeWhile (\<lambda>c. byte c \<noteq> 0) s \<noteq> []"

section \<open>Opening and migrating\<close>

definition MIGRATIONS :: "i64 list" where
  "MIGRATIONS = [1, 2, 3, 4, 5, 6, 7, 8]"

definition current_schema_version :: "i64 list option \<Rightarrow> i64" where
  "current_schema_version versions =
     (case versions of None \<Rightarrow> 0 | Some vs \<Rightarrow> if vs = [] then 0 else Max (set vs))"

function backup_suffix :: "string list \<Rightarrow> string \<Rightarrow> nat \<Rightarrow> string" where
  "backup_suffix existing candidate n =
     (let next' = candidate @ ''.'' @ nat_to_string n
      in if next' \<in> set existing then backup_suffix existing candidate (Suc n) else next')"
  by auto
termination
proof (relation "measure (\<lambda>(existing, candidate, n).
    card {p \<in> set existing. \<exists>m\<ge>n. p = candidate @ ''.'' @ nat_to_string m})")
  fix existing :: "string list" and candidate :: string and n :: nat and next' :: string
  let ?taken = "\<lambda>k. {p \<in> set existing. \<exists>m\<ge>k. p = candidate @ ''.'' @ nat_to_string m}"
  assume "next' = candidate @ ''.'' @ nat_to_string n" "next' \<in> set existing"
  then have "next' \<in> ?taken n" "next' \<notin> ?taken (Suc n)"
    by (auto dest: nat_to_string_inj)
  moreover have "?taken (Suc n) \<subseteq> ?taken n"
    by (auto dest: Suc_leD)
  ultimately have "?taken (Suc n) \<subset> ?taken n" by blast
  then show "((existing, candidate, Suc n), existing, candidate, n)
      \<in> measure (\<lambda>(existing, candidate, n).
          card {p \<in> set existing. \<exists>m\<ge>n. p = candidate @ ''.'' @ nat_to_string m})"
    by (simp add: psubset_card_mono)
qed simp

declare backup_suffix.simps [simp del]

definition backup_path :: "string list \<Rightarrow> string \<Rightarrow> i64 \<Rightarrow> string" where
  "backup_path existing path version =
     (let candidate = path @ ''.pre-migration-v'' @ int_to_string version @ ''.bak''
      in if candidate \<notin> set existing then candidate else backup_suffix existing candidate 1)"

record open_report =
  applied_migrations :: "i64 list"
  report_backup_path :: "string option"

text \<open>
  \<open>StateStore::open\<close>: \<open>existing\<close> lists the paths of the file system, \<open>versions\<close> is the content of
  \<open>schema_versions\<close> (\<open>None\<close> when there is no such table), \<open>backup\<close> and \<open>batch\<close> are the outcomes
  of copying the database and of executing a migration's SQL. The new content of
  \<open>schema_versions\<close> is returned with the report.
\<close>

definition open_store ::
  "string list \<Rightarrow> string \<Rightarrow> i64 list option \<Rightarrow> (string \<Rightarrow> unit state_result) \<Rightarrow>
   (i64 \<Rightarrow> unit state_result) \<Rightarrow> (i64 list option \<times> open_report) state_result" where
  "open_store existing path versions backup batch =
     (let existed = path \<in> set existing;
          current = current_schema_version versions
      in if SCHEMA_VERSION < current then Inl (NewerSchema current SCHEMA_VERSION)
         else
           let pending = filter (\<lambda>version. current < version) MIGRATIONS
           in and_then (if existed \<and> pending \<noteq> []
                        then (let target = backup_path existing path current
                              in and_then (backup target) (\<lambda>_. Inr (Some target)))
                        else Inr None) (\<lambda>backed_up.
              and_then (collect_results (\<lambda>version. and_then (batch version) (\<lambda>_. Inr version)) pending)
                (\<lambda>applied.
                   Inr (if pending = [] then versions
                        else Some ((case versions of None \<Rightarrow> [] | Some vs \<Rightarrow> vs) @ applied),
                        \<lparr>applied_migrations = applied, report_backup_path = backed_up\<rparr>))))"

section \<open>Sources\<close>

record registered_source =
  src_name :: string
  src_kind :: registered_source_kind
  src_path :: string
  src_repository_path :: "string option"
  src_requested_ref :: "string option"
  src_created_at :: i64
  src_managed_relative_path :: "string option"

definition source_from_row :: "source_row \<Rightarrow> registered_source state_result" where
  "source_from_row row =
     (case source_kind_parse (sr_kind row) of
        Inl e \<Rightarrow> Inl (StateSqlite (state_error_text e))
      | Inr kind \<Rightarrow>
          Inr \<lparr>src_name = sr_name row, src_kind = kind, src_path = sr_path row,
               src_repository_path = sr_repository_path row, src_requested_ref = sr_requested_ref row,
               src_created_at = sr_created_at row,
               src_managed_relative_path = sr_managed_relative_path row\<rparr>)"

definition source_to_row :: "store_env \<Rightarrow> registered_source \<Rightarrow> source_row" where
  "source_to_row env source =
     \<lparr>sr_name = src_name source, sr_kind = source_kind_str (src_kind source),
      sr_path = se_lossy env (src_path source),
      sr_repository_path = map_option (se_lossy env) (src_repository_path source),
      sr_requested_ref = src_requested_ref source, sr_created_at = src_created_at source,
      sr_managed_relative_path = map_option (se_lossy env) (src_managed_relative_path source)\<rparr>"

definition register_source :: "store_env \<Rightarrow> registered_source \<Rightarrow> unit store_op" where
  "register_source env source db =
     and_then (validate_id ''source name'' (src_name source)) (\<lambda>_.
     and_then (reject_if (src_path source = [])
        (invalid ''invalid_source_path'' ''source path cannot be empty'')) (\<lambda>_.
     and_then (reject_if (src_kind source = Unmanaged \<and> src_managed_relative_path source \<noteq> None)
        (invalid ''invalid_source_registration'' ''unmanaged sources cannot have a managed location'')) (\<lambda>_.
     and_then (reject_if (src_kind source = Managed \<and> src_managed_relative_path source = None)
        (invalid ''invalid_source_registration'' ''managed sources require a managed location'')) (\<lambda>_.
     let row = source_to_row env source
     in if bt_get (db_sources db) (sr_name row) \<noteq> None \<or>
           sr_path row \<in> sr_path ` snd ` set (db_sources db)
        then Inl (invalid ''source_already_registered''
               (''source `'' @ src_name source @ ''` or path `'' @ se_lossy env (src_path source) @
                ''` is already registered''))
        else Inr ((), db\<lparr>db_sources := bt_insert (sr_name row) row (db_sources db)\<rparr>)))))"

definition source :: "string \<Rightarrow> database \<Rightarrow> registered_source option state_result" where
  "source name db =
     (case bt_get (db_sources db) name of
        None \<Rightarrow> Inr None
      | Some row \<Rightarrow> and_then (source_from_row row) (\<lambda>s. Inr (Some s)))"

definition sources :: "database \<Rightarrow> registered_source list state_result" where
  "sources db = collect_results (\<lambda>(name, row). source_from_row row) (db_sources db)"

definition deregister_source :: "string \<Rightarrow> unit store_op" where
  "deregister_source name db =
     (if bt_get (db_sources db) name = None
      then Inl (invalid ''source_not_found'' (''source `'' @ name @ ''` is not registered''))
      else Inr ((), db\<lparr>db_sources := bt_delete name (db_sources db)\<rparr>))"

section \<open>Imported profiles\<close>

definition record_imported_profile :: "store_env \<Rightarrow> imported_profile \<Rightarrow> unit store_op" where
  "record_imported_profile env profile db =
     and_then (validate_ids [(''profile name'', ip_name profile),
        (''profile source name'', ip_source_name profile),
        (''profile content hash'', ip_content_hash profile)]) (\<lambda>_.
     case se_from_str env (ip_definition_json profile) of
       Inl e \<Rightarrow> Inl (StateJson e)
     | Inr _ \<Rightarrow> Inr ((), db\<lparr>db_profiles := bt_insert (ip_name profile) profile (db_profiles db)\<rparr>))"

definition imported_profile_named :: "string \<Rightarrow> database \<Rightarrow> imported_profile option state_result" where
  "imported_profile_named name db = Inr (bt_get (db_profiles db) name)"

definition imported_profiles :: "database \<Rightarrow> imported_profile list state_result" where
  "imported_profiles db = Inr (map snd (db_profiles db))"

definition remove_imported_profile :: "string \<Rightarrow> unit store_op" where
  "remove_imported_profile name db =
     (if bt_get (db_profiles db) name = None
      then Inl (invalid ''profile_not_imported'' (''profile `'' @ name @ ''` is not imported''))
      else Inr ((), db\<lparr>db_profiles := bt_delete name (db_profiles db)\<rparr>))"

section \<open>Devices\<close>

definition device_from_row :: "device_row \<Rightarrow> registered_device state_result" where
  "device_from_row row =
     (case device_status_parse (dr_last_check_status row) of
        Inl e \<Rightarrow> Inl (StateSqlite (state_error_text e))
      | Inr status \<Rightarrow>
          if dr_port row < 0 \<or> 65536 \<le> dr_port row
          then Inl (StateSqlite (int_to_string (dr_port row)))
          else Inr \<lparr>dev_name = dr_name row, dev_host = dr_host row, dev_port = word_of_int (dr_port row),
               dev_user = dr_user row, dev_identity_file = dr_identity_file row,
               dev_created_at = dr_created_at row, dev_last_checked_at = dr_last_checked_at row,
               dev_last_check_status = status, dev_last_check_detail = dr_last_check_detail row\<rparr>)"

definition device_to_row :: "store_env \<Rightarrow> registered_device \<Rightarrow> device_row" where
  "device_to_row env device =
     \<lparr>dr_name = dev_name device, dr_host = dev_host device, dr_port = uint (dev_port device),
      dr_user = dev_user device, dr_identity_file = map_option (se_lossy env) (dev_identity_file device),
      dr_created_at = dev_created_at device, dr_last_checked_at = dev_last_checked_at device,
      dr_last_check_status = device_status_str (dev_last_check_status device),
      dr_last_check_detail = dev_last_check_detail device\<rparr>"

definition device_not_found :: "string \<Rightarrow> state_error" where
  "device_not_found name = invalid ''device_not_found'' (''device `'' @ name @ ''` is not registered'')"

definition register_device :: "store_env \<Rightarrow> registered_device \<Rightarrow> unit store_op" where
  "register_device env device db =
     and_then (validate_device device) (\<lambda>_.
     if bt_get (db_devices db) (dev_name device) \<noteq> None
     then Inl (invalid ''device_already_registered''
            (''device `'' @ dev_name device @ ''` is already registered''))
     else Inr ((), db\<lparr>db_devices :=
            bt_insert (dev_name device) (device_to_row env device) (db_devices db)\<rparr>))"

definition device :: "string \<Rightarrow> database \<Rightarrow> registered_device option state_result" where
  "device name db =
     (case bt_get (db_devices db) name of
        None \<Rightarrow> Inr None
      | Some row \<Rightarrow> and_then (device_from_row row) (\<lambda>d. Inr (Some d)))"

definition devices :: "database \<Rightarrow> registered_device list state_result" where
  "devices db = collect_results (\<lambda>(name, row). device_from_row row) (db_devices db)"

definition deregister_device :: "string \<Rightarrow> unit store_op" where
  "deregister_device name db =
     (if bt_get (db_devices db) name = None then Inl (device_not_found name)
      else Inr ((), db\<lparr>db_devices := bt_delete name (db_devices db)\<rparr>))"

text \<open>
  The row is read back after the update; it always converts, since the status written is a valid
  text and the table's \<open>CHECK\<close> bounds the port.
\<close>

definition record_device_check ::
  "string \<Rightarrow> i64 \<Rightarrow> device_check_status \<Rightarrow> string option \<Rightarrow> registered_device store_op" where
  "record_device_check name checked_at status detail db =
     and_then (reject_if (status = CheckNever)
        (invalid ''invalid_device_status'' ''a completed check cannot have status `never`'')) (\<lambda>_.
     case bt_get (db_devices db) name of
       None \<Rightarrow> Inl (device_not_found name)
     | Some row \<Rightarrow>
         let row' = row\<lparr>dr_last_checked_at := Some checked_at,
                        dr_last_check_status := device_status_str status,
                        dr_last_check_detail := detail\<rparr>;
             db' = db\<lparr>db_devices := bt_insert name row' (db_devices db)\<rparr>
         in and_then (device name db') (\<lambda>found.
            case found of None \<Rightarrow> Inl (device_not_found name) | Some d \<Rightarrow> Inr (d, db')))"

section \<open>Deployments\<close>

definition deployment_event ::
  "store_env \<Rightarrow> string \<Rightarrow> string \<Rightarrow> string option \<Rightarrow> i64 \<Rightarrow> database \<Rightarrow> database state_result" where
  "deployment_event env deployment event definition_hash recorded_at db =
     (if bt_get (db_deployments db) deployment = None then Inl (constraint_violation env)
      else Inr (db\<lparr>db_history := db_history db @
             [\<lparr>hr_deployment = deployment, hr_event = event, hr_definition_hash = definition_hash,
               hr_recorded_at = recorded_at, hr_context_json = None\<rparr>]\<rparr>))"

definition record_applied_snapshot ::
  "store_env \<Rightarrow> string \<Rightarrow> string \<Rightarrow> applied_snapshot \<Rightarrow> i64 \<Rightarrow> unit store_op" where
  "record_applied_snapshot env deployment definition_hash snapshot applied_at db =
     and_then (validate_ids [(''deployment'', deployment), (''definition hash'', definition_hash)]) (\<lambda>_.
     if \<not> sqlite_nonempty deployment \<or> \<not> se_json_valid env (snapshot_text snapshot)
     then Inl (constraint_violation env)
     else
       let row = \<lparr>dep_definition_hash = Some definition_hash,
                  dep_snapshot_json = Some (snapshot_text snapshot), dep_applied_at = Some applied_at,
                  dep_last_observed_at =
                    (case bt_get (db_deployments db) deployment of
                       None \<Rightarrow> None
                     | Some old \<Rightarrow> dep_last_observed_at old)\<rparr>;
           db' = db\<lparr>db_deployments := bt_insert deployment row (db_deployments db)\<rparr>
       in and_then (deployment_event env deployment ''applied'' (Some definition_hash) applied_at db')
            (\<lambda>db''. Inr ((), db'')))"

record applied_deployment =
  ad_deployment :: string
  ad_definition_hash :: string
  ad_snapshot :: applied_snapshot
  ad_applied_at :: i64

definition applied_snapshot_of :: "string \<Rightarrow> database \<Rightarrow> applied_deployment option state_result" where
  "applied_snapshot_of deployment db =
     (case bt_get (db_deployments db) deployment of
        None \<Rightarrow> Inr None
      | Some row \<Rightarrow>
          (case (dep_definition_hash row, dep_snapshot_json row, dep_applied_at row) of
             (None, _, _) \<Rightarrow> Inr None
           | (Some hash, Some json, Some at) \<Rightarrow>
               Inr (Some \<lparr>ad_deployment = deployment, ad_definition_hash = hash,
                          ad_snapshot = AppliedSnapshot json, ad_applied_at = at\<rparr>)
           | _ \<Rightarrow> Inl (StateSqlite ''Invalid column type Null'')))"

text \<open>\<open>ORDER BY started_at DESC, id DESC\<close>\<close>

definition operation_order :: "stored_operation \<Rightarrow> i64 \<times> string" where
  "operation_order o' = (so_started_at o', so_id o')"

definition newest_first :: "stored_operation list \<Rightarrow> stored_operation list" where
  "newest_first os = rev (sort_key operation_order os)"

record stored_deployment =
  sd_deployment :: string
  sd_definition_hash :: "string option"
  sd_snapshot_json :: "string option"
  sd_applied_at :: "i64 option"
  sd_last_operation :: "stored_operation option"

definition latest_operation :: "string \<Rightarrow> database \<Rightarrow> stored_operation option" where
  "latest_operation deployment db =
     (case newest_first (filter (\<lambda>o'. so_deployment o' = deployment) (map snd (db_operations db))) of
        [] \<Rightarrow> None
      | o' # _ \<Rightarrow> Some o')"

definition deployments :: "database \<Rightarrow> stored_deployment list state_result" where
  "deployments db =
     Inr (map (\<lambda>(deployment, row).
       \<lparr>sd_deployment = deployment, sd_definition_hash = dep_definition_hash row,
        sd_snapshot_json = dep_snapshot_json row, sd_applied_at = dep_applied_at row,
        sd_last_operation = latest_operation deployment db\<rparr>) (db_deployments db))"

section \<open>Operations\<close>

record operation_error =
  oe_code :: string
  oe_context :: structured_context

record operation_record =
  op_id :: string
  op_deployment :: string
  op_instance :: "string option"
  op_kind :: operation_kind
  op_status :: operation_status
  op_started_at :: i64
  op_finished_at :: "i64 option"
  op_error :: "operation_error option"

definition error_columns :: "operation_error option \<Rightarrow> string option \<times> string option" where
  "error_columns error' =
     (map_option oe_code error', map_option (\<lambda>e. context_text (oe_context e)) error')"

definition error_json_ok :: "store_env \<Rightarrow> operation_error option \<Rightarrow> bool" where
  "error_json_ok env error' \<longleftrightarrow>
     (case snd (error_columns error') of None \<Rightarrow> True | Some json \<Rightarrow> se_json_valid env json)"

definition start_operation :: "store_env \<Rightarrow> operation_record \<Rightarrow> unit store_op" where
  "start_operation env operation db =
     and_then (validate_id ''operation id'' (op_id operation)) (\<lambda>_.
     and_then (validate_id ''deployment'' (op_deployment operation)) (\<lambda>_.
     and_then (case op_instance operation of
                 None \<Rightarrow> Inr ()
               | Some inst \<Rightarrow> validate_id ''operation instance'' inst) (\<lambda>_.
     if bt_get (db_operations db) (op_id operation) \<noteq> None \<or> \<not> error_json_ok env (op_error operation)
     then Inl (constraint_violation env)
     else Inr ((), db\<lparr>db_operations := bt_insert (op_id operation)
            \<lparr>so_id = op_id operation, so_deployment = op_deployment operation,
             so_instance = op_instance operation, so_kind = operation_kind_str (op_kind operation),
             so_status = operation_status_str (op_status operation),
             so_started_at = op_started_at operation, so_finished_at = op_finished_at operation,
             so_error_code = fst (error_columns (op_error operation)),
             so_error_context_json = snd (error_columns (op_error operation))\<rparr>
            (db_operations db)\<rparr>))))"

definition update_operation ::
  "store_env \<Rightarrow> string \<Rightarrow> operation_status \<Rightarrow> i64 option \<Rightarrow> operation_error option \<Rightarrow> unit store_op" where
  "update_operation env id' status finished_at error' db =
     (case bt_get (db_operations db) id' of
        None \<Rightarrow> Inl (invalid ''operation_not_found'' (''operation `'' @ id' @ ''` does not exist''))
      | Some row \<Rightarrow>
          if \<not> error_json_ok env error' then Inl (constraint_violation env)
          else Inr ((), db\<lparr>db_operations := bt_insert id'
                 (row\<lparr>so_status := operation_status_str status, so_finished_at := finished_at,
                      so_error_code := fst (error_columns error'),
                      so_error_context_json := snd (error_columns error')\<rparr>)
                 (db_operations db)\<rparr>))"

definition operation :: "string \<Rightarrow> database \<Rightarrow> stored_operation option state_result" where
  "operation id' db = Inr (bt_get (db_operations db) id')"

record operation_query =
  oq_deployment :: "string option"
  oq_instance :: "string option"
  oq_kind :: "string option"
  oq_status :: "string option"
  oq_cursor :: "string option"
  oq_limit :: u64

definition query_matches :: "operation_query \<Rightarrow> stored_operation \<Rightarrow> bool" where
  "query_matches query o' \<longleftrightarrow>
     (oq_deployment query = None \<or> oq_deployment query = Some (so_deployment o')) \<and>
     (oq_instance query = None \<or> oq_instance query = so_instance o') \<and>
     (case oq_kind query of
        None \<Rightarrow> True
      | Some kind \<Rightarrow> so_kind o' = kind \<or> (kind = ''apply'' \<and> so_kind o' = ''start'')) \<and>
     (oq_status query = None \<or> oq_status query = Some (so_status o'))"

definition before_cursor :: "(i64 \<times> string) option \<Rightarrow> stored_operation \<Rightarrow> bool" where
  "before_cursor cursor o' \<longleftrightarrow>
     (case cursor of
        None \<Rightarrow> True
      | Some (started_at, id') \<Rightarrow>
          so_started_at o' < started_at \<or> (so_started_at o' = started_at \<and> so_id o' < id'))"

definition operations :: "operation_query \<Rightarrow> database \<Rightarrow> stored_operation list state_result" where
  "operations query db =
     and_then (reject_if (oq_limit query = 0)
        (invalid ''invalid_operation_limit'' ''operation query limit must be greater than zero'')) (\<lambda>_.
     case u64_to_i64 (oq_limit query) of
       None \<Rightarrow> Inl (invalid ''invalid_operation_limit'' ''operation query limit exceeds SQLite range'')
     | Some limit \<Rightarrow>
         and_then
           (case oq_cursor query of
              None \<Rightarrow> Inr None
            | Some id' \<Rightarrow>
                (case bt_get (db_operations db) id' of
                   None \<Rightarrow> Inl (invalid ''operation_cursor_not_found''
                     (''operation cursor `'' @ id' @ ''` does not exist''))
                 | Some row \<Rightarrow> Inr (Some (operation_order row))))
           (\<lambda>cursor.
              Inr (take (nat limit)
                (newest_first (filter (\<lambda>o'. query_matches query o' \<and> before_cursor cursor o')
                  (map snd (db_operations db)))))))"

definition abandoned :: "stored_operation \<Rightarrow> bool" where
  "abandoned o' \<longleftrightarrow> so_status o' \<in> {''pending'', ''running''}"

definition recover_abandoned_operations :: "i64 \<Rightarrow> nat store_op" where
  "recover_abandoned_operations finished_at db =
     Inr (length (filter (\<lambda>(k, o'). abandoned o') (db_operations db)),
       db\<lparr>db_operations := map (\<lambda>(k, o').
         (k, if abandoned o'
             then o'\<lparr>so_status := ''failed'', so_finished_at := Some finished_at,
                     so_error_code := Some ''daemon_restarted'', so_error_context_json := Some ''{}''\<rparr>
             else o')) (db_operations db)\<rparr>)"

section \<open>Health, routes and route snapshots\<close>

definition record_health ::
  "store_env \<Rightarrow> string \<Rightarrow> string \<Rightarrow> string \<Rightarrow> string \<Rightarrow> i64 \<Rightarrow> structured_context \<Rightarrow> unit store_op" where
  "record_health env deployment subject health readiness observed_at context' db =
     (if \<not> se_json_valid env (context_text context') then Inl (constraint_violation env)
      else Inr ((), db\<lparr>db_health := db_health db @
             [\<lparr>ho_deployment = deployment, ho_subject = subject, ho_health = health,
               ho_readiness = readiness, ho_observed_at = observed_at,
               ho_context_json = context_text context'\<rparr>]\<rparr>))"

definition record_route :: "route_record \<Rightarrow> unit store_op" where
  "record_route route db = Inr ((), db\<lparr>db_routes := db_routes db @ [route]\<rparr>)"

text \<open>\<open>UNIQUE(deployment_id, version, checksum, activation_status, recorded_at)\<close>\<close>

definition snapshot_key :: "stored_route_snapshot \<Rightarrow> string \<times> i64 \<times> string \<times> string \<times> i64" where
  "snapshot_key s =
     (ss_deployment s, ss_version s, ss_checksum s, ss_activation_status s, ss_recorded_at s)"

definition insert_snapshot :: "store_env \<Rightarrow> stored_route_snapshot \<Rightarrow> database \<Rightarrow> database state_result" where
  "insert_snapshot env s db =
     (if snapshot_key s \<in> snapshot_key ` set (db_snapshots db) \<or> \<not> se_json_valid env (ss_context_json s)
      then Inl (constraint_violation env)
      else Inr (db\<lparr>db_snapshots := db_snapshots db @ [s]\<rparr>))"

record route_snapshot_record =
  rs_deployment :: string
  rs_router :: "string option"
  rs_binding :: "string option"
  rs_operation_id :: "string option"
  rs_version :: i64
  rs_checksum :: string
  rs_activation_status :: snapshot_status
  rs_recorded_at :: i64
  rs_context :: structured_context

definition record_route_snapshot :: "store_env \<Rightarrow> route_snapshot_record \<Rightarrow> unit store_op" where
  "record_route_snapshot env snapshot db =
     and_then (insert_snapshot env
        \<lparr>ss_deployment = rs_deployment snapshot, ss_router = rs_router snapshot,
         ss_binding = rs_binding snapshot, ss_operation_id = rs_operation_id snapshot,
         ss_version = rs_version snapshot, ss_checksum = rs_checksum snapshot,
         ss_activation_status = snapshot_status_str (rs_activation_status snapshot),
         ss_recorded_at = rs_recorded_at snapshot,
         ss_context_json = context_text (rs_context snapshot)\<rparr> db) (\<lambda>db'. Inr ((), db'))"

record router_apply_record =
  ra_deployment :: string
  ra_router :: string
  ra_binding :: string
  ra_operation_id :: string
  ra_desired_version :: i64
  ra_desired_checksum :: string
  ra_version :: i64
  ra_checksum :: string
  ra_status :: router_apply_status
  ra_observed_version :: "i64 option"
  ra_observed_checksum :: "string option"
  ra_transition :: structured_context
  ra_error_code :: "string option"
  ra_recorded_at :: i64
  ra_context :: structured_context

text \<open>\<open>Option::or\<close>\<close>

primrec option_or :: "'a option \<Rightarrow> 'a option \<Rightarrow> 'a option" where
  "option_or None y = y"
| "option_or (Some x) y = Some x"

definition activates :: "router_apply_record \<Rightarrow> bool" where
  "activates r \<longleftrightarrow> ra_status r = RaActive \<or> (ra_status r = RaRolledBack \<and> ra_error_code r = None)"

definition binding_key :: "router_apply_record \<Rightarrow> string \<times> string \<times> string" where
  "binding_key r = (ra_deployment r, ra_router r, ra_binding r)"

definition updated_binding :: "router_apply_record \<Rightarrow> binding_row option \<Rightarrow> binding_row" where
  "updated_binding r existing =
     (let old_version = (case existing of None \<Rightarrow> None | Some b \<Rightarrow> br_current_version b);
          old_checksum = (case existing of None \<Rightarrow> None | Some b \<Rightarrow> br_current_checksum b);
          current_version =
            option_or (option_or (if activates r then Some (ra_version r) else None) old_version)
              (ra_observed_version r);
          current_checksum =
            (if activates r then Some (ra_checksum r)
             else option_or old_checksum (ra_observed_checksum r));
          previous_version =
            (if activates r then option_or old_version (ra_observed_version r) else None);
          previous_checksum =
            (if activates r then option_or old_checksum (ra_observed_checksum r) else None);
          observed_version =
            (if activates r then current_version else option_or (ra_observed_version r) current_version);
          observed_checksum =
            (if activates r then current_checksum else option_or (ra_observed_checksum r) current_checksum)
      in \<lparr>br_desired_version = Some (ra_desired_version r), br_desired_checksum = Some (ra_desired_checksum r),
          br_current_version = current_version, br_current_checksum = current_checksum,
          br_previous_version =
            (case existing of
               None \<Rightarrow> previous_version
             | Some b \<Rightarrow> if activates r then previous_version else br_previous_version b),
          br_previous_checksum =
            (case existing of
               None \<Rightarrow> previous_checksum
             | Some b \<Rightarrow> if activates r then previous_checksum else br_previous_checksum b),
          br_observed_version = observed_version, br_observed_checksum = observed_checksum,
          br_status = router_apply_status_str (ra_status r),
          br_transition_json = context_text (ra_transition r),
          br_last_error_code = ra_error_code r, br_updated_at = ra_recorded_at r\<rparr>)"

definition record_router_apply :: "store_env \<Rightarrow> router_apply_record \<Rightarrow> unit store_op" where
  "record_router_apply env r db =
     and_then (validate_ids [(''deployment'', ra_deployment r), (''router'', ra_router r),
        (''binding'', ra_binding r), (''checksum'', ra_checksum r)]) (\<lambda>_.
     if \<not> se_json_valid env (context_text (ra_transition r)) then Inl (constraint_violation env)
     else
       let row = updated_binding r (bt_get (db_bindings db) (binding_key r));
           db' = db\<lparr>db_bindings := bt_insert (binding_key r) row (db_bindings db)\<rparr>
       in and_then (insert_snapshot env
            \<lparr>ss_deployment = ra_deployment r, ss_router = Some (ra_router r),
             ss_binding = Some (ra_binding r), ss_operation_id = Some (ra_operation_id r),
             ss_version = ra_version r, ss_checksum = ra_checksum r,
             ss_activation_status = history_status (ra_status r),
             ss_recorded_at = ra_recorded_at r,
             ss_context_json = context_text (ra_context r)\<rparr> db') (\<lambda>db''. Inr ((), db'')))"

definition router_bindings ::
  "string \<Rightarrow> database \<Rightarrow> (string \<times> string \<times> string \<times> binding_row) list state_result" where
  "router_bindings deployment db =
     Inr (map (\<lambda>((d, router, binding), row). (deployment, router, binding, row))
       (filter (\<lambda>((d, router, binding), row). d = deployment) (db_bindings db)))"

definition route_history :: "string \<Rightarrow> database \<Rightarrow> (i64 \<times> stored_route_snapshot) list state_result" where
  "route_history deployment db =
     Inr (filter (\<lambda>(sequence, s). ss_deployment s = deployment)
       (map (\<lambda>(i, s). (int i, s)) (enumerate 1 (db_snapshots db))))"

section \<open>Leases\<close>

record lock_request =
  lr_deployment :: string
  lr_owner :: string
  lr_pid :: u32
  lr_process_started_at :: i64
  lr_token :: string
  lr_now :: i64
  lr_ttl_millis :: i64

record operation_lock =
  ol_deployment :: string
  ol_owner :: string
  ol_token :: string
  ol_expires_at :: i64
  ol_recovered :: bool

definition lock_expiry :: "i64 \<Rightarrow> i64 \<Rightarrow> i64 state_result" where
  "lock_expiry now ttl_millis =
     (case i64_checked_add now ttl_millis of
        None \<Rightarrow> Inl (invalid ''invalid_lock_ttl'' ''lock expiry overflow'')
      | Some expires_at \<Rightarrow> Inr expires_at)"

definition acquire_lock :: "lock_request \<Rightarrow> operation_lock store_op" where
  "acquire_lock request db =
     and_then (reject_if (lr_ttl_millis request \<le> 0)
        (invalid ''invalid_lock_ttl'' ''lock TTL must be positive'')) (\<lambda>_.
     and_then (validate_ids [(''deployment'', lr_deployment request), (''owner'', lr_owner request),
        (''token'', lr_token request)]) (\<lambda>_.
     and_then (lock_expiry (lr_now request) (lr_ttl_millis request)) (\<lambda>expires_at.
     let existing = bt_get (db_locks db) (lr_deployment request);
         grant =
           (\<lparr>ol_deployment = lr_deployment request, ol_owner = lr_owner request,
             ol_token = lr_token request, ol_expires_at = expires_at, ol_recovered = (existing \<noteq> None)\<rparr>,
            db\<lparr>db_locks := bt_insert (lr_deployment request)
              \<lparr>lk_owner = lr_owner request, lk_pid = lr_pid request,
               lk_started_at = lr_process_started_at request, lk_token = lr_token request,
               lk_heartbeat_at = lr_now request, lk_expires_at = expires_at\<rparr> (db_locks db)\<rparr>)
     in case existing of
          None \<Rightarrow> Inr grant
        | Some row \<Rightarrow>
            if lr_now request < lk_expires_at row
            then Inl (LockContended (lr_deployment request) (lk_owner row) (lk_expires_at row))
            else Inr grant)))"

definition heartbeat_lock :: "operation_lock \<Rightarrow> i64 \<Rightarrow> i64 \<Rightarrow> operation_lock store_op" where
  "heartbeat_lock lock now ttl_millis db =
     and_then (reject_if (ttl_millis \<le> 0) (invalid ''invalid_lock_ttl'' ''lock TTL must be positive'')) (\<lambda>_.
     and_then (lock_expiry now ttl_millis) (\<lambda>expires_at.
     case bt_get (db_locks db) (ol_deployment lock) of
       None \<Rightarrow> Inl (LockLost (ol_deployment lock))
     | Some row \<Rightarrow>
         if lk_owner row = ol_owner lock \<and> lk_token row = ol_token lock \<and> now < lk_expires_at row
         then Inr (lock\<lparr>ol_expires_at := expires_at\<rparr>,
                db\<lparr>db_locks := bt_insert (ol_deployment lock)
                  (row\<lparr>lk_heartbeat_at := now, lk_expires_at := expires_at\<rparr>) (db_locks db)\<rparr>)
         else Inl (LockLost (ol_deployment lock))))"

definition release_lock :: "operation_lock \<Rightarrow> unit store_op" where
  "release_lock lock db =
     (case bt_get (db_locks db) (ol_deployment lock) of
        None \<Rightarrow> Inl (LockLost (ol_deployment lock))
      | Some row \<Rightarrow>
          if lk_owner row = ol_owner lock \<and> lk_token row = ol_token lock
          then Inr ((), db\<lparr>db_locks := bt_delete (ol_deployment lock) (db_locks db)\<rparr>)
          else Inl (LockLost (ol_deployment lock)))"

end
