(* ===== verification/StateReconcile.thy ===== *)
theory StateReconcile
  imports StateTables
begin

text \<open>
  Reconciliation of \<open>crates/apmpr-state/src/lib.rs\<close>: \<open>active_resources\<close>, \<open>reconcile\<close> and
  \<open>reconcile_deployment\<close>. The reads before the transaction and the transaction are one step: a
  store is used by one process at a time.
\<close>

section \<open>Inputs and reports\<close>

record owned_resource =
  or_kind :: resource_kind
  or_id :: string
  or_name :: string
  or_labels :: labels
  or_state :: "string option"
  or_device :: string

record generated_device =
  gd_user :: string
  gd_host :: string
  gd_port :: u16
  gd_identity_file :: "string option"

record generated_remote_project =
  gp_device :: generated_device
  gp_compose_project :: string
  gp_compose_file :: string
  gp_services :: "string list"

record generated_manifest =
  gm_deployment :: string
  gm_definition_hash :: string
  gm_resource_hash :: string
  gm_remote_projects :: "(string, generated_remote_project) btree"

record reconciliation_input =
  ri_manifests :: "generated_manifest list"
  ri_resources :: "owned_resource list"
  ri_unreachable_devices :: "string list"

datatype drift_code =
    AppliedStateMissing | GeneratedManifestMissing | DesiredAppliedHashMismatch
  | ObservedResourcesMissing | OwnershipInvalid | ObservedResourceHashMissing
  | ObservedResourceHashMismatch | MultipleObservedResourceHashes | DeviceUnreachable

record drift_diagnostic =
  dd_code :: drift_code
  dd_path :: string
  dd_message :: string

definition diagnostic :: "drift_code \<Rightarrow> string \<Rightarrow> string \<Rightarrow> drift_diagnostic" where
  "diagnostic code path message = \<lparr>dd_code = code, dd_path = path, dd_message = message\<rparr>"

record deployment_reconciliation =
  dc_deployment :: string
  dc_diagnostics :: "drift_diagnostic list"

definition local_device :: string where
  "local_device = ''local''"

text \<open>\<open>BTreeSet\<close>: the elements in order.\<close>

definition bt_set :: "'a::linorder list \<Rightarrow> 'a list" where
  "bt_set xs = sort (remdups xs)"

section \<open>Comparing one deployment\<close>

definition hash_sources :: "owned_resource list \<Rightarrow> owned_resource list" where
  "hash_sources resources =
     (let topology = filter (\<lambda>r. or_kind r \<noteq> Volume) resources
      in if topology = [] then resources else topology)"

definition observed_hashes :: "owned_resource list \<Rightarrow> string list" where
  "observed_hashes resources =
     bt_set (List.map_filter (\<lambda>r. bt_get (or_labels r) RESOURCE_HASH_LABEL) (hash_sources resources))"

definition owned :: "string \<Rightarrow> owned_resource \<Rightarrow> bool" where
  "owned deployment r \<longleftrightarrow>
     bt_get (or_labels r) MANAGED_LABEL = Some ''true'' \<and>
     bt_get (or_labels r) DEPLOYMENT_LABEL = Some deployment"

definition desired_diagnostics ::
  "string option \<Rightarrow> generated_manifest option \<Rightarrow> drift_diagnostic list" where
  "desired_diagnostics applied_hash manifest =
     (case (manifest, applied_hash) of
        (Some m, None) \<Rightarrow> [diagnostic AppliedStateMissing ''applied''
           ''generated state exists but no successful apply is recorded; desired state was not invented'']
      | (None, Some applied) \<Rightarrow> [diagnostic GeneratedManifestMissing ''desired.manifest''
           ''applied state exists but the generated manifest is missing'']
      | (Some m, Some applied) \<Rightarrow>
          if gm_definition_hash m \<noteq> applied
          then [diagnostic DesiredAppliedHashMismatch ''desired.definitionHash''
                  (''generated definition hash '' @ gm_definition_hash m @ '' differs from applied hash '' @
                   applied)]
          else []
      | (None, None) \<Rightarrow> [])"

definition observed_diagnostics ::
  "string \<Rightarrow> generated_manifest option \<Rightarrow> owned_resource list \<Rightarrow> drift_diagnostic list" where
  "observed_diagnostics deployment manifest resources =
     (let invalid_resources = map or_name (filter (\<lambda>r. \<not> owned deployment r) resources);
          missing = map or_name (filter (\<lambda>r. bt_get (or_labels r) RESOURCE_HASH_LABEL = None)
                      (hash_sources resources));
          hashes = observed_hashes resources
      in (if invalid_resources \<noteq> []
          then [diagnostic OwnershipInvalid ''observed.resources''
                  (''resources have invalid ownership labels: '' @ join '', '' invalid_resources)]
          else []) @
         (if missing \<noteq> []
          then [diagnostic ObservedResourceHashMissing ''observed.resources''
                  (''resources lack resource-hash labels: '' @ join '', '' missing)]
          else []) @
         (if 1 < length hashes
          then [diagnostic MultipleObservedResourceHashes ''observed.resourceHash''
                  (''runtime has multiple resource hashes: '' @ join '', '' hashes)]
          else []) @
         (case manifest of
            None \<Rightarrow> []
          | Some m \<Rightarrow>
              if hashes \<noteq> [] \<and> gm_resource_hash m \<notin> set hashes
              then [diagnostic ObservedResourceHashMismatch ''observed.resourceHash''
                      (''generated resource hash '' @ gm_resource_hash m @
                       '' differs from observed hash(es): '' @ join '', '' hashes)]
              else []))"

definition reconcile_deployment ::
  "string \<Rightarrow> string option \<Rightarrow> generated_manifest option \<Rightarrow> owned_resource list \<Rightarrow>
   deployment_reconciliation" where
  "reconcile_deployment deployment applied_hash manifest resources =
     \<lparr>dc_deployment = deployment,
      dc_diagnostics =
        desired_diagnostics applied_hash manifest @
        (if resources = []
         then (if manifest \<noteq> None \<or> applied_hash \<noteq> None
               then [diagnostic ObservedResourcesMissing ''observed.resources''
                       ''no labeled Docker resources were observed'']
               else [])
         else observed_diagnostics deployment manifest resources)\<rparr>"

section \<open>Stored resources\<close>

definition ownership_label :: "string \<Rightarrow> bool" where
  "ownership_label key \<longleftrightarrow> key \<in> set [MANAGED_LABEL, DEPLOYMENT_LABEL, RESOURCE_HASH_LABEL,
     INSTANCE_LABEL, SERVICE_LABEL, DEVICE_LABEL]"

definition ownership_labels_json :: "store_env \<Rightarrow> labels \<Rightarrow> string" where
  "ownership_labels_json env ls = se_labels_to_string env (filter (\<lambda>(key, _). ownership_label key) ls)"

definition resource_to_row :: "store_env \<Rightarrow> string \<Rightarrow> i64 \<Rightarrow> owned_resource \<Rightarrow> resource_row" where
  "resource_to_row env deployment observed_at r =
     \<lparr>rr_deployment = deployment, rr_kind = resource_kind_str (or_kind r), rr_runtime_id = or_id r,
      rr_name = or_name r, rr_resource_hash = bt_get (or_labels r) RESOURCE_HASH_LABEL,
      rr_state = or_state r, rr_labels_json = ownership_labels_json env (or_labels r),
      rr_observed_at = observed_at, rr_active = True\<rparr>"

definition resource_from_row :: "store_env \<Rightarrow> resource_row \<Rightarrow> owned_resource state_result" where
  "resource_from_row env row =
     (case se_labels_from_str env (rr_labels_json row) of
        Inl e \<Rightarrow> Inl (StateJson e)
      | Inr ls \<Rightarrow>
          and_then (resource_kind_parse (rr_kind row)) (\<lambda>kind.
          Inr \<lparr>or_kind = kind, or_id = rr_runtime_id row, or_name = rr_name row, or_labels = ls,
               or_state = rr_state row,
               or_device = (case bt_get ls DEVICE_LABEL of None \<Rightarrow> local_device | Some d \<Rightarrow> d)\<rparr>))"

definition active_rows :: "string \<Rightarrow> database \<Rightarrow> resource_row list" where
  "active_rows deployment db =
     sort_key (\<lambda>row. (rr_kind row, rr_name row, rr_runtime_id row))
       (filter (\<lambda>row. rr_deployment row = deployment \<and> rr_active row) (db_resources db))"

definition active_resources :: "store_env \<Rightarrow> string \<Rightarrow> database \<Rightarrow> owned_resource list state_result" where
  "active_resources env deployment db =
     collect_results (resource_from_row env) (active_rows deployment db)"

section \<open>Reconciling the store\<close>

definition reconciled_deployments :: "reconciliation_input \<Rightarrow> database \<Rightarrow> string list" where
  "reconciled_deployments input db =
     bt_set (map gm_deployment (ri_manifests input) @
       List.map_filter (\<lambda>r. bt_get (or_labels r) DEPLOYMENT_LABEL) (ri_resources input) @
       map fst (db_deployments db))"

definition preserved_resources ::
  "store_env \<Rightarrow> reconciliation_input \<Rightarrow> database \<Rightarrow> string \<Rightarrow> owned_resource list state_result" where
  "preserved_resources env input db deployment =
     and_then (active_resources env deployment db) (\<lambda>resources.
     Inr (filter (\<lambda>r. or_device r \<in> set (ri_unreachable_devices input)) resources))"

definition preserved_unreachable ::
  "store_env \<Rightarrow> reconciliation_input \<Rightarrow> database \<Rightarrow> string list \<Rightarrow>
   (string, owned_resource list) btree state_result" where
  "preserved_unreachable env input db names =
     (if ri_unreachable_devices input = [] then Inr []
      else and_then (collect_results (preserved_resources env input db) names) (\<lambda>found.
        Inr (filter (\<lambda>(_, resources). resources \<noteq> []) (zip names found))))"

definition deployment_resources ::
  "reconciliation_input \<Rightarrow> (string, owned_resource list) btree \<Rightarrow> string \<Rightarrow> owned_resource list" where
  "deployment_resources input preserved deployment =
     filter (\<lambda>r. bt_get (or_labels r) DEPLOYMENT_LABEL = Some deployment) (ri_resources input) @
     (case bt_get preserved deployment of None \<Rightarrow> [] | Some resources \<Rightarrow> resources)"

definition observe_deployment :: "store_env \<Rightarrow> string \<Rightarrow> i64 \<Rightarrow> database \<Rightarrow> database state_result" where
  "observe_deployment env deployment observed_at db =
     (if \<not> sqlite_nonempty deployment then Inl (constraint_violation env)
      else Inr (db\<lparr>db_deployments := bt_insert deployment
        (case bt_get (db_deployments db) deployment of
           None \<Rightarrow> \<lparr>dep_definition_hash = None, dep_snapshot_json = None, dep_applied_at = None,
                    dep_last_observed_at = Some observed_at\<rparr>
         | Some row \<Rightarrow> row\<lparr>dep_last_observed_at := Some observed_at\<rparr>) (db_deployments db)\<rparr>))"

definition deactivate :: "string \<Rightarrow> resource_row \<Rightarrow> resource_row" where
  "deactivate deployment row =
     (if rr_deployment row = deployment \<and> rr_active row then row\<lparr>rr_active := False\<rparr> else row)"

definition replace_resources ::
  "store_env \<Rightarrow> string \<Rightarrow> i64 \<Rightarrow> owned_resource list \<Rightarrow> database \<Rightarrow> database state_result" where
  "replace_resources env deployment observed_at resources db =
     (let rows = map (resource_to_row env deployment observed_at) resources
      in if \<exists>row\<in>set rows. \<not> se_json_valid env (rr_labels_json row)
         then Inl (constraint_violation env)
         else Inr (db\<lparr>db_resources := map (deactivate deployment) (db_resources db) @ rows\<rparr>))"

definition unreachable_diagnostics ::
  "reconciliation_input \<Rightarrow> generated_manifest option \<Rightarrow> drift_diagnostic list" where
  "unreachable_diagnostics input manifest =
     (case manifest of
        None \<Rightarrow> []
      | Some m \<Rightarrow>
          map (\<lambda>device'. diagnostic DeviceUnreachable (''observed.devices.'' @ device')
                 (''device `'' @ device' @ ''` unreachable; previous resource observations were retained''))
            (filter (\<lambda>device'. device' \<in> set (ri_unreachable_devices input))
              (map fst (gm_remote_projects m))))"

definition reconcile_one ::
  "store_env \<Rightarrow> reconciliation_input \<Rightarrow> (string, owned_resource list) btree \<Rightarrow> i64 \<Rightarrow> string \<Rightarrow>
   database \<Rightarrow> (deployment_reconciliation \<times> database) state_result" where
  "reconcile_one env input preserved observed_at deployment db =
     (let manifest = find (\<lambda>m. gm_deployment m = deployment) (ri_manifests input);
          resources = deployment_resources input preserved deployment
      in and_then (observe_deployment env deployment observed_at db) (\<lambda>db1.
         and_then (deployment_event env deployment ''reconciled''
                     (map_option gm_definition_hash manifest) observed_at db1) (\<lambda>db2.
         and_then (replace_resources env deployment observed_at resources db2) (\<lambda>db3.
         let applied = (case bt_get (db_deployments db3) deployment of
                          None \<Rightarrow> None
                        | Some row \<Rightarrow> dep_definition_hash row);
             report = reconcile_deployment deployment applied manifest resources
         in Inr (report\<lparr>dc_diagnostics := dc_diagnostics report @ unreachable_diagnostics input manifest\<rparr>,
                 db3)))))"

fun reconcile_all ::
  "store_env \<Rightarrow> reconciliation_input \<Rightarrow> (string, owned_resource list) btree \<Rightarrow> i64 \<Rightarrow> string list \<Rightarrow>
   database \<Rightarrow> (deployment_reconciliation list \<times> database) state_result" where
  "reconcile_all env input preserved observed_at [] db = Inr ([], db)"
| "reconcile_all env input preserved observed_at (deployment # rest) db =
     and_then (reconcile_one env input preserved observed_at deployment db) (\<lambda>(report, db').
     and_then (reconcile_all env input preserved observed_at rest db') (\<lambda>(reports, db'').
     Inr (report # reports, db'')))"

definition reconcile ::
  "store_env \<Rightarrow> reconciliation_input \<Rightarrow> i64 \<Rightarrow> deployment_reconciliation list store_op" where
  "reconcile env input observed_at db =
     (let names = reconciled_deployments input db
      in and_then (preserved_unreachable env input db names) (\<lambda>preserved.
         reconcile_all env input preserved observed_at names db))"

end
