(* ===== verification/StateLeases.thy ===== *)
theory StateLeases
  imports StateTables
begin

text \<open>
  The mutation leases of the state store as a state machine: processes acquire, extend and
  release leases through \<open>acquire_lock\<close>, \<open>heartbeat_lock\<close> and \<open>release_lock\<close>, and may crash while
  they hold one. Tokens are unguessable, so a token is never used twice; the clock the
  processes read does not run backwards.
\<close>

section \<open>Leases of one deployment\<close>

lemma bt_get_delete [simp]: "bt_get (bt_delete k m) k' = (if k' = k then None else bt_get m k')"
  by (simp add: bt_delete_def map_of_filter_key [where P = "\<lambda>x. x \<noteq> k"])

lemma bt_inv_delete: "bt_inv m \<Longrightarrow> bt_inv (bt_delete k m)"
  by (simp add: bt_inv_def bt_delete_def sorted_wrt_map sorted_wrt_filter)

definition request_ok :: "lock_request \<Rightarrow> bool" where
  "request_ok r \<longleftrightarrow>
     0 < lr_ttl_millis r \<and> in_i64 (lr_now r + lr_ttl_millis r) \<and>
     \<not> is_blank (lr_deployment r) \<and> \<not> is_blank (lr_owner r) \<and> \<not> is_blank (lr_token r)"

definition granted_row :: "lock_request \<Rightarrow> lock_row" where
  "granted_row r =
     \<lparr>lk_owner = lr_owner r, lk_pid = lr_pid r, lk_started_at = lr_process_started_at r,
      lk_token = lr_token r, lk_heartbeat_at = lr_now r, lk_expires_at = lr_now r + lr_ttl_millis r\<rparr>"

lemma lock_expiry_Inr: "lock_expiry now ttl = Inr e \<longleftrightarrow> in_i64 (now + ttl) \<and> e = now + ttl"
  by (auto simp: lock_expiry_def i64_checked_add_def split: option.splits if_splits)

lemma acquire_lock_Inr:
  "acquire_lock r db = Inr (lock, db') \<longleftrightarrow>
     request_ok r \<and>
     (\<forall>row. bt_get (db_locks db) (lr_deployment r) = Some row \<longrightarrow> lk_expires_at row \<le> lr_now r) \<and>
     lock = \<lparr>ol_deployment = lr_deployment r, ol_owner = lr_owner r, ol_token = lr_token r,
             ol_expires_at = lr_now r + lr_ttl_millis r,
             ol_recovered = (bt_get (db_locks db) (lr_deployment r) \<noteq> None)\<rparr> \<and>
     db' = db\<lparr>db_locks := bt_insert (lr_deployment r) (granted_row r) (db_locks db)\<rparr>"
  unfolding acquire_lock_def request_ok_def granted_row_def Let_def
  by (auto simp: result_simps lock_expiry_Inr split: option.splits if_splits)

lemma heartbeat_lock_Inr:
  "heartbeat_lock lock now ttl db = Inr (lock', db') \<longleftrightarrow>
     0 < ttl \<and> in_i64 (now + ttl) \<and>
     (\<exists>row. bt_get (db_locks db) (ol_deployment lock) = Some row \<and> lk_owner row = ol_owner lock \<and>
        lk_token row = ol_token lock \<and> now < lk_expires_at row \<and>
        db' = db\<lparr>db_locks := bt_insert (ol_deployment lock)
          (row\<lparr>lk_heartbeat_at := now, lk_expires_at := now + ttl\<rparr>) (db_locks db)\<rparr>) \<and>
     lock' = lock\<lparr>ol_expires_at := now + ttl\<rparr>"
  unfolding heartbeat_lock_def
  by (auto simp: result_simps lock_expiry_Inr split: option.splits if_splits)

lemma release_lock_Inr:
  "release_lock lock db = Inr (u, db') \<longleftrightarrow>
     (\<exists>row. bt_get (db_locks db) (ol_deployment lock) = Some row \<and> lk_owner row = ol_owner lock \<and>
        lk_token row = ol_token lock) \<and>
     db' = db\<lparr>db_locks := bt_delete (ol_deployment lock) (db_locks db)\<rparr>"
  unfolding release_lock_def by (auto split: option.splits if_splits)

section \<open>The lease machine\<close>

record lease_state =
  ls_db :: database
  ls_held :: "operation_lock list"
  ls_used :: "string set"
  ls_clock :: i64

definition forget :: "operation_lock \<Rightarrow> operation_lock list \<Rightarrow> operation_lock list" where
  "forget lock held = filter (\<lambda>l. ol_token l \<noteq> ol_token lock) held"

text \<open>\<open>ttl\<close> bounds the lifetimes the processes ask for.\<close>

inductive lease_reachable :: "i64 \<Rightarrow> lease_state \<Rightarrow> bool" for ttl :: i64 where
  initial: "db_locks db = [] \<Longrightarrow>
    lease_reachable ttl \<lparr>ls_db = db, ls_held = [], ls_used = {}, ls_clock = now\<rparr>"
| acquired: "lease_reachable ttl s \<Longrightarrow> ls_clock s \<le> lr_now r \<Longrightarrow> lr_ttl_millis r \<le> ttl \<Longrightarrow>
    lr_token r \<notin> ls_used s \<Longrightarrow> acquire_lock r (ls_db s) = Inr (lock, db') \<Longrightarrow>
    lease_reachable ttl (s\<lparr>ls_db := db', ls_held := lock # ls_held s,
      ls_used := insert (lr_token r) (ls_used s), ls_clock := lr_now r\<rparr>)"
| refused: "lease_reachable ttl s \<Longrightarrow> ls_clock s \<le> lr_now r \<Longrightarrow>
    acquire_lock r (ls_db s) = Inl e \<Longrightarrow>
    lease_reachable ttl (s\<lparr>ls_used := insert (lr_token r) (ls_used s), ls_clock := lr_now r\<rparr>)"
| extended: "lease_reachable ttl s \<Longrightarrow> lock \<in> set (ls_held s) \<Longrightarrow> ls_clock s \<le> now \<Longrightarrow>
    ttl' \<le> ttl \<Longrightarrow> heartbeat_lock lock now ttl' (ls_db s) = Inr (lock', db') \<Longrightarrow>
    lease_reachable ttl (s\<lparr>ls_db := db', ls_held := lock' # forget lock (ls_held s), ls_clock := now\<rparr>)"
| lost: "lease_reachable ttl s \<Longrightarrow> lock \<in> set (ls_held s) \<Longrightarrow> ls_clock s \<le> now \<Longrightarrow>
    heartbeat_lock lock now ttl' (ls_db s) = Inl e \<Longrightarrow>
    lease_reachable ttl (s\<lparr>ls_clock := now\<rparr>)"
| released: "lease_reachable ttl s \<Longrightarrow> lock \<in> set (ls_held s) \<Longrightarrow>
    release_lock lock (ls_db s) = Inr (u, db') \<Longrightarrow>
    lease_reachable ttl (s\<lparr>ls_db := db', ls_held := forget lock (ls_held s)\<rparr>)"
| release_lost: "lease_reachable ttl s \<Longrightarrow> lock \<in> set (ls_held s) \<Longrightarrow>
    release_lock lock (ls_db s) = Inl e \<Longrightarrow>
    lease_reachable ttl (s\<lparr>ls_held := forget lock (ls_held s)\<rparr>)"
| crashed: "lease_reachable ttl s \<Longrightarrow> lock \<in> set (ls_held s) \<Longrightarrow>
    lease_reachable ttl (s\<lparr>ls_held := forget lock (ls_held s)\<rparr>)"
| other_work: "lease_reachable ttl s \<Longrightarrow> db_locks db' = db_locks (ls_db s) \<Longrightarrow> ls_clock s \<le> now \<Longrightarrow>
    lease_reachable ttl (s\<lparr>ls_db := db', ls_clock := now\<rparr>)"

text \<open>A handle agrees with the stored row of its deployment.\<close>

definition backed :: "database \<Rightarrow> operation_lock \<Rightarrow> bool" where
  "backed db l \<longleftrightarrow>
     (\<exists>row. bt_get (db_locks db) (ol_deployment l) = Some row \<and> lk_owner row = ol_owner l \<and>
        lk_token row = ol_token l \<and> lk_expires_at row = ol_expires_at l)"

text \<open>
  The invariant: handles have different tokens, all of them used; a handle is backed by its row
  or has expired; the tokens of the rows are used; a row expires within \<open>ttl\<close> of the clock.
\<close>

definition lease_inv :: "i64 \<Rightarrow> lease_state \<Rightarrow> bool" where
  "lease_inv ttl s \<longleftrightarrow>
     distinct (map ol_token (ls_held s)) \<and>
     (\<forall>l\<in>set (ls_held s). ol_token l \<in> ls_used s \<and> (backed (ls_db s) l \<or> ol_expires_at l \<le> ls_clock s)) \<and>
     (\<forall>d row. bt_get (db_locks (ls_db s)) d = Some row \<longrightarrow>
        lk_token row \<in> ls_used s \<and> lk_expires_at row \<le> ls_clock s + ttl)"

lemma lease_invD:
  assumes "lease_inv ttl s"
  shows "distinct (map ol_token (ls_held s))"
    and "l \<in> set (ls_held s) \<Longrightarrow> ol_token l \<in> ls_used s"
    and "l \<in> set (ls_held s) \<Longrightarrow> ls_clock s < ol_expires_at l \<Longrightarrow> backed (ls_db s) l"
    and "bt_get (db_locks (ls_db s)) d = Some row \<Longrightarrow> lk_token row \<in> ls_used s"
    and "bt_get (db_locks (ls_db s)) d = Some row \<Longrightarrow> lk_expires_at row \<le> ls_clock s + ttl"
  using assms unfolding lease_inv_def by (auto simp: not_le)

lemma lease_invI:
  assumes "distinct (map ol_token (ls_held s))"
    and "\<And>l. l \<in> set (ls_held s) \<Longrightarrow> ol_token l \<in> ls_used s"
    and "\<And>l. l \<in> set (ls_held s) \<Longrightarrow> backed (ls_db s) l \<or> ol_expires_at l \<le> ls_clock s"
    and "\<And>d row. bt_get (db_locks (ls_db s)) d = Some row \<Longrightarrow>
      lk_token row \<in> ls_used s \<and> lk_expires_at row \<le> ls_clock s + ttl"
  shows "lease_inv ttl s"
  using assms unfolding lease_inv_def by blast

lemma in_forget [simp]: "l \<in> set (forget lock held) \<longleftrightarrow> l \<in> set held \<and> ol_token l \<noteq> ol_token lock"
  by (auto simp: forget_def)

lemma distinct_forget: "distinct (map ol_token held) \<Longrightarrow> distinct (map ol_token (forget lock held))"
  by (simp add: forget_def distinct_map_filter)

lemma backed_insert:
  "backed (db\<lparr>db_locks := bt_insert d row (db_locks db)\<rparr>) l \<longleftrightarrow>
     (if ol_deployment l = d
      then lk_owner row = ol_owner l \<and> lk_token row = ol_token l \<and> lk_expires_at row = ol_expires_at l
      else backed db l)"
  by (auto simp: backed_def)

lemma backed_delete:
  "backed (db\<lparr>db_locks := bt_delete d (db_locks db)\<rparr>) l \<longleftrightarrow> ol_deployment l \<noteq> d \<and> backed db l"
  by (auto simp: backed_def)

lemma backed_cong: "db_locks db' = db_locks db \<Longrightarrow> backed db' l = backed db l"
  by (simp add: backed_def)

lemma lease_inv_acquired:
  assumes inv: "lease_inv ttl s" and now: "ls_clock s \<le> lr_now r" and ttl: "lr_ttl_millis r \<le> ttl"
    and fresh: "lr_token r \<notin> ls_used s" and acq: "acquire_lock r (ls_db s) = Inr (lock, db')"
  shows "lease_inv ttl (s\<lparr>ls_db := db', ls_held := lock # ls_held s,
      ls_used := insert (lr_token r) (ls_used s), ls_clock := lr_now r\<rparr>)"
proof -
  note facts = lease_invD [OF inv]
  from acq have db': "db' = (ls_db s)\<lparr>db_locks := bt_insert (lr_deployment r) (granted_row r) (db_locks (ls_db s))\<rparr>"
    and free: "\<And>row. bt_get (db_locks (ls_db s)) (lr_deployment r) = Some row \<Longrightarrow> lk_expires_at row \<le> lr_now r"
    and lock: "ol_deployment lock = lr_deployment r" "ol_owner lock = lr_owner r"
      "ol_token lock = lr_token r" "ol_expires_at lock = lr_now r + lr_ttl_millis r"
    by (auto simp: acquire_lock_Inr)
  have old: "backed db' l \<or> ol_expires_at l \<le> lr_now r" if l: "l \<in> set (ls_held s)" for l
  proof (cases "ls_clock s < ol_expires_at l")
    case True
    with l have "backed (ls_db s) l" by (rule facts(3))
    then show ?thesis using free by (auto simp: db' backed_insert backed_def)
  next
    case False
    with now show ?thesis by simp
  qed
  have "distinct (map ol_token (lock # ls_held s))"
    using facts(1,2) fresh lock by auto
  moreover have "backed db' lock"
    by (simp add: db' backed_insert lock granted_row_def)
  moreover have "lk_token row \<in> insert (lr_token r) (ls_used s) \<and> lk_expires_at row \<le> lr_now r + ttl"
    if "bt_get (db_locks db') d = Some row" for d row
    using that facts(4,5) [of d row] now ttl by (auto simp: db' granted_row_def split: if_splits)
  ultimately show ?thesis
    using facts(2) old lock by (intro lease_invI) auto
qed

lemma lease_inv_extended:
  assumes inv: "lease_inv ttl s" and held: "lock \<in> set (ls_held s)" and now: "ls_clock s \<le> now"
    and ttl: "ttl' \<le> ttl" and beat: "heartbeat_lock lock now ttl' (ls_db s) = Inr (lock', db')"
  shows "lease_inv ttl (s\<lparr>ls_db := db', ls_held := lock' # forget lock (ls_held s), ls_clock := now\<rparr>)"
proof -
  note facts = lease_invD [OF inv]
  from beat obtain row where row: "bt_get (db_locks (ls_db s)) (ol_deployment lock) = Some row"
      "lk_owner row = ol_owner lock" "lk_token row = ol_token lock"
    and db': "db' = (ls_db s)\<lparr>db_locks := bt_insert (ol_deployment lock)
          (row\<lparr>lk_heartbeat_at := now, lk_expires_at := now + ttl'\<rparr>) (db_locks (ls_db s))\<rparr>"
    and lock': "lock' = lock\<lparr>ol_expires_at := now + ttl'\<rparr>"
    by (auto simp: heartbeat_lock_Inr)
  have old: "backed db' l \<or> ol_expires_at l \<le> now"
    if l: "l \<in> set (ls_held s)" and other: "ol_token l \<noteq> ol_token lock" for l
  proof (cases "ls_clock s < ol_expires_at l")
    case True
    with l have "backed (ls_db s) l" by (rule facts(3))
    moreover from this other row have "ol_deployment l \<noteq> ol_deployment lock"
      by (auto simp: backed_def)
    ultimately show ?thesis by (simp add: db' backed_insert)
  next
    case False
    with now show ?thesis by simp
  qed
  have "backed db' lock'"
    by (simp add: db' lock' backed_insert row)
  moreover have "distinct (map ol_token (lock' # forget lock (ls_held s)))"
    using facts(1) by (auto simp: lock' distinct_forget)
  moreover have "lk_token row' \<in> ls_used s \<and> lk_expires_at row' \<le> now + ttl"
    if "bt_get (db_locks db') d = Some row'" for d row'
    using that facts(4,5) [of d row'] facts(2) [OF held] row now ttl by (auto simp: db' split: if_splits)
  ultimately show ?thesis
    using facts(2) old held by (intro lease_invI) (auto simp: lock')
qed

lemma lease_inv_forget:
  "lease_inv ttl s \<Longrightarrow> lease_inv ttl (s\<lparr>ls_held := forget lock (ls_held s)\<rparr>)"
  by (auto simp: lease_inv_def distinct_forget)

lemma lease_inv_released:
  assumes inv: "lease_inv ttl s" and rel: "release_lock lock (ls_db s) = Inr (u, db')"
  shows "lease_inv ttl (s\<lparr>ls_db := db', ls_held := forget lock (ls_held s)\<rparr>)"
proof -
  note facts = lease_invD [OF inv]
  from rel obtain row where row: "bt_get (db_locks (ls_db s)) (ol_deployment lock) = Some row"
      "lk_token row = ol_token lock"
    and db': "db' = (ls_db s)\<lparr>db_locks := bt_delete (ol_deployment lock) (db_locks (ls_db s))\<rparr>"
    by (auto simp: release_lock_Inr)
  have "backed db' l" if "backed (ls_db s) l" "ol_token l \<noteq> ol_token lock" for l
    using that row by (auto simp: db' backed_delete backed_def)
  moreover have "lk_token row' \<in> ls_used s \<and> lk_expires_at row' \<le> ls_clock s + ttl"
    if "bt_get (db_locks db') d = Some row'" for d row'
    using that facts(4,5) [of d row'] by (auto simp: db' split: if_splits)
  ultimately show ?thesis
    using facts(1,2,3) by (intro lease_invI) (auto simp: distinct_forget not_le [symmetric])
qed

lemma lease_inv_clock:
  "lease_inv ttl s \<Longrightarrow> db_locks db' = db_locks (ls_db s) \<Longrightarrow> ls_clock s \<le> now \<Longrightarrow> ls_used s \<subseteq> used \<Longrightarrow>
     lease_inv ttl (s\<lparr>ls_db := db', ls_used := used, ls_clock := now\<rparr>)"
  unfolding lease_inv_def backed_def by (auto; force)

lemma lease_reachable_inv: "lease_reachable ttl s \<Longrightarrow> lease_inv ttl s"
proof (induction rule: lease_reachable.induct)
  case (initial db now)
  then show ?case by (simp add: lease_inv_def)
next
  case (acquired s r lock db')
  then show ?case by (intro lease_inv_acquired)
next
  case (refused s r e)
  then show ?case
    using lease_inv_clock [of ttl s "ls_db s" "lr_now r" "insert (lr_token r) (ls_used s)"] by auto
next
  case (extended s lock now ttl' lock' db')
  then show ?case by (intro lease_inv_extended)
next
  case (lost s lock now ttl' e)
  then show ?case using lease_inv_clock [of ttl s "ls_db s" now "ls_used s"] by simp
next
  case (released s lock u db')
  then show ?case by (intro lease_inv_released)
next
  case (other_work s db' now)
  then show ?case using lease_inv_clock [of ttl s db' now "ls_used s"] by simp
qed (simp_all add: lease_inv_forget)

lemma live_backed:
  "lease_reachable ttl s \<Longrightarrow> l \<in> set (ls_held s) \<Longrightarrow> ls_clock s \<le> now \<Longrightarrow> now < ol_expires_at l \<Longrightarrow>
     backed (ls_db s) l"
  using lease_invD(3) [OF lease_reachable_inv] by fastforce

lemma backed_same:
  "backed db l \<Longrightarrow> backed db l' \<Longrightarrow> ol_deployment l' = ol_deployment l \<Longrightarrow> ol_token l' = ol_token l"
  by (auto simp: backed_def)

lemma acquire_contended:
  assumes "bt_get (db_locks db) (lr_deployment r) = Some row" and "lr_now r < lk_expires_at row"
  shows "\<exists>e. acquire_lock r db = Inl e \<and>
    (request_ok r \<longrightarrow> e = LockContended (lr_deployment r) (lk_owner row) (lk_expires_at row))"
proof (cases "acquire_lock r db")
  case (Inl e)
  have "request_ok r \<Longrightarrow> acquire_lock r db = Inl (LockContended (lr_deployment r) (lk_owner row) (lk_expires_at row))"
    using assms by (simp add: acquire_lock_def request_ok_def reject_if_def lock_expiry_def i64_checked_add_def Let_def
      validate_id_def)
  with Inl show ?thesis by auto
next
  case (Inr p)
  with assms show ?thesis by (cases p) (auto simp: acquire_lock_Inr)
qed

section \<open>Samples\<close>

definition sample_lock_request :: lock_request where
  "sample_lock_request =
     \<lparr>lr_deployment = ''demo'', lr_owner = ''daemon-1'', lr_pid = 7, lr_process_started_at = 5,
      lr_token = ''t1'', lr_now = 100, lr_ttl_millis = 15000\<rparr>"

definition sample_lock :: operation_lock where
  "sample_lock = \<lparr>ol_deployment = ''demo'', ol_owner = ''daemon-1'', ol_token = ''t1'',
     ol_expires_at = 15100, ol_recovered = False\<rparr>"

definition sample_lease_state :: lease_state where
  "sample_lease_state =
     \<lparr>ls_db = empty_database\<lparr>db_locks := [(''demo'', granted_row sample_lock_request)]\<rparr>,
      ls_held = [sample_lock], ls_used = {''t1''}, ls_clock = 100\<rparr>"

lemma sample_request_ok: "request_ok sample_lock_request"
  by code_simp

lemma sample_acquired:
  "acquire_lock sample_lock_request empty_database = Inr (sample_lock, ls_db sample_lease_state)"
  using sample_request_ok
  by (simp add: acquire_lock_Inr sample_lease_state_def empty_database_def sample_lock_request_def
    sample_lock_def bt_insert_def)

lemma sample_lease_reachable: "lease_reachable 15000 sample_lease_state"
proof -
  have "lease_reachable 15000 \<lparr>ls_db = empty_database, ls_held = [], ls_used = {}, ls_clock = 100\<rparr>"
    by (rule lease_reachable.initial) (simp add: empty_database_def)
  from lease_reachable.acquired [OF this, of sample_lock_request sample_lock "ls_db sample_lease_state"]
  show ?thesis
    using sample_acquired by (simp add: sample_lock_request_def sample_lease_state_def)
qed

section \<open>Properties\<close>

text \<open>
  C26. Mutation leases are exclusive: whatever the processes did, while a lease has not
  expired no other held lease of its deployment is alive, every attempt to acquire the deployment
  is refused (a well-formed one as contended, naming the owner and the expiry), and its holder can
  extend it and release it.
\<close>

theorem lease_exclusive:
  assumes "lease_reachable ttl s" and "l \<in> set (ls_held s)"
    and "ls_clock s \<le> now" and "now < ol_expires_at l"
  shows "(\<forall>l'\<in>set (ls_held s). ol_deployment l' = ol_deployment l \<longrightarrow> now < ol_expires_at l' \<longrightarrow> l' = l) \<and>
    (\<forall>r. lr_deployment r = ol_deployment l \<longrightarrow> lr_now r = now \<longrightarrow>
       (\<exists>e. acquire_lock r (ls_db s) = Inl e \<and>
          (request_ok r \<longrightarrow> e = LockContended (ol_deployment l) (ol_owner l) (ol_expires_at l)))) \<and>
    (\<forall>t. 0 < t \<longrightarrow> in_i64 (now + t) \<longrightarrow>
       (\<exists>db'. heartbeat_lock l now t (ls_db s) = Inr (l\<lparr>ol_expires_at := now + t\<rparr>, db'))) \<and>
    (\<exists>db'. release_lock l (ls_db s) = Inr ((), db'))"
proof -
  have inj: "inj_on ol_token (set (ls_held s))"
    using lease_invD(1) [OF lease_reachable_inv [OF assms(1)]] by (simp add: distinct_map)
  have b: "backed (ls_db s) l" using assms by (rule live_backed)
  then obtain row where row: "bt_get (db_locks (ls_db s)) (ol_deployment l) = Some row"
      "lk_owner row = ol_owner l" "lk_token row = ol_token l" "lk_expires_at row = ol_expires_at l"
    by (auto simp: backed_def)
  have "l' = l" if "l' \<in> set (ls_held s)" "ol_deployment l' = ol_deployment l" "now < ol_expires_at l'" for l'
    using that assms inj backed_same [OF b live_backed [OF assms(1) that(1) assms(3) that(3)] that(2)]
    by (auto dest: inj_onD)
  moreover have "\<exists>e. acquire_lock r (ls_db s) = Inl e \<and>
      (request_ok r \<longrightarrow> e = LockContended (ol_deployment l) (ol_owner l) (ol_expires_at l))"
    if "lr_deployment r = ol_deployment l" "lr_now r = now" for r
    using acquire_contended [of "ls_db s" r row] row that assms(4) by simp
  moreover have "\<exists>db'. heartbeat_lock l now t (ls_db s) = Inr (l\<lparr>ol_expires_at := now + t\<rparr>, db')"
    if "0 < t" "in_i64 (now + t)" for t
    using that row assms(4) by (auto simp: heartbeat_lock_Inr)
  moreover have "\<exists>db'. release_lock l (ls_db s) = Inr ((), db')"
    using row by (auto simp: release_lock_Inr)
  ultimately show ?thesis by blast
qed

theorem lease_exclusive_witness:
  "\<exists>db'. release_lock sample_lock (ls_db sample_lease_state) = Inr ((), db')"
  using lease_exclusive [OF sample_lease_reachable, of sample_lock 200]
  by (simp add: sample_lease_state_def sample_lock_def)

text \<open>
  C27. A crashed holder cannot block a deployment for ever: once the longest lifetime ever asked
  for has passed since the last lease activity, every well-formed request is granted, whatever the
  processes did and whoever still believes to hold a lease.
\<close>

theorem lease_recoverable:
  assumes "lease_reachable ttl s" and "request_ok r" and "ls_clock s + ttl \<le> lr_now r"
  shows "\<exists>lock db'. acquire_lock r (ls_db s) = Inr (lock, db') \<and> backed db' lock \<and>
    ol_deployment lock = lr_deployment r \<and> ol_owner lock = lr_owner r \<and> ol_token lock = lr_token r \<and>
    ol_expires_at lock = lr_now r + lr_ttl_millis r \<and>
    (ol_recovered lock \<longleftrightarrow> bt_get (db_locks (ls_db s)) (lr_deployment r) \<noteq> None)"
proof -
  have "lk_expires_at row \<le> lr_now r" if "bt_get (db_locks (ls_db s)) (lr_deployment r) = Some row" for row
    using lease_invD(5) [OF lease_reachable_inv [OF assms(1)] that] assms(3) by simp
  with assms(2) show ?thesis
    by (auto simp: acquire_lock_Inr backed_insert granted_row_def)
qed

theorem lease_recoverable_witness:
  "\<exists>lock db'. acquire_lock (sample_lock_request\<lparr>lr_now := 20000, lr_token := ''t2''\<rparr>)
     (ls_db sample_lease_state) = Inr (lock, db') \<and> ol_recovered lock"
proof -
  have "request_ok (sample_lock_request\<lparr>lr_now := 20000, lr_token := ''t2''\<rparr>)" by code_simp
  from lease_recoverable [OF sample_lease_reachable this]
  show ?thesis
    by (auto simp: sample_lease_state_def sample_lock_request_def)
qed

end
