(* ===== verification/StateStore.thy ===== *)
theory StateStore
  imports StateReconcile StateLeases "HOL-Library.Countable"
begin

text \<open>
  The state store as a server of commands: one command per operation of \<open>StateStore\<close> that
  changes the database. The invariant collects the constraints of the schema, the validation of
  the operations, and that no literal secret is persisted.
\<close>

section \<open>Commands\<close>

datatype store_command =
    RegisterSource registered_source
  | DeregisterSource string
  | RecordProfile imported_profile
  | RemoveProfile string
  | RegisterDevice registered_device
  | DeregisterDevice string
  | RecordDeviceCheck string i64 device_check_status "string option"
  | RecordApplied string string applied_snapshot i64
  | StartOperation operation_record
  | UpdateOperation string operation_status "i64 option" "operation_error option"
  | RecoverAbandoned i64
  | RecordHealth string string string string i64 structured_context
  | RecordRoute route_record
  | RecordRouteSnapshot route_snapshot_record
  | RecordRouterApply router_apply_record
  | AcquireLock lock_request
  | HeartbeatLock operation_lock i64 i64
  | ReleaseLock operation_lock
  | Reconcile reconciliation_input i64

definition store_outcome :: "('a \<times> database) state_result \<Rightarrow> database state_result" where
  "store_outcome r = (case r of Inl e \<Rightarrow> Inl e | Inr (a, db) \<Rightarrow> Inr db)"

fun store_exec :: "store_env \<Rightarrow> store_command \<Rightarrow> database \<Rightarrow> database state_result" where
  "store_exec env (RegisterSource s) db = store_outcome (register_source env s db)"
| "store_exec env (DeregisterSource n) db = store_outcome (deregister_source n db)"
| "store_exec env (RecordProfile p) db = store_outcome (record_imported_profile env p db)"
| "store_exec env (RemoveProfile n) db = store_outcome (remove_imported_profile n db)"
| "store_exec env (RegisterDevice d) db = store_outcome (register_device env d db)"
| "store_exec env (DeregisterDevice n) db = store_outcome (deregister_device n db)"
| "store_exec env (RecordDeviceCheck n at s detail) db = store_outcome (record_device_check n at s detail db)"
| "store_exec env (RecordApplied d h s at) db = store_outcome (record_applied_snapshot env d h s at db)"
| "store_exec env (StartOperation r) db = store_outcome (start_operation env r db)"
| "store_exec env (UpdateOperation i s at e) db = store_outcome (update_operation env i s at e db)"
| "store_exec env (RecoverAbandoned at) db = store_outcome (recover_abandoned_operations at db)"
| "store_exec env (RecordHealth d s h r at c) db = store_outcome (record_health env d s h r at c db)"
| "store_exec env (RecordRoute r) db = store_outcome (record_route r db)"
| "store_exec env (RecordRouteSnapshot r) db = store_outcome (record_route_snapshot env r db)"
| "store_exec env (RecordRouterApply r) db = store_outcome (record_router_apply env r db)"
| "store_exec env (AcquireLock r) db = store_outcome (acquire_lock r db)"
| "store_exec env (HeartbeatLock l now ttl) db = store_outcome (heartbeat_lock l now ttl db)"
| "store_exec env (ReleaseLock l) db = store_outcome (release_lock l db)"
| "store_exec env (Reconcile input at) db = store_outcome (reconcile env input at db)"

definition store_step :: "store_env \<Rightarrow> store_command \<Rightarrow> database \<Rightarrow> (state_error option \<times> database) option" where
  "store_step env c db =
     Some (case store_exec env c db of Inl e \<Rightarrow> (Some e, db) | Inr db' \<Rightarrow> (None, db'))"

lemma store_outcome_Inr: "store_outcome r = Inr db' \<longleftrightarrow> (\<exists>a. r = Inr (a, db'))"
  by (auto simp: store_outcome_def split: sum.splits prod.splits)

section \<open>The invariant\<close>

definition table_all :: "('k::linorder \<Rightarrow> 'v \<Rightarrow> bool) \<Rightarrow> ('k, 'v) btree \<Rightarrow> bool" where
  "table_all P m \<longleftrightarrow> bt_inv m \<and> (\<forall>k v. bt_get m k = Some v \<longrightarrow> P k v)"

lemma table_all_empty [simp]: "table_all P []"
  by (simp add: table_all_def bt_inv_def)

lemma table_all_insert [intro]: "table_all P m \<Longrightarrow> P k v \<Longrightarrow> table_all P (bt_insert k v m)"
  by (auto simp: table_all_def bt_inv_insert)

lemma table_all_delete [intro]: "table_all P m \<Longrightarrow> table_all P (bt_delete k m)"
  by (auto simp: table_all_def bt_inv_delete)

lemma map_of_map_snd: "map_of (map (\<lambda>(k, v). (k, f v)) m) k = map_option f (map_of m k)"
  by (induction m) auto

lemma table_all_map:
  assumes "table_all P m" and "\<And>k v. P k v \<Longrightarrow> P k (f v)"
  shows "table_all P (map (\<lambda>(k, v). (k, f v)) m)"
proof -
  have keys: "map fst (map (\<lambda>(k, v). (k, f v)) m) = map fst m" by (induction m) auto
  have "bt_inv m" using assms(1) by (simp add: table_all_def)
  then have "bt_inv (map (\<lambda>(k, v). (k, f v)) m)" by (simp only: bt_inv_def keys)
  with assms show ?thesis by (auto simp: table_all_def map_of_map_snd)
qed

lemma table_allD: "table_all P m \<Longrightarrow> bt_get m k = Some v \<Longrightarrow> P k v"
  by (simp add: table_all_def)

text \<open>What a JSON column may hold: valid text of a value without literal secrets.\<close>

definition safe_text :: "store_env \<Rightarrow> string \<Rightarrow> bool" where
  "safe_text env t \<longleftrightarrow> se_json_valid env t \<and> (\<exists>j. secret_free j \<and> t = se_to_string env j)"

definition safe_column :: "store_env \<Rightarrow> string option \<Rightarrow> bool" where
  "safe_column env t \<longleftrightarrow> (\<forall>t'. t = Some t' \<longrightarrow> safe_text env t')"

lemma safe_column_None [simp]: "safe_column env None"
  by (simp add: safe_column_def)

text \<open>
  The result of each validator, as a condition on the row it admitted: identifiers are not blank
  (\<open>validate_id\<close>), a source has a path and a device's identity file, when given, is not the empty
  path. A path is stored as its lossy text.
\<close>

definition stored_path :: "store_env \<Rightarrow> string \<Rightarrow> bool" where
  "stored_path env t \<longleftrightarrow> (\<exists>p. p \<noteq> [] \<and> t = se_lossy env p)"

definition source_ok :: "store_env \<Rightarrow> string \<Rightarrow> source_row \<Rightarrow> bool" where
  "source_ok env k r \<longleftrightarrow> sr_name r = k \<and> \<not> is_blank k \<and> stored_path env (sr_path r) \<and>
     (\<exists>kind. sr_kind r = source_kind_str kind \<and> (kind = Managed \<longleftrightarrow> sr_managed_relative_path r \<noteq> None))"

definition unique_paths :: "(string, source_row) btree \<Rightarrow> bool" where
  "unique_paths m \<longleftrightarrow> (\<forall>k k' r r'. bt_get m k = Some r \<longrightarrow> bt_get m k' = Some r' \<longrightarrow>
     sr_path r = sr_path r' \<longrightarrow> k = k')"

definition ssh_argument_safe :: "string \<Rightarrow> bool" where
  "ssh_argument_safe s \<longleftrightarrow> \<not> is_blank s \<and> \<not> contains_whitespace s \<and> \<not> starts_with s ''-''"

definition device_ok :: "store_env \<Rightarrow> string \<Rightarrow> device_row \<Rightarrow> bool" where
  "device_ok env k r \<longleftrightarrow> dr_name r = k \<and> \<not> is_blank k \<and> ssh_argument_safe (dr_host r) \<and> ssh_argument_safe (dr_user r) \<and>
     CHR ''@'' \<notin> set (dr_user r) \<and> 1 \<le> dr_port r \<and> dr_port r \<le> 65535 \<and>
     pred_option (stored_path env) (dr_identity_file r) \<and>
     (\<exists>s. dr_last_check_status r = device_status_str s)"

definition profile_ok :: "store_env \<Rightarrow> string \<Rightarrow> imported_profile \<Rightarrow> bool" where
  "profile_ok env k p \<longleftrightarrow> ip_name p = k \<and> \<not> is_blank k \<and> \<not> is_blank (ip_source_name p) \<and>
     \<not> is_blank (ip_content_hash p) \<and> \<not> isl (se_from_str env (ip_definition_json p))"

definition deployment_ok :: "store_env \<Rightarrow> string \<Rightarrow> deployment_row \<Rightarrow> bool" where
  "deployment_ok env k r \<longleftrightarrow> sqlite_nonempty k \<and>
     (\<forall>h. dep_definition_hash r = Some h \<longrightarrow> \<not> is_blank k \<and> \<not> is_blank h) \<and>
     (dep_definition_hash r = None \<longleftrightarrow> dep_snapshot_json r = None) \<and>
     (dep_definition_hash r = None \<longleftrightarrow> dep_applied_at r = None) \<and> safe_column env (dep_snapshot_json r)"

definition operation_ok :: "store_env \<Rightarrow> string \<Rightarrow> stored_operation \<Rightarrow> bool" where
  "operation_ok env k r \<longleftrightarrow> so_id r = k \<and> \<not> is_blank k \<and> \<not> is_blank (so_deployment r) \<and>
     pred_option (\<lambda>i. \<not> is_blank i) (so_instance r) \<and>
     (\<exists>kind. so_kind r = operation_kind_str kind) \<and> (\<exists>s. so_status r = operation_status_str s) \<and>
     safe_column env (so_error_context_json r)"

definition resource_ok :: "store_env \<Rightarrow> (string, deployment_row) btree \<Rightarrow> resource_row \<Rightarrow> bool" where
  "resource_ok env deps r \<longleftrightarrow> bt_get deps (rr_deployment r) \<noteq> None \<and>
     (\<exists>k. rr_kind r = resource_kind_str k) \<and> se_json_valid env (rr_labels_json r) \<and>
     (\<exists>ls. bt_inv ls \<and>
        rr_labels_json r = se_labels_to_string env (filter (\<lambda>(key, _). ownership_label key) ls))"

definition snapshot_ok :: "store_env \<Rightarrow> stored_route_snapshot \<Rightarrow> bool" where
  "snapshot_ok env s \<longleftrightarrow> (\<exists>st. ss_activation_status s = snapshot_status_str st) \<and>
     safe_text env (ss_context_json s)"

definition binding_row_ok :: "store_env \<Rightarrow> string \<times> string \<times> string \<Rightarrow> binding_row \<Rightarrow> bool" where
  "binding_row_ok env k b \<longleftrightarrow>
     \<not> is_blank (fst k) \<and> \<not> is_blank (fst (snd k)) \<and> \<not> is_blank (snd (snd k)) \<and>
     (\<exists>s. br_status b = router_apply_status_str s) \<and>
     (br_status b = router_apply_status_str RaActive \<longrightarrow>
        (\<exists>c. br_current_checksum b = Some c \<and> \<not> is_blank c)) \<and>
     safe_text env (br_transition_json b)"

definition lock_ok :: "string \<Rightarrow> lock_row \<Rightarrow> bool" where
  "lock_ok d l \<longleftrightarrow> \<not> is_blank d \<and> \<not> is_blank (lk_owner l) \<and> \<not> is_blank (lk_token l) \<and>
     lk_heartbeat_at l < lk_expires_at l"

definition store_inv :: "store_env \<Rightarrow> database \<Rightarrow> bool" where
  "store_inv env db \<longleftrightarrow>
     table_all (source_ok env) (db_sources db) \<and> unique_paths (db_sources db) \<and>
     table_all (profile_ok env) (db_profiles db) \<and>
     table_all (device_ok env) (db_devices db) \<and>
     table_all (deployment_ok env) (db_deployments db) \<and>
     (\<forall>h\<in>set (db_history db). bt_get (db_deployments db) (hr_deployment h) \<noteq> None \<and>
        safe_column env (hr_context_json h)) \<and>
     table_all (operation_ok env) (db_operations db) \<and>
     (\<forall>r\<in>set (db_resources db). resource_ok env (db_deployments db) r) \<and>
     (\<forall>h\<in>set (db_health db). safe_text env (ho_context_json h)) \<and>
     distinct (map snapshot_key (db_snapshots db)) \<and>
     (\<forall>s\<in>set (db_snapshots db). snapshot_ok env s) \<and>
     table_all (binding_row_ok env) (db_bindings db) \<and>
     table_all lock_ok (db_locks db)"

text \<open>
  The JSON arguments of a command are values of the newtypes, so they come from the checking
  constructors; the labels of an observation are a \<open>BTreeMap\<close>.
\<close>

definition built_context :: "store_env \<Rightarrow> structured_context \<Rightarrow> bool" where
  "built_context env c \<longleftrightarrow> (\<exists>j. structured_context_new env j = Inr c)"

fun built_arguments :: "store_env \<Rightarrow> store_command \<Rightarrow> bool" where
  "built_arguments env (RecordApplied d h s at) \<longleftrightarrow> (\<exists>j. snapshot_from_json env j = Inr s)"
| "built_arguments env (StartOperation r) \<longleftrightarrow> pred_option (built_context env \<circ> oe_context) (op_error r)"
| "built_arguments env (UpdateOperation i s at e) \<longleftrightarrow> pred_option (built_context env \<circ> oe_context) e"
| "built_arguments env (RecordHealth d s h r at c) \<longleftrightarrow> built_context env c"
| "built_arguments env (RecordRouteSnapshot r) \<longleftrightarrow> built_context env (rs_context r)"
| "built_arguments env (RecordRouterApply r) \<longleftrightarrow>
     built_context env (ra_transition r) \<and> built_context env (ra_context r)"
| "built_arguments env (Reconcile input at) \<longleftrightarrow> (\<forall>r\<in>set (ri_resources input). bt_inv (or_labels r))"
| "built_arguments env _ \<longleftrightarrow> True"

text \<open>
  \<open>serde_json\<close> prints the empty object as \<open>{}\<close>, which SQLite accepts as JSON, reads a text of
  labels into a \<open>BTreeMap\<close>, and reads back the labels it wrote.
\<close>

definition json_text_laws :: "store_env \<Rightarrow> bool" where
  "json_text_laws env \<longleftrightarrow> se_to_string env (JObj []) = ''{}'' \<and> se_json_valid env ''{}'' \<and>
     (\<forall>t ls. se_labels_from_str env t = Inr ls \<longrightarrow> bt_inv ls) \<and>
     (\<forall>ls. bt_inv ls \<longrightarrow> se_labels_from_str env (se_labels_to_string env ls) = Inr ls)"

lemma built_context_safe:
  "built_context env c \<Longrightarrow> se_json_valid env (context_text c) \<Longrightarrow> safe_text env (context_text c)"
  by (auto simp: built_context_def safe_text_def structured_context_new_iff)

lemma built_error_safe:
  "pred_option (built_context env \<circ> oe_context) e \<Longrightarrow> error_json_ok env e \<Longrightarrow>
     safe_column env (snd (error_columns e))"
  by (cases e) (auto simp: error_json_ok_def error_columns_def safe_column_def intro: built_context_safe)

lemma built_snapshot_safe:
  "snapshot_from_json env j = Inr s \<Longrightarrow> se_json_valid env (snapshot_text s) \<Longrightarrow>
     safe_column env (Some (snapshot_text s))"
  by (auto simp: safe_column_def safe_text_def snapshot_from_json_iff)

lemma json_text_laws_safe: "json_text_laws env \<Longrightarrow> safe_text env ''{}''"
  unfolding safe_text_def json_text_laws_def
  by (auto intro!: exI [of _ "JObj []"] simp: secret_free_def guarded_simps)

section \<open>Every command keeps the invariant\<close>

lemma store_inv_update:
  assumes "store_inv env db"
  shows "table_all (source_ok env) srcs \<Longrightarrow> unique_paths srcs \<Longrightarrow> store_inv env (db\<lparr>db_sources := srcs\<rparr>)"
    and "table_all (profile_ok env) ps \<Longrightarrow> store_inv env (db\<lparr>db_profiles := ps\<rparr>)"
    and "table_all (device_ok env) ds \<Longrightarrow> store_inv env (db\<lparr>db_devices := ds\<rparr>)"
    and "table_all (operation_ok env) os \<Longrightarrow> store_inv env (db\<lparr>db_operations := os\<rparr>)"
    and "table_all (binding_row_ok env) bs \<Longrightarrow> store_inv env (db\<lparr>db_bindings := bs\<rparr>)"
    and "table_all lock_ok ls \<Longrightarrow> store_inv env (db\<lparr>db_locks := ls\<rparr>)"
    and "store_inv env (db\<lparr>db_routes := rs\<rparr>)"
  using assms by (simp_all add: store_inv_def)

lemma store_inv_tables:
  assumes "store_inv env db"
  shows "table_all (source_ok env) (db_sources db)" "unique_paths (db_sources db)"
    "table_all (profile_ok env) (db_profiles db)" "table_all (device_ok env) (db_devices db)"
    "table_all (deployment_ok env) (db_deployments db)" "table_all (operation_ok env) (db_operations db)"
    "table_all (binding_row_ok env) (db_bindings db)" "table_all lock_ok (db_locks db)"
  using assms by (simp_all add: store_inv_def)

lemma store_inv_deployments:
  assumes "store_inv env db" and "deployment_ok env d row"
  shows "store_inv env (db\<lparr>db_deployments := bt_insert d row (db_deployments db)\<rparr>)"
  using assms unfolding store_inv_def resource_ok_def by (auto intro: table_all_insert)

lemma deployment_event_inv:
  "store_inv env db \<Longrightarrow> deployment_event env d ev h at db = Inr db' \<Longrightarrow> store_inv env db'"
  by (auto simp: deployment_event_def store_inv_def split: if_splits)

lemma insert_snapshot_Inr:
  "insert_snapshot env s db = Inr db' \<longleftrightarrow>
     snapshot_key s \<notin> snapshot_key ` set (db_snapshots db) \<and> se_json_valid env (ss_context_json s) \<and>
     db' = db\<lparr>db_snapshots := db_snapshots db @ [s]\<rparr>"
  by (auto simp: insert_snapshot_def)

lemma insert_snapshot_inv:
  "store_inv env db \<Longrightarrow> insert_snapshot env s db = Inr db' \<Longrightarrow> snapshot_ok env s \<Longrightarrow> store_inv env db'"
  by (auto simp: insert_snapshot_Inr store_inv_def)

lemma unique_paths_insert:
  assumes "unique_paths m" and "\<And>k r. bt_get m k = Some r \<Longrightarrow> sr_path r \<noteq> sr_path row"
  shows "unique_paths (bt_insert k row m)"
  using assms unfolding unique_paths_def by (metis bt_get_insert option.inject)

lemma register_source_inv:
  assumes inv: "store_inv env db" and reg: "register_source env s db = Inr (u, db')"
  shows "store_inv env db'"
proof -
  let ?row = "source_to_row env s"
  from reg have fresh: "bt_get (db_sources db) (sr_name ?row) = None"
    and path: "sr_path ?row \<notin> sr_path ` snd ` set (db_sources db)"
    and named: "\<not> is_blank (src_name s)" "src_path s \<noteq> []"
    and kind: "src_kind s = Managed \<longleftrightarrow> src_managed_relative_path s \<noteq> None"
    and db': "db' = db\<lparr>db_sources := bt_insert (sr_name ?row) ?row (db_sources db)\<rparr>"
    by (auto simp: register_source_def result_simps Let_def split: if_splits)
      (cases "src_kind s"; simp)+
  have "source_ok env (sr_name ?row) ?row"
    using kind named by (auto simp: source_ok_def source_to_row_def stored_path_def)
  moreover have "sr_path r \<noteq> sr_path ?row" if "bt_get (db_sources db) k = Some r" for k r
  proof -
    have "r \<in> snd ` set (db_sources db)" using map_of_SomeD [OF that] by force
    then have "sr_path r \<in> sr_path ` snd ` set (db_sources db)" by (rule imageI)
    with path show ?thesis by metis
  qed
  ultimately show ?thesis
    unfolding db' using store_inv_tables(1,2) [OF inv]
    by (intro store_inv_update(1) [OF inv] table_all_insert unique_paths_insert) auto
qed

lemma register_device_inv:
  assumes inv: "store_inv env db" and reg: "register_device env d db = Inr (u, db')"
  shows "store_inv env db'"
proof -
  from reg have ok: "validate_device d = Inr ()"
    and db': "db' = db\<lparr>db_devices := bt_insert (dev_name d) (device_to_row env d) (db_devices db)\<rparr>"
    by (auto simp: register_device_def result_simps split: if_splits)
  have "uint (dev_port d) \<le> 65535" using uint_lt2p [of "dev_port d"] by simp
  moreover have "1 \<le> uint (dev_port d)" if "dev_port d \<noteq> 0"
    using that uint_ge_0 [of "dev_port d"] by (metis int_one_le_iff_zero_less order_le_less uint_0_iff)
  ultimately have "device_ok env (dev_name d) (device_to_row env d)"
    using ok by (auto simp: validate_device_def result_simps device_ok_def device_to_row_def ssh_argument_safe_def
      stored_path_def option.pred_map pred_option_def)
  then show ?thesis
    unfolding db' using store_inv_tables(4) [OF inv] by (intro store_inv_update(3) [OF inv] table_all_insert)
qed

lemma record_device_check_inv:
  assumes inv: "store_inv env db" and rec: "record_device_check n at st detail db = Inr (u, db')"
  shows "store_inv env db'"
proof -
  from rec obtain row where row: "bt_get (db_devices db) n = Some row"
    and db': "db' = db\<lparr>db_devices := bt_insert n
      (row\<lparr>dr_last_checked_at := Some at, dr_last_check_status := device_status_str st,
           dr_last_check_detail := detail\<rparr>) (db_devices db)\<rparr>"
    by (auto simp: record_device_check_def result_simps Let_def split: option.splits)
  have "device_ok env n row" using store_inv_tables(4) [OF inv] row by (rule table_allD)
  then show ?thesis
    unfolding db' using store_inv_tables(4) [OF inv]
    by (intro store_inv_update(3) [OF inv] table_all_insert) (auto simp: device_ok_def)
qed

lemma record_applied_snapshot_inv:
  assumes inv: "store_inv env db" and rec: "record_applied_snapshot env d h s at db = Inr (u, db')"
    and built: "snapshot_from_json env j = Inr s"
  shows "store_inv env db'"
proof -
  let ?row = "\<lparr>dep_definition_hash = Some h, dep_snapshot_json = Some (snapshot_text s),
      dep_applied_at = Some at,
      dep_last_observed_at = (case bt_get (db_deployments db) d of None \<Rightarrow> None
        | Some old \<Rightarrow> dep_last_observed_at old)\<rparr>"
  from rec have ok: "sqlite_nonempty d" "\<not> is_blank d" "\<not> is_blank h" "se_json_valid env (snapshot_text s)"
    and ev: "deployment_event env d ''applied'' (Some h) at
      (db\<lparr>db_deployments := bt_insert d ?row (db_deployments db)\<rparr>) = Inr db'"
    by (auto simp: record_applied_snapshot_def result_simps Let_def split: if_splits)
  have "deployment_ok env d ?row"
    using ok built_snapshot_safe [OF built] by (simp add: deployment_ok_def)
  from deployment_event_inv [OF store_inv_deployments [OF inv this] ev] show ?thesis .
qed

lemma start_operation_inv:
  assumes inv: "store_inv env db" and start: "start_operation env r db = Inr (u, db')"
    and built: "pred_option (built_context env \<circ> oe_context) (op_error r)"
  shows "store_inv env db'"
proof -
  from start have "error_json_ok env (op_error r)" "\<not> is_blank (op_id r)" "\<not> is_blank (op_deployment r)"
    and "pred_option (\<lambda>i. \<not> is_blank i) (op_instance r)"
    and "\<exists>row. db' = db\<lparr>db_operations := bt_insert (op_id r) row (db_operations db)\<rparr> \<and>
      so_id row = op_id r \<and> so_deployment row = op_deployment r \<and> so_instance row = op_instance r \<and>
      so_kind row = operation_kind_str (op_kind r) \<and> so_status row = operation_status_str (op_status r) \<and>
      so_error_context_json row = snd (error_columns (op_error r))"
    by (auto simp: start_operation_def result_simps split: if_splits option.splits)
  then show ?thesis
    using built_error_safe [OF built] store_inv_tables(6) [OF inv]
    by (auto intro!: store_inv_update(4) [OF inv] table_all_insert simp: operation_ok_def)
qed

lemma update_operation_inv:
  assumes inv: "store_inv env db" and upd: "update_operation env i st at e db = Inr (u, db')"
    and built: "pred_option (built_context env \<circ> oe_context) e"
  shows "store_inv env db'"
proof -
  from upd obtain row where row: "bt_get (db_operations db) i = Some row" and ok: "error_json_ok env e"
    and db': "db' = db\<lparr>db_operations := bt_insert i
        (row\<lparr>so_status := operation_status_str st, so_finished_at := at,
             so_error_code := fst (error_columns e), so_error_context_json := snd (error_columns e)\<rparr>)
        (db_operations db)\<rparr>"
    by (auto simp: update_operation_def split: option.splits if_splits)
  have "operation_ok env i row" using store_inv_tables(6) [OF inv] row by (rule table_allD)
  then show ?thesis
    unfolding db' using built_error_safe [OF built ok] store_inv_tables(6) [OF inv]
    by (intro store_inv_update(4) [OF inv] table_all_insert) (auto simp: operation_ok_def)
qed

lemma recover_inv:
  assumes inv: "store_inv env db" and rec: "recover_abandoned_operations at db = Inr (n, db')"
    and empty: "safe_text env ''{}''"
  shows "store_inv env db'"
proof -
  let ?f = "\<lambda>o'. if abandoned o'
      then o'\<lparr>so_status := ''failed'', so_finished_at := Some at,
              so_error_code := Some ''daemon_restarted'', so_error_context_json := Some ''{}''\<rparr>
      else o'"
  have db': "db' = db\<lparr>db_operations := map (\<lambda>(k, o'). (k, ?f o')) (db_operations db)\<rparr>"
    using rec by (auto simp: recover_abandoned_operations_def)
  have "operation_ok env k (?f o')" if "operation_ok env k o'" for k o'
    using that empty operation_status_str.simps(4)
    by (auto simp: operation_ok_def safe_column_def intro: exI [of _ OpFailed])
  then show ?thesis
    unfolding db' using store_inv_tables(6) [OF inv] by (intro store_inv_update(4) [OF inv] table_all_map)
qed

lemma record_router_apply_Inr:
  "record_router_apply env r db = Inr (u, db') \<longleftrightarrow>
     \<not> is_blank (ra_deployment r) \<and> \<not> is_blank (ra_router r) \<and> \<not> is_blank (ra_binding r) \<and>
     \<not> is_blank (ra_checksum r) \<and> se_json_valid env (context_text (ra_transition r)) \<and>
     insert_snapshot env
        \<lparr>ss_deployment = ra_deployment r, ss_router = Some (ra_router r),
         ss_binding = Some (ra_binding r), ss_operation_id = Some (ra_operation_id r),
         ss_version = ra_version r, ss_checksum = ra_checksum r,
         ss_activation_status = history_status (ra_status r), ss_recorded_at = ra_recorded_at r,
         ss_context_json = context_text (ra_context r)\<rparr>
        (db\<lparr>db_bindings := bt_insert (binding_key r)
           (updated_binding r (bt_get (db_bindings db) (binding_key r))) (db_bindings db)\<rparr>) = Inr db'"
  by (auto simp: record_router_apply_def result_simps Let_def)

lemma history_status_valid: "\<exists>st. history_status s = snapshot_status_str st"
  by (cases s) (auto intro: exI [of _ SnPending] exI [of _ SnActive] exI [of _ SnRejected] exI [of _ SnRolledBack])

lemma router_apply_active:
  "router_apply_status_str s = router_apply_status_str RaActive \<longleftrightarrow> s = RaActive"
  by (cases s) simp_all

lemma updated_binding_ok:
  assumes "\<not> is_blank (ra_deployment r)" "\<not> is_blank (ra_router r)" "\<not> is_blank (ra_binding r)"
    "\<not> is_blank (ra_checksum r)" "safe_text env (context_text (ra_transition r))"
  shows "binding_row_ok env (binding_key r) (updated_binding r b)"
proof -
  have "br_status (updated_binding r b) = router_apply_status_str (ra_status r)"
    and "br_transition_json (updated_binding r b) = context_text (ra_transition r)"
    and "ra_status r = RaActive \<Longrightarrow> br_current_checksum (updated_binding r b) = Some (ra_checksum r)"
    by (simp_all add: updated_binding_def Let_def activates_def)
  then show ?thesis
    using assms unfolding binding_row_ok_def binding_key_def
    by (auto simp: router_apply_active simp del: router_apply_status_str.simps)
qed

lemma record_router_apply_inv:
  assumes inv: "store_inv env db" and rec: "record_router_apply env r db = Inr (u, db')"
    and built: "built_context env (ra_transition r)" "built_context env (ra_context r)"
  shows "store_inv env db'"
proof -
  have "binding_row_ok env (binding_key r) (updated_binding r b)" for b
    using rec built_context_safe [OF built(1)]
    by (intro updated_binding_ok) (auto simp: record_router_apply_Inr)
  then have "store_inv env (db\<lparr>db_bindings := bt_insert (binding_key r)
           (updated_binding r (bt_get (db_bindings db) (binding_key r))) (db_bindings db)\<rparr>)"
    using store_inv_tables(7) [OF inv] by (intro store_inv_update(5) [OF inv] table_all_insert)
  then show ?thesis
    using rec built_context_safe [OF built(2)] history_status_valid
    by (auto simp: record_router_apply_Inr snapshot_ok_def insert_snapshot_Inr elim!: insert_snapshot_inv)
qed

lemma lock_inv:
  assumes inv: "store_inv env db"
  shows "acquire_lock r db = Inr (l, db') \<Longrightarrow> store_inv env db'"
    and "heartbeat_lock l now ttl db = Inr (l', db') \<Longrightarrow> store_inv env db'"
    and "release_lock l db = Inr (u, db') \<Longrightarrow> store_inv env db'"
  using store_inv_tables(8) [OF inv] table_allD [OF store_inv_tables(8) [OF inv]]
  by (auto simp: acquire_lock_Inr heartbeat_lock_Inr release_lock_Inr request_ok_def granted_row_def
    intro!: store_inv_update(6) [OF inv] table_all_insert table_all_delete) (force simp: lock_ok_def)+

lemma unique_paths_delete: "unique_paths m \<Longrightarrow> unique_paths (bt_delete k m)"
  unfolding unique_paths_def by (auto split: if_splits)

lemma removal_inv:
  assumes inv: "store_inv env db"
  shows "deregister_source n db = Inr (u, db') \<Longrightarrow> store_inv env db'"
    and "remove_imported_profile n db = Inr (u, db') \<Longrightarrow> store_inv env db'"
    and "deregister_device n db = Inr (u, db') \<Longrightarrow> store_inv env db'"
  using store_inv_tables(1-4) [OF inv]
  by (auto simp: deregister_source_def remove_imported_profile_def deregister_device_def unique_paths_delete
      split: if_splits intro!: store_inv_update(1-3) [OF inv])

lemma append_inv:
  assumes inv: "store_inv env db"
  shows "record_imported_profile env p db = Inr (u, db') \<Longrightarrow> store_inv env db'"
    and "record_health env d su h r at c db = Inr (u, db') \<Longrightarrow> built_context env c \<Longrightarrow> store_inv env db'"
    and "record_route rt db = Inr (u, db') \<Longrightarrow> store_inv env db'"
    and "record_route_snapshot env rs db = Inr (u, db') \<Longrightarrow> built_context env (rs_context rs) \<Longrightarrow>
      store_inv env db'"
proof -
  show "store_inv env db'" if "record_imported_profile env p db = Inr (u, db')"
    using that store_inv_tables(3) [OF inv]
    by (auto simp: record_imported_profile_def result_simps profile_ok_def split: sum.splits
      intro!: store_inv_update(2) [OF inv] table_all_insert)
  show "store_inv env db'" if "record_health env d su h r at c db = Inr (u, db')" "built_context env c"
    using that inv built_context_safe [OF that(2)]
    by (auto simp: record_health_def store_inv_def split: if_splits)
  show "store_inv env db'" if "record_route rt db = Inr (u, db')"
    using that by (auto simp: record_route_def intro: store_inv_update(7) [OF inv])
  show "store_inv env db'" if "record_route_snapshot env rs db = Inr (u, db')" "built_context env (rs_context rs)"
    using that built_context_safe [OF that(2)]
    by (auto simp: record_route_snapshot_def result_simps insert_snapshot_Inr snapshot_ok_def
      elim!: insert_snapshot_inv [OF inv, rotated] intro!: insert_snapshot_inv [OF inv])
qed

lemma observe_deployment_Inr:
  "observe_deployment env d at db = Inr db' \<longleftrightarrow> sqlite_nonempty d \<and>
     db' = db\<lparr>db_deployments := bt_insert d
        (case bt_get (db_deployments db) d of
           None \<Rightarrow> \<lparr>dep_definition_hash = None, dep_snapshot_json = None, dep_applied_at = None,
                    dep_last_observed_at = Some at\<rparr>
         | Some row \<Rightarrow> row\<lparr>dep_last_observed_at := Some at\<rparr>) (db_deployments db)\<rparr>"
  by (auto simp: observe_deployment_def)

lemma observe_deployment_inv:
  assumes inv: "store_inv env db" and obs: "observe_deployment env d at db = Inr db'"
  shows "store_inv env db'"
proof -
  have "sqlite_nonempty d" using obs by (simp add: observe_deployment_Inr)
  then have "deployment_ok env d (case bt_get (db_deployments db) d of
           None \<Rightarrow> \<lparr>dep_definition_hash = None, dep_snapshot_json = None, dep_applied_at = None,
                    dep_last_observed_at = Some at\<rparr>
         | Some row \<Rightarrow> row\<lparr>dep_last_observed_at := Some at\<rparr>)"
    using table_allD [OF store_inv_tables(5) [OF inv], of d]
    by (cases "bt_get (db_deployments db) d") (auto simp: deployment_ok_def)
  from store_inv_deployments [OF inv this] obs show ?thesis by (simp add: observe_deployment_Inr)
qed

lemma replace_resources_Inr:
  "replace_resources env d at rs db = Inr db' \<longleftrightarrow>
     (\<forall>r\<in>set rs. se_json_valid env (ownership_labels_json env (or_labels r))) \<and>
     db' = db\<lparr>db_resources := map (deactivate d) (db_resources db) @ map (resource_to_row env d at) rs\<rparr>"
  by (auto simp: replace_resources_def Let_def resource_to_row_def)

lemma replace_resources_inv:
  assumes inv: "store_inv env db" and rep: "replace_resources env d at rs db = Inr db'"
    and known: "bt_get (db_deployments db) d \<noteq> None" and ls: "\<forall>r\<in>set rs. bt_inv (or_labels r)"
  shows "store_inv env db'"
proof -
  have "resource_ok env (db_deployments db) (deactivate d r)" if "resource_ok env (db_deployments db) r" for r
    using that by (auto simp: resource_ok_def deactivate_def)
  moreover have "resource_ok env (db_deployments db) (resource_to_row env d at r)" if "r \<in> set rs" for r
    using that rep known ls
    by (auto simp: replace_resources_Inr resource_ok_def resource_to_row_def ownership_labels_json_def)
  ultimately show ?thesis
    using inv rep by (auto simp: store_inv_def replace_resources_Inr)
qed

lemma reconcile_one_Inr:
  "reconcile_one env input preserved at d db = Inr (report, db') \<longleftrightarrow>
     (\<exists>db1 db2.
        observe_deployment env d at db = Inr db1 \<and>
        deployment_event env d ''reconciled''
          (map_option gm_definition_hash (find (\<lambda>m. gm_deployment m = d) (ri_manifests input))) at db1 = Inr db2 \<and>
        replace_resources env d at (deployment_resources input preserved d) db2 = Inr db') \<and>
     report =
       (let manifest = find (\<lambda>m. gm_deployment m = d) (ri_manifests input);
            r = reconcile_deployment d
              (case bt_get (db_deployments db') d of None \<Rightarrow> None | Some row \<Rightarrow> dep_definition_hash row)
              manifest (deployment_resources input preserved d)
        in r\<lparr>dc_diagnostics := dc_diagnostics r @ unreachable_diagnostics input manifest\<rparr>)"
  by (auto simp: reconcile_one_def result_simps Let_def)

lemma deployment_event_Inr:
  "deployment_event env d ev h at db = Inr db' \<longleftrightarrow> bt_get (db_deployments db) d \<noteq> None \<and>
     db' = db\<lparr>db_history := db_history db @
             [\<lparr>hr_deployment = d, hr_event = ev, hr_definition_hash = h,
               hr_recorded_at = at, hr_context_json = None\<rparr>]\<rparr>"
  by (auto simp: deployment_event_def)

lemma reconcile_one_inv:
  assumes inv: "store_inv env db" and rec: "reconcile_one env input preserved at d db = Inr (report, db')"
    and ls: "\<forall>r\<in>set (deployment_resources input preserved d). bt_inv (or_labels r)"
  shows "store_inv env db'"
proof -
  from rec obtain db1 db2 h where obs: "observe_deployment env d at db = Inr db1"
    and ev: "deployment_event env d ''reconciled'' h at db1 = Inr db2"
    and rep: "replace_resources env d at (deployment_resources input preserved d) db2 = Inr db'"
    unfolding reconcile_one_Inr by blast
  have "store_inv env db2"
    by (rule deployment_event_inv [OF observe_deployment_inv [OF inv obs] ev])
  then show ?thesis
    using rep _ ls by (rule replace_resources_inv) (use ev in \<open>auto simp: deployment_event_Inr\<close>)
qed

lemma reconcile_all_inv:
  assumes "\<And>d. \<forall>r\<in>set (deployment_resources input preserved d). bt_inv (or_labels r)"
  shows "store_inv env db \<Longrightarrow> reconcile_all env input preserved at ds db = Inr (reports, db') \<Longrightarrow> store_inv env db'"
  by (induction ds arbitrary: db reports)
    (auto simp: result_simps dest: reconcile_one_inv [OF _ _ assms] split: prod.splits)

lemma active_resource_labels:
  assumes "json_text_laws env" and "active_resources env d db = Inr rs" and "r \<in> set rs"
  shows "bt_inv (or_labels r)"
proof -
  obtain row where "resource_from_row env row = Inr r"
    using collect_results_in assms(2,3) unfolding active_resources_def by metis
  then show ?thesis
    using assms(1) by (auto simp: resource_from_row_def json_text_laws_def result_simps split: sum.splits)
qed

lemma preserved_get:
  assumes "preserved_unreachable env input db names = Inr preserved" and "bt_get preserved d = Some rs"
  shows "preserved_resources env input db d = Inr rs"
proof -
  from assms obtain found where found: "collect_results (preserved_resources env input db) names = Inr found"
    and p: "preserved = filter (\<lambda>(_, rs). rs \<noteq> []) (zip names found)"
    by (auto simp: preserved_unreachable_def result_simps split: if_splits)
  have "(d, rs) \<in> set (zip names found)"
    using map_of_SomeD [OF assms(2)] by (simp add: p)
  moreover have "preserved_resources env input db (fst e) = Inr (snd e)" if "e \<in> set (zip names found)" for e
  proof -
    from that obtain i where i: "i < length names" "i < length found" "e = (names ! i, found ! i)"
      by (auto simp: set_zip)
    have "map (preserved_resources env input db) names ! i = map Inr found ! i"
      using found by (simp only: collect_results_Inr)
    with i show ?thesis by simp
  qed
  ultimately show ?thesis by fastforce
qed

lemma compared_labels:
  assumes laws: "json_text_laws env" and built: "\<forall>r\<in>set (ri_resources input). bt_inv (or_labels r)"
    and pres: "preserved_unreachable env input db names = Inr preserved"
  shows "\<forall>r\<in>set (deployment_resources input preserved d). bt_inv (or_labels r)"
proof (cases "bt_get preserved d")
  case None
  with built show ?thesis by (simp add: deployment_resources_def)
next
  case (Some rs)
  then obtain all where "active_resources env d db = Inr all" "set rs \<subseteq> set all"
    using preserved_get [OF pres Some] by (auto simp: preserved_resources_def result_simps)
  with built Some active_resource_labels [OF laws] show ?thesis
    by (auto simp: deployment_resources_def)
qed

lemma reconcile_Inr:
  "reconcile env input at db = Inr (reports, db') \<longleftrightarrow>
     (\<exists>preserved. preserved_unreachable env input db (reconciled_deployments input db) = Inr preserved \<and>
        reconcile_all env input preserved at (reconciled_deployments input db) db = Inr (reports, db'))"
  by (simp add: reconcile_def result_simps Let_def)

lemma reconcile_inv:
  assumes "json_text_laws env" "\<forall>r\<in>set (ri_resources input). bt_inv (or_labels r)" "store_inv env db"
    "reconcile env input at db = Inr (reports, db')"
  shows "store_inv env db'"
proof -
  from assms(4) obtain preserved where
    pres: "preserved_unreachable env input db (reconciled_deployments input db) = Inr preserved"
    and all: "reconcile_all env input preserved at (reconciled_deployments input db) db = Inr (reports, db')"
    by (auto simp: reconcile_Inr)
  show ?thesis
    by (rule reconcile_all_inv [OF compared_labels [OF assms(1,2) pres] assms(3) all])
qed

lemma store_exec_inv:
  assumes "store_inv env db" "built_arguments env c" "json_text_laws env" "store_exec env c db = Inr db'"
  shows "store_inv env db'"
  using assms json_text_laws_safe [OF assms(3)]
  by (cases c)
    (auto simp: store_outcome_Inr dest: register_source_inv register_device_inv record_device_check_inv
      record_applied_snapshot_inv start_operation_inv update_operation_inv recover_inv
      record_router_apply_inv lock_inv removal_inv append_inv reconcile_inv)

lemma store_inv_empty: "store_inv env empty_database"
  by (simp add: store_inv_def empty_database_def unique_paths_def)

interpretation store: server "store_step env" "\<lambda>db. json_text_laws env \<and> store_inv env db"
  "built_arguments env" for env
proof
  show "store_step env c db \<noteq> None" for c db by (simp add: store_step_def)
  fix c db e db'
  assume "json_text_laws env \<and> store_inv env db" "built_arguments env c" "store_step env c db = Some (e, db')"
  then show "json_text_laws env \<and> store_inv env db'"
    by (auto simp: store_step_def split: sum.splits dest: store_exec_inv)
qed

definition store_run ::
  "store_env \<Rightarrow> store_command list \<Rightarrow> database \<Rightarrow> (state_error option list \<times> database) option" where
  "store_run env = server.run (store_step env)"

section \<open>Samples\<close>

definition sample_store_env :: store_env where
  "sample_store_env =
     \<lparr>se_lossy = (\<lambda>p. p), se_to_string = (\<lambda>_. ''{}''), se_from_str = (\<lambda>_. Inr JNull),
      se_labels_to_string = (\<lambda>ls. replicate (to_nat ls) CHR ''x''),
      se_labels_from_str = (\<lambda>t. let ls = from_nat (length t) in Inr (if bt_inv ls then ls else [])),
      se_json_valid = (\<lambda>_. True), se_constraint_text = ''UNIQUE constraint failed''\<rparr>"

lemma sample_json_text_laws: "json_text_laws sample_store_env"
  by (auto simp: json_text_laws_def sample_store_env_def Let_def bt_inv_def)

definition sample_snapshot_value :: json where
  "sample_snapshot_value = JObj [(''dbPassword'', JObj [(''environmentVariable'', JStr ''DB_PASSWORD'')])]"

definition sample_commands :: "store_command list" where
  "sample_commands =
     [RecordApplied ''demo'' ''h1'' (AppliedSnapshot ''{}'') 10,
      AcquireLock sample_lock_request, AcquireLock sample_lock_request, RecoverAbandoned 20]"

lemma sample_snapshot_built: "snapshot_from_json sample_store_env sample_snapshot_value = Inr (AppliedSnapshot ''{}'')"
proof -
  have "validate_no_secret_values sample_snapshot_value ''$'' = Inr ()" by code_simp
  then show ?thesis by (simp add: snapshot_from_json_def sample_store_env_def)
qed

lemma sample_commands_built: "\<forall>c\<in>set sample_commands. built_arguments sample_store_env c"
  using sample_snapshot_built by (auto simp: sample_commands_def)

section \<open>Properties\<close>

text \<open>
  C28. The state store keeps its integrity: a fresh database, after any sequence of store
  commands (refused ones included), answered every command and satisfies the constraints of the
  schema and what the validators check. Keys and source paths are unique; the names of sources,
  devices and profiles, the ids, deployments and instances of operations, the keys of router
  bindings, the owners and tokens of leases, and the hashes of profiles and applied deployments are
  not blank; source and identity-file paths are not empty; enumerations are spelled as their
  parsers expect; a managed source has a managed location and an unmanaged one has none; applied
  hash, snapshot and time are present together; history and resources refer to known
  deployments; devices cannot smuggle options into an SSH command line; leases expire after
  their heartbeat; stored labels are ownership labels only. Every JSON column other than
  \<open>labels_json\<close> and \<open>definition_json\<close> is the text of a value in which no secret-like key, at any
  depth, has anything but a secret reference; the definition of an imported profile is only known to parse, as the
  source does not scan it.
\<close>

theorem store_integrity:
  assumes "json_text_laws env" and "\<forall>c\<in>set cs. built_arguments env c"
  shows "\<exists>outs db. store_run env cs empty_database = Some (outs, db) \<and> length outs = length cs \<and>
    store_inv env db"
  using store.run_total [of env empty_database cs] store.run_inv [of env empty_database cs] assms
    store_inv_empty
  unfolding store_run_def by metis

theorem store_integrity_witness:
  "\<exists>outs db. store_run sample_store_env sample_commands empty_database = Some (outs, db) \<and>
     length outs = 4 \<and> store_inv sample_store_env db"
  using store_integrity [OF sample_json_text_laws sample_commands_built]
  by (simp add: sample_commands_def eval_nat_numeral)

end
