(* ===== verification/StateQueries.thy ===== *)
theory StateQueries
  imports StateStore
begin

text \<open>
  What the reading side of the state store promises: the paginated operation listing, the
  versions a router binding shows after a series of apply attempts, and what a reconciliation
  reports and retains.
\<close>

section \<open>The operation listing\<close>

text \<open>All operations that match a query, newest first.\<close>

definition listing :: "operation_query \<Rightarrow> database \<Rightarrow> stored_operation list" where
  "listing q db = newest_first (filter (query_matches q) (map snd (db_operations db)))"

lemma filter_newest_first: "filter P (newest_first os) = newest_first (filter P os)"
  by (simp add: newest_first_def rev_filter [symmetric] filter_sort)

lemma stored_ids_distinct:
  assumes "table_all (operation_ok env) ops"
  shows "distinct (map operation_order (map snd ops))"
proof -
  have ok: "so_id o' = k" if "(k, o') \<in> set ops" for k o'
    using assms that by (auto simp: table_all_def operation_ok_def bt.entries_get)
  then have keys: "map (so_id \<circ> snd) ops = map fst ops" by auto
  have "distinct (map fst ops)" using assms by (simp add: table_all_def bt_inv_distinct)
  then have "distinct (map (so_id \<circ> snd) ops)" by (simp only: keys)
  then have "distinct (map so_id (map snd ops))" by simp
  then show ?thesis
    by (auto simp: distinct_map inj_on_def operation_order_def)
qed

lemma newest_first_strict:
  assumes "distinct (map operation_order os)"
  shows "sorted_wrt (\<lambda>a b. operation_order b < operation_order a) (newest_first os)"
proof -
  have "distinct (map operation_order (sort_key operation_order os))"
    using assms by (simp add: distinct_map)
  then have "sorted_wrt (<) (map operation_order (sort_key operation_order os))"
    by (simp add: strict_sorted_iff)
  then show ?thesis by (simp add: newest_first_def sorted_wrt_rev sorted_wrt_map)
qed

lemma listing_strict:
  assumes "store_inv env db"
  shows "sorted_wrt (\<lambda>a b. operation_order b < operation_order a) (listing q db)"
  unfolding listing_def
  using stored_ids_distinct [OF store_inv_tables(6) [OF assms]]
  by (intro newest_first_strict) (auto simp: distinct_map inj_on_def)

lemma before_cursor_order:
  "before_cursor (Some (operation_order c)) o' \<longleftrightarrow> operation_order o' < operation_order c"
  by (auto simp: before_cursor_def operation_order_def)

lemma listing_after:
  assumes "store_inv env db" and "listing q db = xs @ c # ys"
  shows "filter (before_cursor (Some (operation_order c))) (listing q db) = ys"
proof -
  have "\<forall>x\<in>set xs. operation_order c < operation_order x" "\<forall>y\<in>set ys. operation_order y < operation_order c"
    using listing_strict [OF assms(1), of q] unfolding assms(2) by (auto simp: sorted_wrt_append)
  then show ?thesis
    unfolding assms(2) by (auto simp: before_cursor_order filter_empty_conv filter_id_conv less_asym)
qed

lemma listing_stored:
  assumes "store_inv env db" and "o' \<in> set (listing q db)"
  shows "bt_get (db_operations db) (so_id o') = Some o'"
  using assms store_inv_tables(6) [OF assms(1)]
  by (auto simp: listing_def newest_first_def table_all_def operation_ok_def bt.entries_get)

lemma query_matches_cursor [simp]:
  "query_matches (q\<lparr>oq_cursor := c\<rparr>) = query_matches q" "query_matches (q\<lparr>oq_limit := n\<rparr>) = query_matches q"
  by (simp_all add: fun_eq_iff query_matches_def)

lemma listing_cursor [simp]:
  "listing (q\<lparr>oq_cursor := c\<rparr>) = listing q" "listing (q\<lparr>oq_limit := n\<rparr>) = listing q"
  by (simp_all add: fun_eq_iff listing_def)

definition limit_ok :: "u64 \<Rightarrow> bool" where
  "limit_ok n \<longleftrightarrow> 0 < n \<and> uint n < 2 ^ 63"

lemma limit_ok_to_i64: "limit_ok n \<Longrightarrow> n \<noteq> 0 \<and> u64_to_i64 n = Some (uint n)"
  by (auto simp: limit_ok_def u64_to_i64_def in_i64_def intro: order_trans [OF _ uint_ge_0 [of n]])

lemma operations_first_page:
  "limit_ok (oq_limit q) \<Longrightarrow> oq_cursor q = None \<Longrightarrow> operations q db = Inr (take (unat (oq_limit q)) (listing q db))"
  using limit_ok_to_i64 [of "oq_limit q"]
  by (simp add: operations_def reject_if_def listing_def before_cursor_def)

lemma operations_next_page:
  assumes inv: "store_inv env db" and lim: "limit_ok (oq_limit q)" and cur: "oq_cursor q = Some (so_id c)"
    and split: "listing q db = xs @ c # ys"
  shows "operations q db = Inr (take (unat (oq_limit q)) ys)"
proof -
  have "bt_get (db_operations db) (so_id c) = Some c"
    using listing_stored [OF inv, of c q] split by simp
  moreover have "newest_first (filter (\<lambda>o'. query_matches q o' \<and> before_cursor (Some (operation_order c)) o')
      (map snd (db_operations db))) = ys"
    using listing_after [OF inv split]
    by (simp add: listing_def filter_newest_first conj_commute)
  ultimately show ?thesis
    using limit_ok_to_i64 [OF lim] cur by (simp add: operations_def reject_if_def)
qed

end
