(* ===== verification/StateReports.thy ===== *)
theory StateReports
  imports StateStore "HOL-Library.Multiset"
begin

text \<open>
  What the records of the state store show: the versions of a router binding after a series of
  apply attempts, and what a reconciliation reports, keeps and retains.
\<close>

section \<open>Router bindings\<close>

text \<open>
  \<open>attempts.iter().try_for_each(|attempt| store.record_router_apply(attempt))\<close>: attempts before
  a failing one stay recorded.
\<close>

fun record_attempts ::
  "store_env \<Rightarrow> router_apply_record list \<Rightarrow> database \<Rightarrow> unit state_result \<times> database" where
  "record_attempts env [] db = (Inr (), db)"
| "record_attempts env (r # rs) db =
     (case record_router_apply env r db of
        Inl e \<Rightarrow> (Inl e, db)
      | Inr (_, db') \<Rightarrow> record_attempts env rs db')"

definition of_binding :: "string \<times> string \<times> string \<Rightarrow> router_apply_record list \<Rightarrow> router_apply_record list" where
  "of_binding k rs = filter (\<lambda>r. binding_key r = k) rs"

definition history_entry :: "router_apply_record \<Rightarrow> stored_route_snapshot" where
  "history_entry r =
     \<lparr>ss_deployment = ra_deployment r, ss_router = Some (ra_router r), ss_binding = Some (ra_binding r),
      ss_operation_id = Some (ra_operation_id r), ss_version = ra_version r, ss_checksum = ra_checksum r,
      ss_activation_status = history_status (ra_status r), ss_recorded_at = ra_recorded_at r,
      ss_context_json = context_text (ra_context r)\<rparr>"

definition shown :: "binding_row option \<Rightarrow> router_apply_record list \<Rightarrow> binding_row option" where
  "shown b rs = fold (\<lambda>r b. Some (updated_binding r b)) rs b"

lemma record_router_apply_effect:
  "record_router_apply env r db = Inr (u, db') \<Longrightarrow>
     db' = db\<lparr>db_bindings := bt_insert (binding_key r)
           (updated_binding r (bt_get (db_bindings db) (binding_key r))) (db_bindings db),
         db_snapshots := db_snapshots db @ [history_entry r]\<rparr>"
  by (simp add: record_router_apply_Inr insert_snapshot_Inr history_entry_def)

lemma record_attempts_effect:
  assumes "record_attempts env rs db = (Inr (), db')"
  shows "bt_get (db_bindings db') k = shown (bt_get (db_bindings db) k) (of_binding k rs)"
    and "db_snapshots db' = db_snapshots db @ map history_entry rs"
  using assms
proof (induction rs arbitrary: db)
  case Nil
  { case 1 then show ?case by (simp add: shown_def of_binding_def) }
  { case 2 then show ?case by simp }
next
  case (Cons r rs)
  { case 1
    then show ?case
      using Cons.IH(1) by (auto simp: shown_def of_binding_def split: sum.splits dest!: record_router_apply_effect) }
  { case 2
    then show ?case
      using Cons.IH(2) by (auto split: sum.splits dest!: record_router_apply_effect) }
qed

text \<open>
  The specification: the current value is that of the last attempt that activated; before any
  has, it is the first value a router was observed to have.
\<close>

fun first_some :: "'a option list \<Rightarrow> 'a option" where
  "first_some [] = None"
| "first_some (x # xs) = option_or x (first_some xs)"

definition current_after ::
  "(router_apply_record \<Rightarrow> 'a) \<Rightarrow> (router_apply_record \<Rightarrow> 'a option) \<Rightarrow> router_apply_record list \<Rightarrow> 'a option" where
  "current_after val seen rs =
     (case rev (filter activates rs) of [] \<Rightarrow> first_some (map seen rs) | r # _ \<Rightarrow> Some (val r))"

lemma option_or_None [simp]: "option_or x None = x"
  by (cases x) auto

lemma option_or_assoc: "option_or (option_or x y) z = option_or x (option_or y z)"
  by (cases x) auto

lemma first_some_append: "first_some (xs @ ys) = option_or (first_some xs) (first_some ys)"
  by (induction xs) (auto simp: option_or_assoc)

lemma current_after_snoc:
  "current_after val seen (rs @ [r]) =
     (if activates r then Some (val r)
      else option_or (current_after val seen rs) (if filter activates rs = [] then seen r else None))"
  by (auto simp: current_after_def first_some_append split: list.splits)

lemma shown_snoc: "shown b (rs @ [r]) = Some (updated_binding r (shown b rs))"
  by (simp add: shown_def)

definition column :: "(binding_row \<Rightarrow> 'a option) \<Rightarrow> binding_row option \<Rightarrow> 'a option" where
  "column f b = (case b of None \<Rightarrow> None | Some row \<Rightarrow> f row)"

lemma updated_columns:
  "br_current_version (updated_binding r b) =
     (if activates r then Some (ra_version r) else option_or (column br_current_version b) (ra_observed_version r))"
  "br_current_checksum (updated_binding r b) =
     (if activates r then Some (ra_checksum r) else option_or (column br_current_checksum b) (ra_observed_checksum r))"
  "br_previous_version (updated_binding r b) =
     (if activates r then option_or (column br_current_version b) (ra_observed_version r)
      else column br_previous_version b)"
  "br_previous_checksum (updated_binding r b) =
     (if activates r then option_or (column br_current_checksum b) (ra_observed_checksum r)
      else column br_previous_checksum b)"
  "br_desired_version (updated_binding r b) = Some (ra_desired_version r)"
  "br_status (updated_binding r b) = router_apply_status_str (ra_status r)"
  by (auto simp: updated_binding_def column_def Let_def split: option.splits)

lemma current_activated: "filter activates rs \<noteq> [] \<Longrightarrow> current_after val seen rs \<noteq> None"
  by (auto simp: current_after_def split: list.splits)

lemma shown_current:
  "column br_current_version (shown None rs) = current_after ra_version ra_observed_version rs"
  "column br_current_checksum (shown None rs) = current_after ra_checksum ra_observed_checksum rs"
proof (induction rs rule: rev_induct)
  case Nil
  { case 1 show ?case by (simp add: shown_def column_def current_after_def) }
  { case 2 show ?case by (simp add: shown_def column_def current_after_def) }
next
  case (snoc r rs)
  { case 1
    show ?case using snoc.IH(1) current_activated [of rs ra_version ra_observed_version]
      by (cases "current_after ra_version ra_observed_version rs")
        (auto simp: shown_snoc updated_columns current_after_snoc column_def [of _ "Some _"]) }
  { case 2
    show ?case using snoc.IH(2) current_activated [of rs ra_checksum ra_observed_checksum]
      by (cases "current_after ra_checksum ra_observed_checksum rs")
        (auto simp: shown_snoc updated_columns current_after_snoc column_def [of _ "Some _"]) }
qed

lemma shown_previous_kept:
  "\<forall>a\<in>set after. \<not> activates a \<Longrightarrow>
     column br_previous_version (shown b after) = column br_previous_version b \<and>
     column br_previous_checksum (shown b after) = column br_previous_checksum b"
proof (induction after rule: rev_induct)
  case Nil
  show ?case by (simp add: shown_def)
next
  case (snoc r rs)
  then show ?case by (simp add: shown_snoc column_def [of _ "Some _"] updated_columns)
qed

lemma shown_append: "shown b (xs @ ys) = shown (shown b xs) ys"
  by (simp add: shown_def)

lemma shown_previous:
  assumes "\<forall>a\<in>set after. \<not> activates a" and "activates r"
  shows "column br_previous_version (shown None (before @ r # after)) =
      option_or (current_after ra_version ra_observed_version before) (ra_observed_version r)"
    and "column br_previous_checksum (shown None (before @ r # after)) =
      option_or (current_after ra_checksum ra_observed_checksum before) (ra_observed_checksum r)"
proof -
  have "shown None (before @ r # after) = shown (shown None (before @ [r])) after"
    by (simp add: shown_append [symmetric])
  with shown_previous_kept [OF assms(1), of "shown None (before @ [r])"] assms(2)
  show "column br_previous_version (shown None (before @ r # after)) =
      option_or (current_after ra_version ra_observed_version before) (ra_observed_version r)"
    and "column br_previous_checksum (shown None (before @ r # after)) =
      option_or (current_after ra_checksum ra_observed_checksum before) (ra_observed_checksum r)"
    by (simp_all add: shown_snoc column_def [of _ "Some _"] updated_columns shown_current)
qed

section \<open>Reports\<close>

lemma bt_set_set [simp]: "set (bt_set xs) = set xs"
  by (simp add: bt_set_def)

lemma bt_set_distinct [simp]: "distinct (bt_set xs)"
  by (simp add: bt_set_def)

lemma short_distinct:
  assumes "distinct xs"
  shows "\<not> 1 < length xs \<longleftrightarrow> (\<forall>x\<in>set xs. \<forall>y\<in>set xs. x = y)"
  using distinct_card [OF assms] card_le_Suc0_iff_eq [of "set xs"] by (auto simp: not_less)

text \<open>The resources whose topology hash counts: all but volumes, unless there are only volumes.\<close>

definition topology_resource :: "owned_resource list \<Rightarrow> owned_resource \<Rightarrow> bool" where
  "topology_resource rs r \<longleftrightarrow> r \<in> set rs \<and> (or_kind r \<noteq> Volume \<or> (\<forall>r'\<in>set rs. or_kind r' = Volume))"

text \<open>
  Desired, applied and observed state agree: the applied definition is the generated one, a
  generated deployment has resources, every resource is labelled as owned, all topology
  resources carry the same hash, and it is the generated one.
\<close>

definition in_sync ::
  "string \<Rightarrow> string option \<Rightarrow> generated_manifest option \<Rightarrow> owned_resource list \<Rightarrow> bool" where
  "in_sync d applied manifest rs \<longleftrightarrow>
     map_option gm_definition_hash manifest = applied \<and>
     (rs = [] \<longrightarrow> manifest = None) \<and>
     (\<forall>r\<in>set rs. owned d r) \<and>
     (\<exists>h. (\<forall>r. topology_resource rs r \<longrightarrow> bt_get (or_labels r) RESOURCE_HASH_LABEL = Some h) \<and>
          (\<forall>m. rs \<noteq> [] \<longrightarrow> manifest = Some m \<longrightarrow> gm_resource_hash m = h))"

lemma hash_sources_set: "r \<in> set (hash_sources rs) \<longleftrightarrow> topology_resource rs r"
  by (auto simp: hash_sources_def topology_resource_def Let_def filter_empty_conv)

lemma hash_sources_nonempty: "rs \<noteq> [] \<Longrightarrow> hash_sources rs \<noteq> []"
  by (simp add: hash_sources_def Let_def)

lemma observed_hashes_set:
  "h \<in> set (observed_hashes rs) \<longleftrightarrow>
     (\<exists>r. topology_resource rs r \<and> bt_get (or_labels r) RESOURCE_HASH_LABEL = Some h)"
  by (auto simp: observed_hashes_def map_filter_def hash_sources_set image_iff)

lemma desired_diagnostics_clean:
  "desired_diagnostics applied manifest = [] \<longleftrightarrow> map_option gm_definition_hash manifest = applied"
  by (auto simp: desired_diagnostics_def split: option.splits)

lemma observed_diagnostics_clean:
  assumes "rs \<noteq> []"
  shows "observed_diagnostics d manifest rs = [] \<longleftrightarrow>
     (\<forall>r\<in>set rs. owned d r) \<and>
     (\<exists>h. (\<forall>r. topology_resource rs r \<longrightarrow> bt_get (or_labels r) RESOURCE_HASH_LABEL = Some h) \<and>
          (\<forall>m. manifest = Some m \<longrightarrow> gm_resource_hash m = h))" (is "_ \<longleftrightarrow> ?own \<and> ?agree")
proof -
  obtain r0 where r0: "topology_resource rs r0"
    using hash_sources_nonempty [OF assms] hash_sources_set by (metis last_in_set)
  have "observed_diagnostics d manifest rs = [] \<longleftrightarrow>
      ?own \<and> (\<forall>r. topology_resource rs r \<longrightarrow> bt_get (or_labels r) RESOURCE_HASH_LABEL \<noteq> None) \<and>
      (\<forall>x\<in>set (observed_hashes rs). \<forall>y\<in>set (observed_hashes rs). x = y) \<and>
      (\<forall>m. manifest = Some m \<longrightarrow> observed_hashes rs \<noteq> [] \<longrightarrow> gm_resource_hash m \<in> set (observed_hashes rs))"
    unfolding observed_diagnostics_def Let_def
    using short_distinct [of "observed_hashes rs"] hash_sources_set [of _ rs]
    by (auto simp: observed_hashes_def filter_empty_conv split: option.splits)
  also have "\<dots> \<longleftrightarrow> ?own \<and> ?agree"
  proof (rule conj_cong [OF refl])
    have ne: "observed_hashes rs \<noteq> []" if "bt_get (or_labels r0) RESOURCE_HASH_LABEL \<noteq> None"
      using that r0 observed_hashes_set [of _ rs] by (metis not_None_eq empty_iff empty_set)
    show "(\<forall>r. topology_resource rs r \<longrightarrow> bt_get (or_labels r) RESOURCE_HASH_LABEL \<noteq> None) \<and>
      (\<forall>x\<in>set (observed_hashes rs). \<forall>y\<in>set (observed_hashes rs). x = y) \<and>
      (\<forall>m. manifest = Some m \<longrightarrow> observed_hashes rs \<noteq> [] \<longrightarrow> gm_resource_hash m \<in> set (observed_hashes rs)) \<longleftrightarrow>
      ?agree" (is "?hashes \<longleftrightarrow> _")
    proof
      assume h: ?hashes
      obtain h0 where h0: "bt_get (or_labels r0) RESOURCE_HASH_LABEL = Some h0" using h r0 by blast
      then have in0: "h0 \<in> set (observed_hashes rs)" using r0 by (auto simp: observed_hashes_set)
      have "bt_get (or_labels r) RESOURCE_HASH_LABEL = Some h0" if "topology_resource rs r" for r
        using h that in0 by (metis not_None_eq observed_hashes_set)
      moreover have "gm_resource_hash m = h0" if "manifest = Some m" for m
        using h that in0 ne h0 by blast
      ultimately show ?agree by blast
    next
      assume ?agree
      then obtain h0 where all: "\<And>r. topology_resource rs r \<Longrightarrow> bt_get (or_labels r) RESOURCE_HASH_LABEL = Some h0"
        and m: "\<And>m. manifest = Some m \<Longrightarrow> gm_resource_hash m = h0" by blast
      have "x \<in> set (observed_hashes rs) \<longleftrightarrow> x = h0" for x
        unfolding observed_hashes_set using all r0 by (metis option.inject)
      then have "set (observed_hashes rs) = {h0}" by blast
      with all m show ?hashes by auto
    qed
  qed
  finally show ?thesis .
qed

lemma reconcile_deployment_clean:
  "dc_diagnostics (reconcile_deployment d applied manifest rs) = [] \<longleftrightarrow> in_sync d applied manifest rs"
proof (cases "rs = []")
  case True
  then show ?thesis
    by (auto simp: reconcile_deployment_def in_sync_def desired_diagnostics_clean topology_resource_def)
next
  case False
  then show ?thesis
    by (simp add: reconcile_deployment_def in_sync_def desired_diagnostics_clean observed_diagnostics_clean)
qed

section \<open>What reconciliation changes\<close>

text \<open>The applied state of a deployment, and its current resource observations.\<close>

definition applied_of :: "database \<Rightarrow> string \<Rightarrow> string option \<times> string option \<times> i64 option" where
  "applied_of db d =
     (case bt_get (db_deployments db) d of
        None \<Rightarrow> (None, None, None)
      | Some row \<Rightarrow> (dep_definition_hash row, dep_snapshot_json row, dep_applied_at row))"

definition current_rows :: "string \<Rightarrow> database \<Rightarrow> resource_row list" where
  "current_rows d db = filter (\<lambda>row. rr_deployment row = d \<and> rr_active row) (db_resources db)"

text \<open>Two databases that differ only in observations.\<close>

definition observations_only :: "database \<Rightarrow> database \<Rightarrow> bool" where
  "observations_only db db' \<longleftrightarrow>
     db_sources db' = db_sources db \<and> db_profiles db' = db_profiles db \<and> db_devices db' = db_devices db \<and>
     db_operations db' = db_operations db \<and> db_health db' = db_health db \<and> db_routes db' = db_routes db \<and>
     db_snapshots db' = db_snapshots db \<and> db_bindings db' = db_bindings db \<and> db_locks db' = db_locks db \<and>
     applied_of db' = applied_of db \<and>
     (\<exists>news. db_history db' = db_history db @ news \<and> (\<forall>h\<in>set news. hr_event h = ''reconciled''))"

lemma observations_only_refl: "observations_only db db"
  by (simp add: observations_only_def)

lemma observations_only_trans: "observations_only a b \<Longrightarrow> observations_only b c \<Longrightarrow> observations_only a c"
  unfolding observations_only_def by (elim conjE exE) (auto simp: ball_Un)

lemma reconcile_one_frame:
  assumes "reconcile_one env input preserved at d db = Inr (report, db')"
  shows "observations_only db db'"
    and "db_resources db' = map (deactivate d) (db_resources db) @
      map (resource_to_row env d at) (deployment_resources input preserved d)"
  using assms
  by (auto simp: reconcile_one_Inr observe_deployment_Inr deployment_event_Inr replace_resources_Inr
    observations_only_def applied_of_def fun_eq_iff split: option.splits)

lemma current_rows_replaced:
  assumes "db_resources db' = map (deactivate d) (db_resources db) @ map (resource_to_row env d at) rs"
  shows "current_rows d' db' = (if d' = d then map (resource_to_row env d at) rs else current_rows d' db)"
proof -
  have "filter (\<lambda>row. rr_deployment row = d \<and> rr_active row) (map (deactivate d) rows) = []" for rows
    by (induction rows) (auto simp: deactivate_def)
  moreover have "filter (\<lambda>row. rr_deployment row = d' \<and> rr_active row) (map (deactivate d) rows) =
      filter (\<lambda>row. rr_deployment row = d' \<and> rr_active row) rows" if "d' \<noteq> d" for rows
    using that by (induction rows) (auto simp: deactivate_def)
  moreover have "filter (\<lambda>row. rr_deployment row = d' \<and> rr_active row) (map (resource_to_row env d at) rs) =
      (if d' = d then map (resource_to_row env d at) rs else [])"
    by (auto simp: filter_map resource_to_row_def comp_def)
  ultimately show ?thesis by (simp add: current_rows_def assms)
qed

text \<open>The report the code owes for a deployment, from the applied hash and the resources it compared.\<close>

definition report_for ::
  "reconciliation_input \<Rightarrow> (string, owned_resource list) btree \<Rightarrow> database \<Rightarrow> string \<Rightarrow> deployment_reconciliation" where
  "report_for input preserved db d =
     (let manifest = find (\<lambda>m. gm_deployment m = d) (ri_manifests input)
      in \<lparr>dc_deployment = d,
          dc_diagnostics =
            dc_diagnostics (reconcile_deployment d (fst (applied_of db d)) manifest
              (deployment_resources input preserved d)) @
            unreachable_diagnostics input manifest\<rparr>)"

lemma applied_hash_of:
  "(case bt_get (db_deployments db) d of None \<Rightarrow> None | Some row \<Rightarrow> dep_definition_hash row) = fst (applied_of db d)"
  by (simp add: applied_of_def split: option.splits)

lemma reconcile_one_report:
  assumes "reconcile_one env input preserved at d db = Inr (report, db')"
  shows "report = report_for input preserved db d"
proof -
  have "applied_of db' = applied_of db"
    using reconcile_one_frame(1) [OF assms] by (simp add: observations_only_def)
  then show ?thesis
    using assms by (simp add: reconcile_one_Inr report_for_def applied_hash_of Let_def reconcile_deployment_def)
qed

lemma reconcile_all_Cons:
  assumes "reconcile_all env input preserved at (d # ds) db = Inr (reports, db')"
  obtains db1 rest where "reconcile_one env input preserved at d db = Inr (report_for input preserved db d, db1)"
    "reconcile_all env input preserved at ds db1 = Inr (rest, db')"
    "reports = report_for input preserved db d # rest"
proof -
  from assms obtain report db1 rest where
    "reconcile_one env input preserved at d db = Inr (report, db1)"
    "reconcile_all env input preserved at ds db1 = Inr (rest, db')" "reports = report # rest"
    by (auto simp: result_simps split: prod.splits)
  with reconcile_one_report that show ?thesis by metis
qed

lemma report_for_cong: "observations_only db db1 \<Longrightarrow> report_for input preserved db1 = report_for input preserved db"
  by (simp add: fun_eq_iff report_for_def observations_only_def)

lemma reconcile_all_effect:
  assumes "reconcile_all env input preserved at ds db = Inr (reports, db')" and "distinct ds"
  shows "observations_only db db'"
    and "reports = map (report_for input preserved db) ds"
    and "current_rows d db' = (if d \<in> set ds
      then map (resource_to_row env d at) (deployment_resources input preserved d) else current_rows d db)"
  using assms
proof (induction ds arbitrary: db reports)
  case Nil
  { case 1 then show ?case by (simp add: observations_only_refl) }
  { case 2 then show ?case by simp }
  { case 3 then show ?case by simp }
next
  case (Cons d0 ds)
  { case 1
    then obtain db1 rest where one: "reconcile_one env input preserved at d0 db = Inr (report_for input preserved db d0, db1)"
      and rest: "reconcile_all env input preserved at ds db1 = Inr (rest, db')"
      by (elim reconcile_all_Cons)
    show ?case
      using 1 by (intro observations_only_trans [OF reconcile_one_frame(1) [OF one] Cons.IH(1) [OF rest]]) simp }
  { case 2
    then obtain db1 rest where one: "reconcile_one env input preserved at d0 db = Inr (report_for input preserved db d0, db1)"
      and rest: "reconcile_all env input preserved at ds db1 = Inr (rest, db')"
      and reports: "reports = report_for input preserved db d0 # rest"
      by (elim reconcile_all_Cons)
    show ?case
      using 2 Cons.IH(2) [OF rest] report_for_cong [OF reconcile_one_frame(1) [OF one]] by (simp add: reports) }
  { case 3
    then obtain db1 rest where one: "reconcile_one env input preserved at d0 db = Inr (report_for input preserved db d0, db1)"
      and rest: "reconcile_all env input preserved at ds db1 = Inr (rest, db')"
      by (elim reconcile_all_Cons)
    show ?case
      using 3 Cons.IH(3) [OF rest] current_rows_replaced [OF reconcile_one_frame(2) [OF one]] by auto }
qed

lemma reconcile_effect:
  assumes "reconcile env input at db = Inr (reports, db')"
  obtains preserved where
    "preserved_unreachable env input db (reconciled_deployments input db) = Inr preserved"
    "observations_only db db'"
    "reports = map (report_for input preserved db) (reconciled_deployments input db)"
    "\<And>d. d \<in> set (reconciled_deployments input db) \<Longrightarrow>
       current_rows d db' = map (resource_to_row env d at) (deployment_resources input preserved d)"
  using assms reconcile_all_effect unfolding reconcile_Inr
  by (metis bt_set_distinct reconciled_deployments_def)

section \<open>What reconciliation compares and retains\<close>

definition observed_for :: "reconciliation_input \<Rightarrow> string \<Rightarrow> owned_resource list" where
  "observed_for input d = filter (\<lambda>r. bt_get (or_labels r) DEPLOYMENT_LABEL = Some d) (ri_resources input)"

text \<open>Earlier observations on devices that cannot be reached now.\<close>

definition retained :: "store_env \<Rightarrow> reconciliation_input \<Rightarrow> database \<Rightarrow> string \<Rightarrow> owned_resource list" where
  "retained env input db d =
     (case active_resources env d db of
        Inl e \<Rightarrow> []
      | Inr rs \<Rightarrow> filter (\<lambda>r. or_device r \<in> set (ri_unreachable_devices input)) rs)"

lemma preserved_resources_retained:
  "preserved_resources env input db d = Inr rs \<Longrightarrow> retained env input db d = rs"
  by (auto simp: preserved_resources_def retained_def result_simps)

lemma compared_resources:
  assumes pres: "preserved_unreachable env input db names = Inr preserved" and d: "d \<in> set names"
  shows "deployment_resources input preserved d = observed_for input d @ retained env input db d"
proof (cases "bt_get preserved d")
  case (Some rs)
  with preserved_get [OF pres Some] show ?thesis
    by (simp add: deployment_resources_def observed_for_def preserved_resources_retained)
next
  case None
  have "retained env input db d = []"
  proof (cases "ri_unreachable_devices input = []")
    case True
    then show ?thesis by (simp add: retained_def split: sum.splits)
  next
    case False
    with pres obtain found where found: "collect_results (preserved_resources env input db) names = Inr found"
      and p: "preserved = filter (\<lambda>(_, rs). rs \<noteq> []) (zip names found)"
      by (auto simp: preserved_unreachable_def result_simps)
    then have maps: "map (preserved_resources env input db) names = map Inr found"
      by (simp add: collect_results_Inr)
    from d obtain i where i: "i < length names" "names ! i = d" by (auto simp: in_set_conv_nth)
    have len: "length found = length names" using map_eq_imp_length_eq [OF maps] by simp
    have "(d, found ! i) \<notin> set preserved"
      using None by (auto simp: map_of_eq_None_iff image_iff)
    moreover have "(d, found ! i) \<in> set (zip names found)"
      using i len by (auto simp: set_zip)
    ultimately have "found ! i = []" by (simp add: p)
    moreover have "map (preserved_resources env input db) names ! i = map Inr found ! i" by (simp only: maps)
    ultimately show ?thesis using i len by (intro preserved_resources_retained) simp
  qed
  with None show ?thesis by (simp add: deployment_resources_def observed_for_def)
qed

text \<open>What a resource looks like when it is read back: only the ownership labels were kept.\<close>

definition stored_form :: "owned_resource \<Rightarrow> owned_resource" where
  "stored_form r =
     (let ls = filter (\<lambda>(key, _). ownership_label key) (or_labels r)
      in r\<lparr>or_labels := ls,
           or_device := (case bt_get ls DEVICE_LABEL of None \<Rightarrow> local_device | Some d \<Rightarrow> d)\<rparr>)"

lemma read_back:
  "json_text_laws env \<Longrightarrow> bt_inv (or_labels r) \<Longrightarrow>
     resource_from_row env (resource_to_row env d at r) = Inr (stored_form r)"
  by (simp add: resource_from_row_def resource_to_row_def ownership_labels_json_def json_text_laws_def
    bt_inv_filter stored_form_def Let_def)

lemma active_resources_after:
  assumes laws: "json_text_laws env" and ls: "\<forall>r\<in>set rs. bt_inv (or_labels r)"
    and rows: "current_rows d db' = map (resource_to_row env d at) rs"
  shows "\<exists>rs'. active_resources env d db' = Inr rs' \<and> mset rs' = image_mset stored_form (mset rs)"
proof -
  let ?g = "\<lambda>row. projr (resource_from_row env row)"
  let ?sorted = "sort_key (\<lambda>row. (rr_kind row, rr_name row, rr_runtime_id row))
      (map (resource_to_row env d at) rs)"
  have "active_rows d db' = ?sorted"
    using rows by (simp add: active_rows_def current_rows_def)
  moreover have "collect_results (resource_from_row env) ?sorted = Inr (map ?g ?sorted)"
    using ls read_back [OF laws] by (intro collect_results_total) auto
  moreover have "mset (map ?g ?sorted) = image_mset stored_form (mset rs)"
    using ls read_back [OF laws] by (auto simp: image_mset.compositionality comp_def intro!: image_mset_cong)
  ultimately show ?thesis by (simp add: active_resources_def)
qed

lemma retained_stored_form:
  assumes inv: "store_inv env db" and laws: "json_text_laws env" and r: "r \<in> set (retained env input db d)"
  shows "stored_form r = r"
proof -
  from r obtain rs where "active_resources env d db = Inr rs" "r \<in> set rs"
    by (cases "active_resources env d db") (auto simp: retained_def)
  then obtain row where row: "row \<in> set (active_rows d db)" "resource_from_row env row = Inr r"
    using collect_results_in unfolding active_resources_def by metis
  then have "resource_ok env (db_deployments db) row"
    using inv by (auto simp: active_rows_def store_inv_def)
  then obtain ls where "bt_inv ls"
    "rr_labels_json row = se_labels_to_string env (filter (\<lambda>(key, _). ownership_label key) ls)"
    by (auto simp: resource_ok_def)
  with row(2) laws show ?thesis
    by (auto simp: resource_from_row_def json_text_laws_def bt_inv_filter result_simps stored_form_def Let_def)
qed

lemma unreachable_diagnostics_clean:
  "unreachable_diagnostics input manifest = [] \<longleftrightarrow>
     (\<forall>m. manifest = Some m \<longrightarrow> fst ` set (gm_remote_projects m) \<inter> set (ri_unreachable_devices input) = {})"
  by (auto simp: unreachable_diagnostics_def filter_empty_conv split: option.splits)

section \<open>Samples\<close>

definition sample_attempt :: "router_apply_status \<Rightarrow> i64 \<Rightarrow> string option \<Rightarrow> router_apply_record" where
  "sample_attempt status v e =
     \<lparr>ra_deployment = ''demo'', ra_router = ''web'', ra_binding = ''app'', ra_operation_id = ''op-1'',
      ra_desired_version = v, ra_desired_checksum = ''d'', ra_version = v, ra_checksum = ''c'',
      ra_status = status, ra_observed_version = Some 1, ra_observed_checksum = Some ''o'',
      ra_transition = StructuredContext ''{}'', ra_error_code = e, ra_recorded_at = v,
      ra_context = StructuredContext ''{}''\<rparr>"

definition sample_attempts :: "router_apply_record list" where
  "sample_attempts = [sample_attempt RaActive 2 None, sample_attempt RaFailed 3 (Some ''router_apply_failed'')]"

lemma sample_attempts_recorded: "\<exists>db. record_attempts sample_store_env sample_attempts empty_database = (Inr (), db)"
proof -
  have ids: "\<not> is_blank ''demo''" "\<not> is_blank ''web''" "\<not> is_blank ''app''" "\<not> is_blank ''c''"
    by code_simp+
  show ?thesis
    by (simp add: sample_attempts_def sample_attempt_def record_router_apply_def ids validate_id_def
      insert_snapshot_def sample_store_env_def empty_database_def snapshot_key_def Let_def)
qed

definition sample_observed :: owned_resource where
  "sample_observed =
     \<lparr>or_kind = Container, or_id = ''c1'', or_name = ''web-1'',
      or_labels = [(DEPLOYMENT_LABEL, ''demo''), (MANAGED_LABEL, ''true''), (RESOURCE_HASH_LABEL, ''r1'')],
      or_state = Some ''running'', or_device = ''local''\<rparr>"

definition sample_input :: reconciliation_input where
  "sample_input =
     \<lparr>ri_manifests = [\<lparr>gm_deployment = ''demo'', gm_definition_hash = ''h1'', gm_resource_hash = ''r1'',
        gm_remote_projects = []\<rparr>],
      ri_resources = [sample_observed], ri_unreachable_devices = []\<rparr>"

lemma sample_labels_built: "\<forall>r\<in>set (ri_resources sample_input). bt_inv (or_labels r)"
  by (simp add: sample_input_def sample_observed_def bt_inv_def label_defs)

lemma sample_names: "reconciled_deployments sample_input empty_database = [''demo'']"
  by code_simp

lemma sample_reconciled: "\<exists>reports db'. reconcile sample_store_env sample_input 5 empty_database = Inr (reports, db')"
proof -
  have "sqlite_nonempty ''demo''" by code_simp
  then show ?thesis
    unfolding reconcile_def sample_names Let_def
    by (simp add: preserved_unreachable_def reconcile_one_def observe_deployment_def
      deployment_event_def replace_resources_def sample_store_env_def sample_input_def empty_database_def Let_def)
qed

section \<open>Properties\<close>

text \<open>
  C30. A router binding shows what the routers acknowledged: after any series of recorded
  attempts, interleaved over any bindings, the current version and checksum of a binding are those
  of its last activating attempt (an attempt that only failed never changes them; before any has
  activated they are the first observed ones), the previous version and checksum are the ones that
  were current when that attempt activated, the desired version and the status are those of the last
  attempt, and the history has gained exactly one entry per attempt, in order.
\<close>

theorem binding_shows_activations:
  assumes "record_attempts env rs db = (Inr (), db')" and "bt_get (db_bindings db) k = None"
    and "of_binding k rs \<noteq> []"
  shows "\<exists>row. bt_get (db_bindings db') k = Some row \<and>
    br_current_version row = current_after ra_version ra_observed_version (of_binding k rs) \<and>
    br_current_checksum row = current_after ra_checksum ra_observed_checksum (of_binding k rs) \<and>
    (\<forall>before r after. of_binding k rs = before @ r # after \<longrightarrow> activates r \<longrightarrow>
       (\<forall>a\<in>set after. \<not> activates a) \<longrightarrow>
       br_previous_version row =
         option_or (current_after ra_version ra_observed_version before) (ra_observed_version r) \<and>
       br_previous_checksum row =
         option_or (current_after ra_checksum ra_observed_checksum before) (ra_observed_checksum r)) \<and>
    br_desired_version row = Some (ra_desired_version (last (of_binding k rs))) \<and>
    br_status row = router_apply_status_str (ra_status (last (of_binding k rs))) \<and>
    db_snapshots db' = db_snapshots db @ map history_entry rs"
proof -
  let ?rs = "of_binding k rs"
  have get: "bt_get (db_bindings db') k = shown None ?rs"
    using record_attempts_effect(1) [OF assms(1), of k] assms(2) by simp
  have last: "shown None ?rs = Some (updated_binding (last ?rs) (shown None (butlast ?rs)))"
    using shown_snoc [of None "butlast ?rs" "last ?rs"] assms(3) by simp
  then obtain row where row: "shown None ?rs = Some row" by blast
  have col: "column f (shown None ?rs) = f row" for f :: "binding_row \<Rightarrow> 'x option"
    by (simp add: row column_def)
  show ?thesis
  proof (intro exI [of _ row] conjI allI impI)
    show "bt_get (db_bindings db') k = Some row" using get row by simp
    show "br_current_version row = current_after ra_version ra_observed_version ?rs"
      using shown_current(1) [of ?rs] by (simp add: row column_def)
    show "br_current_checksum row = current_after ra_checksum ra_observed_checksum ?rs"
      using shown_current(2) [of ?rs] by (simp add: row column_def)
    show "db_snapshots db' = db_snapshots db @ map history_entry rs"
      by (rule record_attempts_effect(2) [OF assms(1)])
    show "br_desired_version row = Some (ra_desired_version (last ?rs))"
      and "br_status row = router_apply_status_str (ra_status (last ?rs))"
      using last row by (auto simp: updated_columns)
    fix before r after
    assume "?rs = before @ r # after" "activates r" "\<forall>a\<in>set after. \<not> activates a"
    then show "br_previous_version row =
         option_or (current_after ra_version ra_observed_version before) (ra_observed_version r)"
      and "br_previous_checksum row =
         option_or (current_after ra_checksum ra_observed_checksum before) (ra_observed_checksum r)"
      using shown_previous [of after r before] row by (auto simp: column_def)
  qed
qed

theorem binding_shows_activations_witness:
  "\<exists>db row. record_attempts sample_store_env sample_attempts empty_database = (Inr (), db) \<and>
     bt_get (db_bindings db) (''demo'', ''web'', ''app'') = Some row \<and>
     br_current_version row = Some 2 \<and> br_status row = ''failed''"
proof -
  obtain db where db: "record_attempts sample_store_env sample_attempts empty_database = (Inr (), db)"
    using sample_attempts_recorded by blast
  have of: "of_binding (''demo'', ''web'', ''app'') sample_attempts = sample_attempts"
    by (simp add: of_binding_def sample_attempts_def sample_attempt_def binding_key_def)
  have "current_after ra_version ra_observed_version sample_attempts = Some 2" by code_simp
  then show ?thesis
    using binding_shows_activations [OF db, of "(''demo'', ''web'', ''app'')"] db
    by (auto simp: of empty_database_def) (auto simp: sample_attempts_def sample_attempt_def)
qed

text \<open>
  C31. Reconciliation reports drift and invents nothing: it changes only observations (the applied
  hash, snapshot and time of every deployment, and all other tables, are as before; the history gains
  only \<open>reconciled\<close> events), it reports on every known deployment once, in order, a report is
  empty exactly when desired, applied and observed state agree and no device of the deployment is
  unreachable, and afterwards the active resources are the observed ones with their ownership labels
  and, verbatim, the earlier ones on unreachable devices.
\<close>

theorem reconcile_reports_drift:
  assumes "json_text_laws env" and "store_inv env db"
    and "\<forall>r\<in>set (ri_resources input). bt_inv (or_labels r)"
    and "reconcile env input at db = Inr (reports, db')"
  shows "observations_only db db' \<and>
    map dc_deployment reports = reconciled_deployments input db \<and>
    (\<forall>report\<in>set reports. \<forall>d manifest. d = dc_deployment report \<longrightarrow>
       manifest = find (\<lambda>m. gm_deployment m = d) (ri_manifests input) \<longrightarrow>
       (dc_diagnostics report = [] \<longleftrightarrow>
          in_sync d (fst (applied_of db d)) manifest (observed_for input d @ retained env input db d) \<and>
          (\<forall>m. manifest = Some m \<longrightarrow>
             fst ` set (gm_remote_projects m) \<inter> set (ri_unreachable_devices input) = {}))) \<and>
    (\<forall>d\<in>set (reconciled_deployments input db). \<exists>rs'.
       active_resources env d db' = Inr rs' \<and>
       mset rs' = image_mset stored_form (mset (observed_for input d)) + mset (retained env input db d))"
proof -
  let ?names = "reconciled_deployments input db"
  obtain preserved where
    pres: "preserved_unreachable env input db ?names = Inr preserved"
    and only: "observations_only db db'"
    and reports: "reports = map (report_for input preserved db) ?names"
    and rows: "\<And>d. d \<in> set ?names \<Longrightarrow>
       current_rows d db' = map (resource_to_row env d at) (deployment_resources input preserved d)"
    using reconcile_effect [OF assms(4)] by blast
  note compared = compared_resources [OF pres]
  have active: "\<exists>rs'. active_resources env d db' = Inr rs' \<and>
       mset rs' = image_mset stored_form (mset (observed_for input d)) + mset (retained env input db d)"
    if d: "d \<in> set ?names" for d
  proof -
    have "image_mset stored_form (mset (retained env input db d)) = mset (retained env input db d)"
      using retained_stored_form [OF assms(2,1)] by (intro multiset.map_ident_strong) auto
    then show ?thesis
      using active_resources_after [OF assms(1) compared_labels [OF assms(1,3) pres] rows [OF d]]
      by (simp add: compared [OF d])
  qed
  have clean: "dc_diagnostics (report_for input preserved db d) = [] \<longleftrightarrow>
      in_sync d (fst (applied_of db d)) (find (\<lambda>m. gm_deployment m = d) (ri_manifests input))
        (observed_for input d @ retained env input db d) \<and>
      (\<forall>m. find (\<lambda>m. gm_deployment m = d) (ri_manifests input) = Some m \<longrightarrow>
         fst ` set (gm_remote_projects m) \<inter> set (ri_unreachable_devices input) = {})"
    if "d \<in> set ?names" for d
    unfolding report_for_def Let_def
    by (simp only: deployment_reconciliation.simps append_is_Nil_conv reconcile_deployment_clean
      unreachable_diagnostics_clean compared [OF that])
  have names: "dc_deployment (report_for input preserved db d) = d" for d
    by (simp add: report_for_def Let_def)
  show ?thesis
    using only active clean names by (auto simp: reports comp_def)
qed

theorem reconcile_reports_drift_witness:
  "\<exists>reports db'. reconcile sample_store_env sample_input 5 empty_database = Inr (reports, db') \<and>
     map dc_deployment reports = [''demo'']"
  using sample_reconciled
    reconcile_reports_drift [OF sample_json_text_laws store_inv_empty sample_labels_built]
  by (metis sample_names)

end
