(* ===== verification/DaemonModel.thy ===== *)
theory DaemonModel
  imports StateQueries StateReports
begin

text \<open>
  The operation side of the daemon: the contract types of \<open>crates/apmpr-daemon/src/contract.rs\<close>
  with the translation of a request into CLI arguments, and from
  \<open>crates/apmpr-daemon/src/server.rs\<close> the event log of an operation, the parsers of the API, the
  conversion of stored operations and the paginated listing \<open>list_operations\<close>.
\<close>

section \<open>Contract\<close>

definition API_VERSION_V1 :: string where "API_VERSION_V1 = ''v1''"
definition LOCK_TTL_MILLIS :: i64 where "LOCK_TTL_MILLIS = 15000"
definition EVENT_CAPACITY :: nat where "EVENT_CAPACITY = 2048"
definition TERMINAL_OPERATION_RETENTION :: nat where "TERMINAL_OPERATION_RETENTION = 64"
definition OPERATION_PAGE_SIZE :: nat where "OPERATION_PAGE_SIZE = 50"

datatype command_kind =
    CmdValidate | CmdPlan | CmdApply | CmdMembership | CmdStatus | CmdRoutes | CmdLogs | CmdOpen
  | CmdDown | CmdCleanup | CmdRunAction | CmdClone

fun segment :: "command_kind \<Rightarrow> string" where
  "segment CmdValidate = ''validate''"
| "segment CmdPlan = ''plan''"
| "segment CmdApply = ''apply''"
| "segment CmdMembership = ''membership''"
| "segment CmdStatus = ''status''"
| "segment CmdRoutes = ''routes''"
| "segment CmdLogs = ''logs''"
| "segment CmdOpen = ''open''"
| "segment CmdDown = ''down''"
| "segment CmdCleanup = ''cleanup''"
| "segment CmdRunAction = ''run-action''"
| "segment CmdClone = ''clone''"

definition mutating :: "command_kind \<Rightarrow> bool" where
  "mutating kind \<longleftrightarrow> kind \<in> set [CmdApply, CmdMembership, CmdOpen, CmdDown, CmdCleanup, CmdClone]"

definition heavy :: "command_kind \<Rightarrow> bool" where
  "heavy kind \<longleftrightarrow> kind \<in> set [CmdApply, CmdClone]"

record api_error_v1 =
  ae_code :: string
  ae_message :: string
  ae_context :: "json option"

definition api_error_new :: "string \<Rightarrow> string \<Rightarrow> api_error_v1" where
  "api_error_new code message = \<lparr>ae_code = code, ae_message = message, ae_context = None\<rparr>"

datatype transition_policy_v1 = TransitionClose | TransitionDrain u64 | TransitionPin

record command_request =
  cq_bundle :: string
  cq_instance :: "string option"
  cq_group :: "string option"
  cq_transition :: "transition_policy_v1 option"
  cq_target :: "string option"
  cq_ui :: "string option"
  cq_routes :: bool
  cq_confirmed :: bool

definition open_instance :: "command_request \<Rightarrow> string option" where
  "open_instance request = option_or (cq_instance request) (cq_ui request)"

definition required :: "string option \<Rightarrow> string \<Rightarrow> api_error_v1 + string" where
  "required value field =
     (case value of
        None \<Rightarrow> Inl (api_error_new ''invalid_request'' (''`'' @ field @ ''` is required''))
      | Some v \<Rightarrow> Inr v)"

fun transition_arguments :: "transition_policy_v1 option \<Rightarrow> string list" where
  "transition_arguments None = []"
| "transition_arguments (Some TransitionClose) = [''--transition'', ''close'']"
| "transition_arguments (Some TransitionPin) = [''--transition'', ''pin'']"
| "transition_arguments (Some (TransitionDrain timeout_ms)) =
     [''--transition'', ''drain'', ''--drain-timeout-ms'', nat_to_string (unat timeout_ms)]"

fun arguments :: "(string \<Rightarrow> string) \<Rightarrow> command_request \<Rightarrow> command_kind \<Rightarrow> api_error_v1 + string list" where
  "arguments lossy request CmdValidate = Inr [''validate'', lossy (cq_bundle request)]"
| "arguments lossy request CmdPlan = Inr [''plan'', lossy (cq_bundle request)]"
| "arguments lossy request CmdApply = Inr [''up'', lossy (cq_bundle request)]"
| "arguments lossy request CmdMembership =
     and_then (required (cq_instance request) ''instance'') (\<lambda>inst.
     and_then (required (cq_group request) ''group'') (\<lambda>group.
     Inr ([''move'', lossy (cq_bundle request), inst, group] @
          transition_arguments (cq_transition request))))"
| "arguments lossy request CmdStatus =
     Inr ([''status'', lossy (cq_bundle request)] @ (if cq_routes request then [''--routes''] else []))"
| "arguments lossy request CmdRoutes = Inr [''routes'', lossy (cq_bundle request)]"
| "arguments lossy request CmdLogs =
     Inr ([''logs'', lossy (cq_bundle request)] @
          (case cq_target request of None \<Rightarrow> [] | Some target \<Rightarrow> [target]))"
| "arguments lossy request CmdOpen =
     and_then (required (open_instance request) ''instance'') (\<lambda>inst.
     Inr [''open'', lossy (cq_bundle request), inst])"
| "arguments lossy request CmdDown = Inr [''down'', lossy (cq_bundle request)]"
| "arguments lossy request CmdCleanup =
     Inr ([''cleanup'', lossy (cq_bundle request)] @ (if cq_confirmed request then [''--yes''] else []))"
| "arguments lossy request CmdRunAction =
     Inl (api_error_new ''invalid_request'' ''run actions use the dedicated run-action endpoint'')"
| "arguments lossy request CmdClone =
     Inl (api_error_new ''invalid_request'' ''clone operations use the sources clone endpoint'')"

fun terminal :: "operation_status \<Rightarrow> bool" where
  "terminal OpPending = False"
| "terminal OpRunning = False"
| "terminal OpSucceeded = True"
| "terminal OpFailed = True"
| "terminal OpCancelled = True"

record command_result =
  cr_exit_code :: int
  cr_stdout :: string
  cr_stderr :: string

record operation_v1 =
  ov_api_version :: string
  ov_id :: string
  ov_deployment :: string
  ov_instance :: "string option"
  ov_kind :: command_kind
  ov_destructive :: bool
  ov_status :: operation_status
  ov_started_at :: i64
  ov_finished_at :: "i64 option"
  ov_error :: "api_error_v1 option"
  ov_result :: "command_result option"

record operations_v1 =
  opsv_api_version :: string
  opsv_operations :: "operation_v1 list"
  opsv_next_cursor :: "string option"

section \<open>Event log\<close>

datatype event_kind_v1 = OperationEvent | BuildEvent | HealthEvent | RouteEvent | LogEvent

record event_v1 =
  e1_id :: u64
  e1_operation_id :: string
  e1_kind :: event_kind_v1
  e1_timestamp :: i64
  e1_data :: json

record event_log =
  el_events :: "event_v1 list"
  el_next_id :: u64
  el_terminal :: bool

definition event_log_new :: event_log where
  "event_log_new = \<lparr>el_events = [], el_next_id = 1, el_terminal = False\<rparr>"

definition saturating_succ :: "u64 \<Rightarrow> u64" where
  "saturating_succ n = (if n = - 1 then n else n + 1)"

definition new_event :: "string \<times> event_kind_v1 \<times> i64 \<times> json \<Rightarrow> event_log \<Rightarrow> event_v1" where
  "new_event e log =
     (case e of (operation_id, kind, now, data) \<Rightarrow>
        \<lparr>e1_id = el_next_id log, e1_operation_id = operation_id, e1_kind = kind, e1_timestamp = now,
         e1_data = data\<rparr>)"

definition log_emit :: "string \<times> event_kind_v1 \<times> i64 \<times> json \<Rightarrow> event_log \<Rightarrow> event_log" where
  "log_emit e log =
     log\<lparr>el_next_id := saturating_succ (el_next_id log),
         el_events := push_bounded EVENT_CAPACITY (new_event e log) (el_events log)\<rparr>"

definition log_finish :: "event_log \<Rightarrow> event_log" where
  "log_finish log = log\<lparr>el_terminal := True\<rparr>"

datatype next_event = NextEvent event_v1 | EndOfStream | WaitForEvent

definition next_after :: "u64 \<Rightarrow> event_log \<Rightarrow> next_event" where
  "next_after after log =
     (case find (\<lambda>e. after < e1_id e) (el_events log) of
        Some e \<Rightarrow> NextEvent e
      | None \<Rightarrow> if el_terminal log then EndOfStream else WaitForEvent)"

interpretation daemon_log: bounded_log el_events "\<lambda>_. EVENT_CAPACITY" new_event log_emit
  by unfold_locales (auto simp: log_emit_def EVENT_CAPACITY_def push_bounded_last_n)

section \<open>Kinds and statuses\<close>

definition command_kinds :: "command_kind list" where
  "command_kinds = [CmdValidate, CmdPlan, CmdApply, CmdMembership, CmdStatus, CmdRoutes, CmdLogs,
     CmdOpen, CmdDown, CmdCleanup, CmdRunAction, CmdClone]"

definition parse_kind :: "string \<Rightarrow> command_kind option" where
  "parse_kind value = find (\<lambda>kind. segment kind = value) command_kinds"

definition parse_operation_status :: "string \<Rightarrow> operation_status option" where
  "parse_operation_status value =
     (if value = ''pending'' then Some OpPending
      else if value = ''running'' then Some OpRunning
      else if value = ''succeeded'' then Some OpSucceeded
      else if value = ''failed'' then Some OpFailed
      else if value = ''cancelled'' then Some OpCancelled
      else None)"

definition operation_is_destructive :: "command_kind \<Rightarrow> bool" where
  "operation_is_destructive kind \<longleftrightarrow> kind \<in> set [CmdDown, CmdCleanup]"

definition stored_operation_kind :: "command_kind \<Rightarrow> string" where
  "stored_operation_kind kind = (if kind = CmdDown then ''stop'' else segment kind)"

fun state_kind :: "command_kind \<Rightarrow> operation_kind" where
  "state_kind CmdApply = ApplyOp"
| "state_kind CmdMembership = Membership"
| "state_kind CmdDown = Stop"
| "state_kind CmdCleanup = Cleanup"
| "state_kind other = Other (segment other)"

definition operation_from_stored ::
  "(string \<Rightarrow> string + json) \<Rightarrow> stored_operation \<Rightarrow> api_error_v1 + operation_v1" where
  "operation_from_stored from_str stored =
     (case parse_kind (if so_kind stored = ''start'' then ''apply''
                       else if so_kind stored = ''stop'' then ''down'' else so_kind stored) of
        None \<Rightarrow> Inl (api_error_new ''stored_operation_invalid'' ''unknown stored operation kind'')
      | Some kind \<Rightarrow>
          (case parse_operation_status (so_status stored) of
             None \<Rightarrow> Inl (api_error_new ''stored_operation_invalid'' ''unknown stored operation status'')
           | Some status \<Rightarrow>
               Inr \<lparr>ov_api_version = API_VERSION_V1, ov_id = so_id stored,
                    ov_deployment = so_deployment stored, ov_instance = so_instance stored,
                    ov_kind = kind, ov_destructive = operation_is_destructive kind, ov_status = status,
                    ov_started_at = so_started_at stored, ov_finished_at = so_finished_at stored,
                    ov_error = map_option (\<lambda>code.
                      \<lparr>ae_code = code, ae_message = ''operation recorded a terminal error'',
                       ae_context = (case so_error_context_json stored of
                          None \<Rightarrow> None
                        | Some text' \<Rightarrow>
                            (case from_str text' of Inl _ \<Rightarrow> None | Inr value \<Rightarrow> Some value))\<rparr>)
                      (so_error_code stored),
                    ov_result = None\<rparr>))"

section \<open>Listing\<close>

record operations_query =
  qq_deployment :: "string option"
  qq_instance :: "string option"
  qq_kind :: "string option"
  qq_status :: "string option"
  qq_cursor :: "string option"

definition store_query :: "operations_query \<Rightarrow> command_kind option \<Rightarrow> operation_query" where
  "store_query query kind =
     \<lparr>oq_deployment = qq_deployment query, oq_instance = qq_instance query,
      oq_kind = map_option stored_operation_kind kind, oq_status = qq_status query,
      oq_cursor = qq_cursor query, oq_limit = word_of_nat (OPERATION_PAGE_SIZE + 1)\<rparr>"

definition list_operations ::
  "store_env \<Rightarrow> operations_query \<Rightarrow> database \<Rightarrow> (nat \<times> api_error_v1) + operations_v1" where
  "list_operations env query db =
     and_then (case qq_kind query of
                 None \<Rightarrow> Inr None
               | Some value \<Rightarrow>
                   (case parse_kind value of
                      None \<Rightarrow> Inl (400, api_error_new ''invalid_operation_kind'' ''unknown operation kind filter'')
                    | Some kind \<Rightarrow> Inr (Some kind))) (\<lambda>kind.
     and_then (reject_if (\<exists>status\<in>set_option (qq_status query). parse_operation_status status = None)
        (400, api_error_new ''invalid_operation_status'' ''unknown operation status filter'')) (\<lambda>_.
     case operations (store_query query kind) db of
       Inl e \<Rightarrow>
         if state_error_code e = ''operation_cursor_not_found''
         then Inl (400, api_error_new (state_error_code e) (state_error_text e))
         else Inl (500, api_error_new (state_error_code e) (state_error_text e))
     | Inr stored \<Rightarrow>
         let has_more = OPERATION_PAGE_SIZE < length stored;
             page = take OPERATION_PAGE_SIZE stored;
             next_cursor = (if has_more \<and> page \<noteq> [] then Some (so_id (last page)) else None)
         in case collect_results (operation_from_stored (se_from_str env)) page of
              Inl e \<Rightarrow> Inl (500, e)
            | Inr ops \<Rightarrow>
                Inr \<lparr>opsv_api_version = API_VERSION_V1, opsv_operations = ops, opsv_next_cursor = next_cursor\<rparr>))"

section \<open>Following the cursor\<close>

text \<open>A client that asks for the next page until there is none; \<open>fuel\<close> bounds the requests.\<close>

fun follow :: "nat \<Rightarrow> store_env \<Rightarrow> operations_query \<Rightarrow> database \<Rightarrow> operation_v1 list option" where
  "follow 0 env query db = None"
| "follow (Suc fuel) env query db =
     (case list_operations env query db of
        Inl e \<Rightarrow> None
      | Inr page \<Rightarrow>
          (case opsv_next_cursor page of
             None \<Rightarrow> Some (opsv_operations page)
           | Some c \<Rightarrow>
               map_option (\<lambda>rest. opsv_operations page @ rest)
                 (follow fuel env (query\<lparr>qq_cursor := Some c\<rparr>) db)))"

lemma parse_kind_segment [simp]: "parse_kind (segment kind) = Some kind"
  by (cases kind) (simp_all add: parse_kind_def command_kinds_def)

lemma parse_operation_status_str [simp]: "parse_operation_status (operation_status_str s) = Some s"
  by (cases s) (simp_all add: parse_operation_status_def)

lemma state_kind_str: "operation_kind_str (state_kind kind) = stored_operation_kind kind"
  by (cases kind) (simp_all add: stored_operation_kind_def)

lemma stored_kind_parses:
  "parse_kind (if stored_operation_kind kind = ''start'' then ''apply''
     else if stored_operation_kind kind = ''stop'' then ''down'' else stored_operation_kind kind) = Some kind"
  by (cases kind) (simp_all add: stored_operation_kind_def parse_kind_def command_kinds_def)

lemma page_limit_ok: "limit_ok (oq_limit (store_query q kind))"
  by (simp add: limit_ok_def store_query_def OPERATION_PAGE_SIZE_def)

lemma store_query_cursor:
  "oq_cursor (store_query q kind) = qq_cursor q"
  "listing (store_query (q\<lparr>qq_cursor := c\<rparr>) kind) = listing (store_query q kind)"
proof -
  show "oq_cursor (store_query q kind) = qq_cursor q" by (simp add: store_query_def)
  have "store_query (q\<lparr>qq_cursor := c\<rparr>) kind = (store_query q kind)\<lparr>oq_cursor := c\<rparr>"
    by (simp add: store_query_def)
  then show "listing (store_query (q\<lparr>qq_cursor := c\<rparr>) kind) = listing (store_query q kind)" by simp
qed

definition filters_ok :: "operations_query \<Rightarrow> bool" where
  "filters_ok q \<longleftrightarrow> (\<forall>v\<in>set_option (qq_kind q). parse_kind v \<noteq> None) \<and>
     (\<forall>v\<in>set_option (qq_status q). parse_operation_status v \<noteq> None)"

definition kind_filter :: "operations_query \<Rightarrow> command_kind option" where
  "kind_filter q = (case qq_kind q of None \<Rightarrow> None | Some v \<Rightarrow> parse_kind v)"

text \<open>Every operation that matches the filters, newest first, as the API shows it.\<close>

definition readable :: "store_env \<Rightarrow> database \<Rightarrow> bool" where
  "readable env db \<longleftrightarrow>
     (\<forall>k row. bt_get (db_operations db) k = Some row \<longrightarrow> \<not> isl (operation_from_stored (se_from_str env) row))"

definition shown_operation :: "store_env \<Rightarrow> stored_operation \<Rightarrow> operation_v1" where
  "shown_operation env row = projr (operation_from_stored (se_from_str env) row)"

lemma list_operations_page:
  assumes ok: "filters_ok q"
    and page: "operations (store_query q (kind_filter q)) db = Inr (take 51 ys)"
    and conv: "\<And>o'. o' \<in> set ys \<Longrightarrow> operation_from_stored (se_from_str env) o' = Inr (shown_operation env o')"
  shows "list_operations env q db =
     Inr \<lparr>opsv_api_version = API_VERSION_V1, opsv_operations = map (shown_operation env) (take 50 ys),
          opsv_next_cursor = (if 50 < length ys then Some (so_id (last (take 50 ys))) else None)\<rparr>"
proof -
  have "(case qq_kind q of
          None \<Rightarrow> Inr None
        | Some value \<Rightarrow>
            (case parse_kind value of
               None \<Rightarrow> Inl (400 :: nat, api_error_new ''invalid_operation_kind'' ''unknown operation kind filter'')
             | Some kind \<Rightarrow> Inr (Some kind))) = Inr (kind_filter q)"
    using ok by (auto simp: filters_ok_def kind_filter_def split: option.splits)
  moreover have "\<not> (\<exists>status\<in>set_option (qq_status q). parse_operation_status status = None)"
    using ok by (auto simp: filters_ok_def)
  moreover have "collect_results (operation_from_stored (se_from_str env)) (take 50 ys) =
      Inr (map (shown_operation env) (take 50 ys))"
    using conv by (intro collect_results_total) (auto dest: in_set_takeD)
  ultimately show ?thesis
    using page by (auto simp: list_operations_def reject_if_def OPERATION_PAGE_SIZE_def Let_def min_def)
qed

lemma stored_page:
  assumes inv: "store_inv env db" and split: "listing (store_query q k) db = xs @ ys"
    and cur: "qq_cursor q = (if xs = [] then None else Some (so_id (last xs)))"
  shows "operations (store_query q k) db = Inr (take 51 ys)"
proof -
  have lim: "unat (oq_limit (store_query q k)) = 51"
    by (simp add: store_query_def OPERATION_PAGE_SIZE_def)
  show ?thesis
  proof (cases "xs = []")
    case True
    then show ?thesis
      using operations_first_page [OF page_limit_ok, of q k db] cur split lim store_query_cursor(1) [of q k] by simp
  next
    case False
    then have "listing (store_query q k) db = butlast xs @ last xs # ys"
      using split by simp
    from operations_next_page [OF inv page_limit_ok _ this] show ?thesis
      using cur False lim store_query_cursor(1) [of q k] by simp
  qed
qed

lemma follow_rest:
  assumes inv: "store_inv env db" and ok: "filters_ok q" and read: "readable env db"
    and split: "listing (store_query q (kind_filter q)) db = xs @ ys"
    and cur: "qq_cursor q = (if xs = [] then None else Some (so_id (last xs)))"
    and fuel: "length ys < fuel"
  shows "follow fuel env q db = Some (map (shown_operation env) ys)"
  using ok split cur fuel
proof (induction fuel arbitrary: q xs ys)
  case 0
  then show ?case by simp
next
  case (Suc fuel)
  have conv: "operation_from_stored (se_from_str env) o' = Inr (shown_operation env o')" if "o' \<in> set ys" for o'
    using read listing_stored [OF inv, of o' "store_query q (kind_filter q)"] that Suc.prems(2)
    by (auto simp: readable_def shown_operation_def)
  note page = list_operations_page [OF Suc.prems(1) stored_page [OF inv Suc.prems(2,3)] conv]
  show ?case
  proof (cases "50 < length ys")
    case False
    then show ?thesis by (simp add: page)
  next
    case True
    let ?c = "so_id (last (take 50 ys))"
    let ?q = "q\<lparr>qq_cursor := Some ?c\<rparr>"
    have "take 50 ys \<noteq> []" using True by auto
    then have last: "last (xs @ take 50 ys) = last (take 50 ys)" by simp
    have "follow fuel env ?q db = Some (map (shown_operation env) (drop 50 ys))"
    proof (rule Suc.IH)
      show "filters_ok ?q" using Suc.prems(1) by (simp add: filters_ok_def)
      show "listing (store_query ?q (kind_filter ?q)) db = (xs @ take 50 ys) @ drop 50 ys"
        using Suc.prems(2) by (simp add: store_query_cursor kind_filter_def)
      show "qq_cursor ?q = (if xs @ take 50 ys = [] then None else Some (so_id (last (xs @ take 50 ys))))"
        using \<open>take 50 ys \<noteq> []\<close> last by auto
      show "length (drop 50 ys) < fuel" using Suc.prems(4) True by auto
    qed
    then show ?thesis
      using True by (simp add: page flip: map_append)
  qed
qed

section \<open>Samples\<close>

definition sample_operation :: operation_record where
  "sample_operation =
     \<lparr>op_id = ''op-1'', op_deployment = ''demo'', op_instance = None, op_kind = state_kind CmdDown,
      op_status = OpPending, op_started_at = 5, op_finished_at = None, op_error = None\<rparr>"

definition sample_operation_row :: stored_operation where
  "sample_operation_row =
     \<lparr>so_id = ''op-1'', so_deployment = ''demo'', so_instance = None, so_kind = ''stop'',
      so_status = ''pending'', so_started_at = 5, so_finished_at = None, so_error_code = None,
      so_error_context_json = None\<rparr>"

definition sample_operations_db :: database where
  "sample_operations_db = empty_database\<lparr>db_operations := [(''op-1'', sample_operation_row)]\<rparr>"

lemma sample_operation_started: "start_operation sample_store_env sample_operation empty_database = Inr ((), sample_operations_db)"
proof -
  have "\<not> is_blank ''op-1''" "\<not> is_blank ''demo''" by code_simp+
  then show ?thesis
    by (simp add: start_operation_def sample_operation_def validate_id_def error_json_ok_def error_columns_def
      empty_database_def sample_operations_db_def sample_operation_row_def bt_insert_def)
qed

lemma sample_operations_inv: "store_inv sample_store_env sample_operations_db"
  using start_operation_inv [OF store_inv_empty sample_operation_started] by (simp add: sample_operation_def)

lemma sample_readable: "readable sample_store_env sample_operations_db"
  by (simp add: readable_def sample_operations_db_def operation_from_stored_def sample_operation_row_def
    parse_kind_def command_kinds_def parse_operation_status_def)

definition sample_query :: operations_query where
  "sample_query = \<lparr>qq_deployment = Some ''demo'', qq_instance = None, qq_kind = Some ''down'',
     qq_status = None, qq_cursor = None\<rparr>"

section \<open>Properties\<close>

text \<open>
  C29. The operation listing of the API loses and repeats nothing: with valid filters, a client
  that follows \<open>next_cursor\<close> from the first page until there is none gets, page after page,
  exactly the stored operations that match the filters, each once and newest first; one more
  request than there are operations always suffices.
\<close>

theorem pages_list_every_operation:
  assumes "store_inv env db" and "readable env db" and "filters_ok q" and "qq_cursor q = None"
  shows "\<exists>rows. follow (Suc (length rows)) env q db = Some (map (shown_operation env) rows) \<and>
    set rows = {row. (\<exists>k. bt_get (db_operations db) k = Some row) \<and> query_matches (store_query q (kind_filter q)) row} \<and>
    sorted_wrt (\<lambda>a b. operation_order b < operation_order a) rows"
proof (intro exI conjI)
  let ?rows = "listing (store_query q (kind_filter q)) db"
  show "follow (Suc (length ?rows)) env q db = Some (map (shown_operation env) ?rows)"
    by (rule follow_rest [OF assms(1,3,2), of "[]"]) (simp_all add: assms(4))
  show "sorted_wrt (\<lambda>a b. operation_order b < operation_order a) ?rows"
    by (rule listing_strict [OF assms(1)])
  have inv: "bt_inv (db_operations db)"
    using store_inv_tables(6) [OF assms(1)] by (simp add: table_all_def)
  show "set ?rows = {row. (\<exists>k. bt_get (db_operations db) k = Some row) \<and>
      query_matches (store_query q (kind_filter q)) row}"
    by (auto simp: listing_def newest_first_def bt.entries_get [OF inv, symmetric] image_iff)
      (metis snd_conv)
qed

theorem pages_list_every_operation_witness:
  "\<exists>rows. follow (Suc (length rows)) sample_store_env sample_query sample_operations_db =
     Some (map (shown_operation sample_store_env) rows) \<and> sample_operation_row \<in> set rows"
proof -
  have "filters_ok sample_query" "qq_cursor sample_query = None" by code_simp+
  moreover have "query_matches (store_query sample_query (kind_filter sample_query)) sample_operation_row"
    by code_simp
  ultimately show ?thesis
    using pages_list_every_operation [OF sample_operations_inv sample_readable, of sample_query]
    by (auto simp: sample_operations_db_def)
qed

end
