(* ===== verification/LiveBinding.thy ===== *)
theory LiveBinding
  imports ConfigEncoding DaemonModel
begin

text \<open>
  The live move of an instance into another group (\<open>apmpr-daemon/src/server.rs\<close>,
  \<open>apply_live_binding_with_admin\<close>): the routers whose configuration changes are updated one
  after the other over the administration channel, every attempt is recorded, and when one of
  them fails the routers updated so far are put back. The planner, the files and the clock are
  parameters; the routers are reached through the client of theory RouterClient.
\<close>

section \<open>Targets and environment\<close>

record router_target =
  tg_id :: string
  tg_route_instance :: "string option"
  tg_endpoint :: admin_endpoint
  tg_old :: router_config
  tg_candidate :: router_config

text \<open>What the planner hands over: \<open>DeploymentPlan\<close> as far as the move reads and updates it.\<close>

record sidecar_plan =
  sp_service :: string
  sp_admin_socket :: string

record live_plan =
  pl_deployment :: string
  pl_resource_hash :: string
  pl_artifact_dir :: string
  pl_route_configs :: "(string, string) btree"
  pl_sidecars :: "(string, sidecar_plan) btree"
  pl_host_router_config :: "string option"

record live_env =
  le_store :: store_env
  le_now :: i64
  le_digest :: "router_config \<Rightarrow> string"
  le_transitions_json :: "connection_transition_policies \<Rightarrow> json"
  le_cancelled :: "nat \<Rightarrow> bool"

record live_operation =
  lo_deployment :: string
  lo_consumer :: string
  lo_operation_id :: string
  lo_transition :: "transition_policy_v1 option"

section \<open>Configurations\<close>

abbreviation snapshot_of :: "router_config \<Rightarrow> route_snapshot" where
  "snapshot_of c \<equiv> spec_snapshot (config_spec c)"

definition with_snapshot :: "(route_snapshot \<Rightarrow> route_snapshot) \<Rightarrow> router_config \<Rightarrow> router_config" where
  "with_snapshot f c = c\<lparr>config_spec := (config_spec c)\<lparr>spec_snapshot := f (snapshot_of c)\<rparr>\<rparr>"

fun connection_policy :: "transition_policy_v1 \<Rightarrow> connection_transition_policy" where
  "connection_policy TransitionClose = Close"
| "connection_policy (TransitionDrain timeout_ms) = Drain timeout_ms"
| "connection_policy TransitionPin = Pin"

definition set_transition :: "transition_policy_v1 option \<Rightarrow> router_config \<Rightarrow> router_config" where
  "set_transition tr c =
     (case tr of
        None \<Rightarrow> c
      | Some t \<Rightarrow>
          (let p = connection_policy t
           in with_snapshot (\<lambda>s. s\<lparr>snapshot_transitions :=
                \<lparr>tp_http = p, tp_https = p, tp_websocket = p, tp_grpc = p, tp_tcp = p\<rparr>\<rparr>) c))"

text \<open>\<open>candidate.spec.snapshot.version = version; candidate.spec.snapshot.id = \<dots>\<close>\<close>

definition stamp :: "string \<Rightarrow> string \<Rightarrow> u64 \<Rightarrow> router_config \<Rightarrow> router_config" where
  "stamp router what v c =
     with_snapshot (\<lambda>s. s\<lparr>snapshot_version := v,
       snapshot_id := map (\<lambda>x. if x = CHR '':'' then CHR ''-'' else x) router @ ''-'' @ what @ ''-'' @
         nat_to_string (unat v)\<rparr>) c"

definition u64_checked_succ :: "u64 \<Rightarrow> u64 option" where
  "u64_checked_succ v = (if unat v + 1 < 2 ^ 64 then Some (v + 1) else None)"

section \<open>Attempt records\<close>

definition version_range_error :: api_error_v1 where
  "version_range_error = api_error_new ''snapshot_version_exhausted'' ''version exceeds SQLite range''"

definition sqlite_version :: "u64 \<Rightarrow> api_error_v1 + i64" where
  "sqlite_version v = (case u64_to_i64 v of None \<Rightarrow> Inl version_range_error | Some i \<Rightarrow> Inr i)"

definition state_api_error :: "state_error \<Rightarrow> api_error_v1" where
  "state_api_error e = api_error_new (state_error_code e) (state_error_text e)"

definition router_attempt ::
  "live_env \<Rightarrow> live_operation \<Rightarrow> router_target \<Rightarrow> u64 \<Rightarrow> string \<Rightarrow> router_apply_status
     \<Rightarrow> (u64 \<times> string) option \<Rightarrow> structured_context \<Rightarrow> string option \<Rightarrow> json
     \<Rightarrow> api_error_v1 + router_apply_record" where
  "router_attempt env lo t v checksum status seen tr failure_code context =
     and_then (sqlite_version (config_version (tg_candidate t))) (\<lambda>desired.
     and_then (sqlite_version v) (\<lambda>vsn.
     and_then (case seen of
                 None \<Rightarrow> Inr None
               | Some (w, _) \<Rightarrow> and_then (sqlite_version w) (\<lambda>i. Inr (Some i))) (\<lambda>seen_version.
     (case structured_context_new (le_store env) context of
        Inl e \<Rightarrow> Inl (state_api_error e)
      | Inr ctx \<Rightarrow> Inr
          \<lparr>ra_deployment = lo_deployment lo, ra_router = tg_id t, ra_binding = lo_consumer lo,
           ra_operation_id = lo_operation_id lo, ra_desired_version = desired,
           ra_desired_checksum = le_digest env (tg_candidate t), ra_version = vsn,
           ra_checksum = checksum, ra_status = status, ra_observed_version = seen_version,
           ra_observed_checksum = map_option snd seen, ra_transition = tr,
           ra_error_code = failure_code, ra_recorded_at = le_now env, ra_context = ctx\<rparr>))))"

definition i64_saturated :: "u64 \<Rightarrow> i64" where
  "i64_saturated v = (case u64_to_i64 v of None \<Rightarrow> 2 ^ 63 - 1 | Some i \<Rightarrow> i)"

definition rollback_attempt ::
  "live_env \<Rightarrow> live_operation \<Rightarrow> router_target \<Rightarrow> u64 \<Rightarrow> string \<Rightarrow> router_apply_status
     \<Rightarrow> (u64 \<times> string) option \<Rightarrow> structured_context \<Rightarrow> string option \<Rightarrow> json \<Rightarrow> router_apply_record" where
  "rollback_attempt env lo t v checksum status seen tr failure_code context =
     (case router_attempt env lo t v checksum status seen tr failure_code context of
        Inr a \<Rightarrow> a
      | Inl error \<Rightarrow>
          \<lparr>ra_deployment = lo_deployment lo, ra_router = tg_id t, ra_binding = lo_consumer lo,
           ra_operation_id = lo_operation_id lo,
           ra_desired_version = i64_saturated (config_version (tg_candidate t)),
           ra_desired_checksum = le_digest env (tg_candidate t), ra_version = i64_saturated v,
           ra_checksum = checksum, ra_status = RaFailed,
           ra_observed_version = map_option (i64_saturated \<circ> fst) seen,
           ra_observed_checksum = map_option snd seen, ra_transition = tr,
           ra_error_code = Some (case failure_code of
             None \<Rightarrow> ''rollback_attempt_record_failed'' | Some code \<Rightarrow> code),
           ra_recorded_at = le_now env,
           ra_context =
             (case structured_context_new (le_store env)
                     (jobj [(''recordingErrorCode'', JStr (ae_code error)),
                            (''message'', JStr (ae_message error))]) of
                Inr ctx \<Rightarrow> ctx
              | Inl _ \<Rightarrow> StructuredContext (se_to_string (le_store env) (JObj [])))\<rparr>)"

section \<open>Applying the candidates\<close>

record 'w live_state =
  ls_net :: 'w
  ls_attempts :: "router_apply_record list"
  ls_applied :: "(nat \<times> snapshot_identity_v1) list"
  ls_acks :: "(string \<times> apply_acknowledgement) list"
  ls_events :: "(event_kind_v1 \<times> json) list"

definition acknowledgement_json :: "apply_acknowledgement \<Rightarrow> json" where
  "acknowledgement_json ack =
     ack_body (aa_version ack) (aa_checksum ack) (status_text (aa_status ack))"

definition message_json :: "string \<Rightarrow> json" where
  "message_json m = jobj [(''message'', JStr m)]"

text \<open>The acknowledgement the router must give for exactly the configuration sent.\<close>

definition acknowledges :: "u64 \<Rightarrow> string \<Rightarrow> apply_acknowledgement \<Rightarrow> bool" where
  "acknowledges v checksum ack \<longleftrightarrow>
     aa_version ack = v \<and> aa_checksum ack = checksum \<and> aa_status ack = Activated"

text \<open>The arms of the \<open>match\<close> on the answer: status, error code, context, and the failure.\<close>

definition apply_verdict ::
  "string \<Rightarrow> u64 \<Rightarrow> string \<Rightarrow> admin_error + apply_acknowledgement
     \<Rightarrow> router_apply_status \<times> string option \<times> json \<times> string option" where
  "apply_verdict router v checksum ans =
     (case ans of
        Inr ack \<Rightarrow>
          if acknowledges v checksum ack
          then (RaActive, None, jobj [(''acknowledgement'', acknowledgement_json ack)], None)
          else (RaFailed, Some ''acknowledgement_mismatch'',
                jobj [(''acknowledgement'', acknowledgement_json ack)],
                Some (''router '' @ router @ '' returned a non-activating acknowledgement''))
      | Inl error \<Rightarrow>
          (if rejection_code error = Some ''provider_unhealthy'' then RaRolledBack else RaFailed,
           option_or (rejection_code error) (Some ''router_apply_failed''),
           (case rejection_details error of
              Some details \<Rightarrow> details | None \<Rightarrow> message_json (admin_error_text error)),
           Some (admin_error_text error)))"

definition stamped_target :: "u64 \<Rightarrow> router_target \<Rightarrow> router_target" where
  "stamped_target v t = t\<lparr>tg_candidate := stamp (tg_id t) ''membership'' v (tg_candidate t)\<rparr>"

definition pending_event :: "live_operation \<Rightarrow> string \<Rightarrow> u64 \<Rightarrow> event_kind_v1 \<times> json" where
  "pending_event lo router v =
     (RouteEvent, jobj [(''router'', JStr router), (''instance'', JStr (lo_consumer lo)),
        (''desiredVersion'', JUInt v), (''status'', JStr ''pending'')])"

text \<open>
  One iteration for a target that is not cancelled; the result is \<open>Inl\<close> for an early return of
  the whole function, \<open>Inr (Some failure)\<close> for a \<open>break\<close>, \<open>Inr None\<close> to go on.
\<close>

definition apply_target ::
  "live_env \<Rightarrow> live_operation \<Rightarrow> (admin_endpoint \<Rightarrow> 'w \<Rightarrow> (admin_error + snapshot_identity_v1) \<times> 'w)
     \<Rightarrow> (admin_endpoint \<Rightarrow> router_config \<Rightarrow> 'w \<Rightarrow> (admin_error + apply_acknowledgement) \<times> 'w)
     \<Rightarrow> structured_context \<Rightarrow> nat \<Rightarrow> router_target \<Rightarrow> 'w live_state
     \<Rightarrow> (api_error_v1 + string option) \<times> router_target \<times> 'w live_state" where
  "apply_target env lo current app ctx i t s =
     (case current (tg_endpoint t) (ls_net s) of
        (Inl error, w) \<Rightarrow>
          (case router_attempt env lo t (config_version (tg_candidate t)) (le_digest env (tg_candidate t))
                  RaFailed None ctx (Some ''router_unreachable'') (message_json (admin_error_text error)) of
             Inl e \<Rightarrow> (Inl e, t, s\<lparr>ls_net := w\<rparr>)
           | Inr a \<Rightarrow> (Inr (Some (admin_error_text error)), t,
                        s\<lparr>ls_net := w, ls_attempts := ls_attempts s @ [a]\<rparr>))
      | (Inr seen, w) \<Rightarrow>
          (case u64_checked_succ (si_version seen) of
             None \<Rightarrow> (Inl (api_error_new ''snapshot_version_exhausted'' ''router snapshot version is exhausted''),
                      t, s\<lparr>ls_net := w\<rparr>)
           | Some v \<Rightarrow>
               (let t = stamped_target v t;
                    checksum = le_digest env (tg_candidate t);
                    s = s\<lparr>ls_events := ls_events s @ [pending_event lo (tg_id t) v]\<rparr>
                in case app (tg_endpoint t) (tg_candidate t) w of
                     (ans, w) \<Rightarrow>
                       (case apply_verdict (tg_id t) v checksum ans of
                          (status, code, context, failure) \<Rightarrow>
                            (case router_attempt env lo t v checksum status
                                    (Some (si_version seen, si_checksum seen)) ctx code context of
                               Inl e \<Rightarrow> (Inl e, t, s\<lparr>ls_net := w\<rparr>)
                             | Inr a \<Rightarrow>
                                 (case (failure, ans) of
                                    (None, Inr ack) \<Rightarrow>
                                      (Inr None, t, s\<lparr>ls_net := w, ls_attempts := ls_attempts s @ [a],
                                         ls_acks := ls_acks s @ [(tg_id t, ack)],
                                         ls_applied := ls_applied s @ [(i, seen)]\<rparr>)
                                  | _ \<Rightarrow> (Inr failure, t,
                                      s\<lparr>ls_net := w, ls_attempts := ls_attempts s @ [a]\<rparr>)))))))"

fun apply_targets ::
  "live_env \<Rightarrow> live_operation \<Rightarrow> (admin_endpoint \<Rightarrow> 'w \<Rightarrow> (admin_error + snapshot_identity_v1) \<times> 'w)
     \<Rightarrow> (admin_endpoint \<Rightarrow> router_config \<Rightarrow> 'w \<Rightarrow> (admin_error + apply_acknowledgement) \<times> 'w)
     \<Rightarrow> structured_context \<Rightarrow> nat \<Rightarrow> router_target list \<Rightarrow> 'w live_state
     \<Rightarrow> (api_error_v1 + string option) \<times> router_target list \<times> 'w live_state" where
  "apply_targets env lo current app ctx i [] s = (Inr None, [], s)"
| "apply_targets env lo current app ctx i (t # ts) s =
     (if le_cancelled env i then (Inr (Some ''operation was cancelled''), t # ts, s)
      else case apply_target env lo current app ctx i t s of
             (Inr None, t, s) \<Rightarrow>
               (case apply_targets env lo current app ctx (Suc i) ts s of (r, ts, s) \<Rightarrow> (r, t # ts, s))
           | (r, t, s) \<Rightarrow> (r, t # ts, s))"

section \<open>Rolling back\<close>

definition rollback_target ::
  "live_env \<Rightarrow> live_operation \<Rightarrow> (admin_endpoint \<Rightarrow> 'w \<Rightarrow> (admin_error + snapshot_identity_v1) \<times> 'w)
     \<Rightarrow> (admin_endpoint \<Rightarrow> router_config \<Rightarrow> 'w \<Rightarrow> (admin_error + apply_acknowledgement) \<times> 'w)
     \<Rightarrow> structured_context \<Rightarrow> snapshot_identity_v1 \<Rightarrow> router_target \<Rightarrow> 'w
     \<Rightarrow> router_apply_record \<times> router_target \<times> 'w" where
  "rollback_target env lo current app ctx previously t w =
     (case current (tg_endpoint t) w of
        (Inl error, w) \<Rightarrow>
          (rollback_attempt env lo t (config_version (tg_candidate t)) (le_digest env (tg_candidate t))
             RaFailed (Some (si_version previously, si_checksum previously)) ctx
             (Some ''rollback_observation_failed'') (message_json (admin_error_text error)), t, w)
      | (Inr seen, w) \<Rightarrow>
          (case u64_checked_succ (si_version seen) of
             None \<Rightarrow>
               (rollback_attempt env lo t (si_version seen) (si_checksum seen) RaFailed
                  (Some (si_version seen, si_checksum seen)) ctx (Some ''rollback_version_exhausted'')
                  (message_json ''router snapshot version is exhausted''), t, w)
           | Some v \<Rightarrow>
               (let t = t\<lparr>tg_old := set_transition (lo_transition lo) (stamp (tg_id t) ''rollback'' v (tg_old t))\<rparr>;
                    checksum = le_digest env (tg_old t);
                    attempt = (\<lambda>status code context. rollback_attempt env lo t v checksum status
                      (Some (si_version seen, si_checksum seen)) ctx code context)
                in case app (tg_endpoint t) (tg_old t) w of
                     (Inr ack, w) \<Rightarrow>
                       if acknowledges v checksum ack
                       then (attempt RaRolledBack None (jobj [(''reason'', JStr ''peer_router_failed'')]), t, w)
                       else (attempt RaFailed (Some ''rollback_acknowledgement_mismatch'')
                               (jobj [(''acknowledgement'', acknowledgement_json ack)]), t, w)
                   | (Inl error, w) \<Rightarrow>
                       (attempt RaFailed (Some ''rollback_failed'') (message_json (admin_error_text error)), t, w))))"

fun rollback_targets ::
  "live_env \<Rightarrow> live_operation \<Rightarrow> (admin_endpoint \<Rightarrow> 'w \<Rightarrow> (admin_error + snapshot_identity_v1) \<times> 'w)
     \<Rightarrow> (admin_endpoint \<Rightarrow> router_config \<Rightarrow> 'w \<Rightarrow> (admin_error + apply_acknowledgement) \<times> 'w)
     \<Rightarrow> structured_context \<Rightarrow> (nat \<times> snapshot_identity_v1) list \<Rightarrow> router_target list \<Rightarrow> 'w
     \<Rightarrow> router_apply_record list \<times> router_target list \<times> 'w" where
  "rollback_targets env lo current app ctx [] ts w = ([], ts, w)"
| "rollback_targets env lo current app ctx ((i, previously) # todo) ts w =
     (case rollback_target env lo current app ctx previously (ts ! i) w of
        (a, t, w) \<Rightarrow>
          (case rollback_targets env lo current app ctx todo (ts[i := t]) w of
             (bs, ts, w) \<Rightarrow> (a # bs, ts, w)))"

definition rollback_applied_targets ::
  "live_env \<Rightarrow> live_operation \<Rightarrow> (admin_endpoint \<Rightarrow> 'w \<Rightarrow> (admin_error + snapshot_identity_v1) \<times> 'w)
     \<Rightarrow> (admin_endpoint \<Rightarrow> router_config \<Rightarrow> 'w \<Rightarrow> (admin_error + apply_acknowledgement) \<times> 'w)
     \<Rightarrow> structured_context \<Rightarrow> (nat \<times> snapshot_identity_v1) list \<Rightarrow> router_target list \<Rightarrow> 'w
     \<Rightarrow> router_apply_record list \<times> router_target list \<times> 'w" where
  "rollback_applied_targets env lo current app ctx applied ts w =
     rollback_targets env lo current app ctx (rev applied) ts w"

section \<open>The whole move\<close>

definition live_state_new :: "'w \<Rightarrow> 'w live_state" where
  "live_state_new w = \<lparr>ls_net = w, ls_attempts = [], ls_applied = [], ls_acks = [], ls_events = []\<rparr>"

definition update_routers ::
  "live_env \<Rightarrow> live_operation \<Rightarrow> (admin_endpoint \<Rightarrow> 'w \<Rightarrow> (admin_error + snapshot_identity_v1) \<times> 'w)
     \<Rightarrow> (admin_endpoint \<Rightarrow> router_config \<Rightarrow> 'w \<Rightarrow> (admin_error + apply_acknowledgement) \<times> 'w)
     \<Rightarrow> structured_context \<Rightarrow> router_target list \<Rightarrow> 'w
     \<Rightarrow> (api_error_v1 + string option) \<times> router_target list \<times> 'w live_state" where
  "update_routers env lo current app ctx ts w =
     (case apply_targets env lo current app ctx 0 ts (live_state_new w) of
        (Inr (Some failure), ts, s) \<Rightarrow>
          (case rollback_applied_targets env lo current app ctx (ls_applied s) ts (ls_net s) of
             (bs, ts, w) \<Rightarrow>
               (Inr (Some failure), ts, s\<lparr>ls_net := w, ls_attempts := ls_attempts s @ bs\<rparr>))
      | r \<Rightarrow> r)"

section \<open>Choosing the targets\<close>

text \<open>
  The planner, the file system and the configuration codec as the move uses them; \<open>'b\<close> is a
  loaded bundle and \<open>'d\<close> the registered devices.
\<close>

record ('b, 'd) live_inputs =
  li_root :: string
  li_load_bundle :: "string \<Rightarrow> string + 'b"
  li_devices :: "string + 'd"
  li_plan :: "'b \<Rightarrow> 'd \<Rightarrow> string + live_plan"
  li_plan_with_membership :: "'b \<Rightarrow> string \<Rightarrow> string \<Rightarrow> 'd \<Rightarrow> string + live_plan"
  li_is_file :: "string \<Rightarrow> bool"
  li_read :: "string \<Rightarrow> file_read"
  li_from_slice :: "string \<Rightarrow> string + json"
  li_decode_config :: "string \<Rightarrow> string + router_config"
  li_encode_config :: "router_config \<Rightarrow> string + string"
  li_print :: "json \<Rightarrow> string"
  li_write :: "string \<Rightarrow> string \<Rightarrow> string option"
  li_write_plan :: "live_plan \<Rightarrow> string option"

definition path_join :: "string \<Rightarrow> string \<Rightarrow> string" where
  "path_join a b =
     (if starts_with b ''/'' \<or> a = [] then b
      else if ends_with a ''/'' then a @ b else a @ ''/'' @ b)"

definition api_err :: "string \<Rightarrow> string + 'a \<Rightarrow> api_error_v1 + 'a" where
  "api_err code r = (case r of Inl message \<Rightarrow> Inl (api_error_new code message) | Inr a \<Rightarrow> Inr a)"

fun read_result :: "file_read \<Rightarrow> string + string" where
  "read_result (FileContents s) = Inr s"
| "read_result FileNotFound = Inl ''No such file or directory (os error 2)''"
| "read_result (FileError e) = Inl e"

definition write_result :: "string \<Rightarrow> string option \<Rightarrow> api_error_v1 + unit" where
  "write_result code failure =
     (case failure of None \<Rightarrow> Inr () | Some e \<Rightarrow> Inl (api_error_new code e))"

text \<open>The membership the move starts from: the resolved one if it was generated, else the authored.\<close>

definition base_bundle ::
  "('b, 'd) live_inputs \<Rightarrow> 'b \<Rightarrow> live_plan \<Rightarrow> api_error_v1 + 'b" where
  "base_bundle li authored plan =
     (let dir = path_join (li_root li) (pl_artifact_dir plan);
          resolved_path = path_join dir ''resolved-deployment.yaml''
      in if \<not> li_is_file li resolved_path then Inr authored
         else and_then (api_err ''generated_manifest_missing'' (read_result (li_read li (path_join dir ''manifest.json'')))) (\<lambda>bytes.
              and_then (api_err ''generated_manifest_invalid'' (li_from_slice li bytes)) (\<lambda>manifest.
              and_then (reject_if (json_get_str manifest ''deployment'' \<noteq> Some (pl_deployment plan) \<or>
                          json_get_str manifest ''resourceHash'' \<noteq> Some (pl_resource_hash plan))
                 (api_error_new ''generated_state_drift''
                    ''generated membership state does not match this deployment; reconcile drift before moving the instance'')) (\<lambda>_.
              api_err ''resolved_state_invalid'' (li_load_bundle li resolved_path)))))"

text \<open>Only the snapshot header differs: the router is not a target and keeps its file.\<close>

definition unchanged_config :: "router_config \<Rightarrow> router_config \<Rightarrow> bool" where
  "unchanged_config old candidate \<longleftrightarrow> with_snapshot (\<lambda>_. snapshot_of old) candidate = old"

fun sidecar_targets ::
  "('b, 'd) live_inputs \<Rightarrow> transition_policy_v1 option \<Rightarrow> string \<Rightarrow> (string \<times> string) list \<Rightarrow> live_plan
     \<Rightarrow> api_error_v1 + live_plan \<times> router_target list" where
  "sidecar_targets li tr route_dir [] plan = Inr (plan, [])"
| "sidecar_targets li tr route_dir ((inst, encoded) # rest) plan =
     and_then (api_err ''active_snapshot_missing''
                 (read_result (li_read li (path_join route_dir (inst @ ''.json''))))) (\<lambda>bytes.
     and_then (api_err ''active_snapshot_invalid'' (li_decode_config li bytes)) (\<lambda>old.
     and_then (api_err ''candidate_snapshot_invalid'' (li_decode_config li encoded)) (\<lambda>candidate.
     if unchanged_config old candidate
     then and_then (api_err ''snapshot_encode_failed'' (li_encode_config li old)) (\<lambda>encoded_old.
            sidecar_targets li tr route_dir rest
              (plan\<lparr>pl_route_configs := bt_insert inst encoded_old (pl_route_configs plan)\<rparr>))
     else case bt_get (pl_sidecars plan) inst of
            None \<Rightarrow> Inl (api_error_new ''router_missing'' ''group member has no sidecar router'')
          | Some sidecar \<Rightarrow>
              and_then (sidecar_targets li tr route_dir rest plan) (\<lambda>(plan', ts). Inr (plan',
                \<lparr>tg_id = ''sidecar:'' @ inst, tg_route_instance = Some inst,
                 tg_endpoint = DockerExec (sp_service sidecar) (sp_admin_socket sidecar)
                   (pl_deployment plan) inst (pl_resource_hash plan),
                 tg_old = old, tg_candidate = set_transition tr candidate\<rparr> # ts)))))"

text \<open>Endpoints that the running host router chose are kept when the providers are the same.\<close>

definition keep_active_endpoints :: "router_config \<Rightarrow> router_config \<Rightarrow> router_config" where
  "keep_active_endpoints old candidate =
     candidate\<lparr>config_spec := (config_spec candidate)\<lparr>spec_providers :=
       map (\<lambda>p. case find (\<lambda>a. provider_id a = provider_id p) (spec_providers (config_spec old)) of
              None \<Rightarrow> p | Some a \<Rightarrow> p\<lparr>provider_endpoint := provider_endpoint a\<rparr>)
         (spec_providers (config_spec candidate))\<rparr>\<rparr>"

definition host_target ::
  "('b, 'd) live_inputs \<Rightarrow> transition_policy_v1 option \<Rightarrow> string \<Rightarrow> live_plan
     \<Rightarrow> api_error_v1 + live_plan \<times> router_target list" where
  "host_target li tr host_dir plan =
     (let host_config = path_join host_dir ''host-router.json''
      in case pl_host_router_config plan of
           None \<Rightarrow> Inr (plan, [])
         | Some encoded \<Rightarrow>
             and_then (api_err ''candidate_snapshot_invalid'' (li_decode_config li encoded)) (\<lambda>candidate.
             and_then (case li_read li host_config of
                         FileContents bytes \<Rightarrow> api_err ''active_snapshot_invalid'' (li_decode_config li bytes)
                       | FileNotFound \<Rightarrow> Inr candidate
                       | FileError e \<Rightarrow> Inl (api_error_new ''active_snapshot_missing'' e)) (\<lambda>old.
             (let candidate = (if li_is_file li host_config then keep_active_endpoints old candidate else candidate)
              in if unchanged_config old candidate
                 then and_then (api_err ''snapshot_encode_failed'' (li_encode_config li old)) (\<lambda>encoded_old.
                        Inr (plan\<lparr>pl_host_router_config := Some encoded_old\<rparr>, []))
                 else Inr (plan,
                        [\<lparr>tg_id = ''host-gateway'', tg_route_instance = None,
                          tg_endpoint = UnixEndpoint (path_join host_dir ''host.socket''),
                          tg_old = old, tg_candidate = set_transition tr candidate\<rparr>])))))"

definition host_dir_of :: "('b, 'd) live_inputs \<Rightarrow> live_plan \<Rightarrow> string" where
  "host_dir_of li plan = path_join (path_join (li_root li) ''.apmpr/run'') (pl_deployment plan)"

definition live_targets ::
  "('b, 'd) live_inputs \<Rightarrow> command_request \<Rightarrow> string \<Rightarrow> string \<Rightarrow> api_error_v1 + live_plan \<times> router_target list" where
  "live_targets li request consumer grp =
     and_then (api_err ''bundle_load_failed'' (li_load_bundle li (path_join (li_root li) (cq_bundle request)))) (\<lambda>authored.
     and_then (api_err ''device_load_failed'' (li_devices li)) (\<lambda>devices.
     and_then (api_err ''plan_failed'' (li_plan li authored devices)) (\<lambda>authored_plan.
     and_then (base_bundle li authored authored_plan) (\<lambda>base.
     and_then (api_err ''plan_failed'' (li_plan_with_membership li base consumer grp devices)) (\<lambda>plan.
     and_then (reject_if (pl_resource_hash plan \<noteq> pl_resource_hash authored_plan)
        (api_error_new ''membership_requires_apply''
           ''moving this instance changes runtime resources; save the membership and run Up'')) (\<lambda>_.
     and_then (sidecar_targets li (cq_transition request)
        (path_join (path_join (li_root li) (pl_artifact_dir authored_plan)) ''routes'')
        (pl_route_configs plan) plan) (\<lambda>(plan, sidecars).
     and_then (host_target li (cq_transition request) (host_dir_of li plan) plan) (\<lambda>(plan, hosts).
     and_then (reject_if (sidecars @ hosts = [])
        (api_error_new ''router_missing'' ''membership move does not have a live router to update'')) (\<lambda>_.
     Inr (plan, sidecars @ hosts))))))))))"

section \<open>The operation\<close>

record live_outcome =
  lc_result :: command_result
  lc_attempts :: "router_apply_record list"

fun record_sidecars :: "('b, 'd) live_inputs \<Rightarrow> router_target list \<Rightarrow> live_plan \<Rightarrow> api_error_v1 + live_plan" where
  "record_sidecars li [] plan = Inr plan"
| "record_sidecars li (t # ts) plan =
     (case tg_route_instance t of
        None \<Rightarrow> record_sidecars li ts plan
      | Some inst \<Rightarrow>
          and_then (api_err ''snapshot_encode_failed'' (li_encode_config li (tg_candidate t))) (\<lambda>encoded.
            record_sidecars li ts (plan\<lparr>pl_route_configs := bt_insert inst encoded (pl_route_configs plan)\<rparr>)))"

definition record_host :: "('b, 'd) live_inputs \<Rightarrow> router_target list \<Rightarrow> live_plan \<Rightarrow> api_error_v1 + live_plan" where
  "record_host li ts plan =
     (case find (\<lambda>t. tg_id t = ''host-gateway'') ts of
        None \<Rightarrow> Inr plan
      | Some t \<Rightarrow>
          and_then (api_err ''snapshot_encode_failed'' (li_encode_config li (tg_candidate t))) (\<lambda>encoded.
          and_then (write_result ''host_snapshot_write_failed''
             (li_write li (path_join (host_dir_of li plan) ''host-router.json'') encoded)) (\<lambda>_.
          Inr (plan\<lparr>pl_host_router_config := Some encoded\<rparr>))))"

definition ack_line :: "('b, 'd) live_inputs \<Rightarrow> string \<Rightarrow> json \<Rightarrow> string" where
  "ack_line li what ack = ''router acknowledgement'' @ what @ '': '' @ li_print li ack @ [newline]"

definition move_stdout ::
  "('b, 'd) live_inputs \<Rightarrow> (string \<times> apply_acknowledgement) list \<Rightarrow> string \<Rightarrow> string \<Rightarrow> string" where
  "move_stdout li acks consumer grp =
     (case acks of
        [] \<Rightarrow> ack_line li [] JNull
      | (_, ack) # rest \<Rightarrow>
          ack_line li [] (acknowledgement_json ack) @
          concat (map (\<lambda>(router, ack). ack_line li ('' ('' @ router @ '')'') (acknowledgement_json ack)) rest)) @
     ''moved `'' @ consumer @ ''` into group `'' @ grp @ ''`'' @ [newline]"

definition apply_live_binding ::
  "live_env \<Rightarrow> ('b, 'd) live_inputs \<Rightarrow> (admin_endpoint \<Rightarrow> 'w \<Rightarrow> (admin_error + snapshot_identity_v1) \<times> 'w)
     \<Rightarrow> (admin_endpoint \<Rightarrow> router_config \<Rightarrow> 'w \<Rightarrow> (admin_error + apply_acknowledgement) \<times> 'w)
     \<Rightarrow> command_request \<Rightarrow> string \<Rightarrow> 'w
     \<Rightarrow> (api_error_v1 + live_outcome) \<times> (event_kind_v1 \<times> json) list \<times> 'w" where
  "apply_live_binding env li current app request operation_id w =
     (case and_then (required (cq_instance request) ''instance'') (\<lambda>consumer.
           and_then (required (cq_group request) ''group'') (\<lambda>grp.
           and_then (live_targets li request consumer grp) (\<lambda>(plan, ts).
           case structured_context_new (le_store env)
                  (le_transitions_json env (snapshot_transitions (snapshot_of (tg_candidate (hd ts))))) of
             Inl e \<Rightarrow> Inl (state_api_error e)
           | Inr ctx \<Rightarrow> Inr (consumer, grp, plan, ts, ctx)))) of
        Inl e \<Rightarrow> (Inl e, [], w)
      | Inr (consumer, grp, plan, ts, ctx) \<Rightarrow>
          (let lo = \<lparr>lo_deployment = pl_deployment plan, lo_consumer = consumer,
                     lo_operation_id = operation_id, lo_transition = cq_transition request\<rparr>
           in case update_routers env lo current app ctx ts w of
                (Inl e, ts, s) \<Rightarrow> (Inl e, ls_events s, ls_net s)
              | (Inr (Some failure), ts, s) \<Rightarrow>
                  (Inr \<lparr>lc_result = \<lparr>cr_exit_code = 1, cr_stdout = [],
                          cr_stderr = ''apmpr: '' @ failure @ [newline]\<rparr>,
                        lc_attempts = ls_attempts s\<rparr>, ls_events s, ls_net s)
              | (Inr None, ts, s) \<Rightarrow>
                  (case and_then (record_sidecars li ts plan) (\<lambda>plan.
                        and_then (record_host li ts plan) (\<lambda>plan.
                        write_result ''artifact_write_failed'' (li_write_plan li plan))) of
                     Inl e \<Rightarrow> (Inl e, ls_events s, ls_net s)
                   | Inr _ \<Rightarrow>
                       (Inr \<lparr>lc_result = \<lparr>cr_exit_code = 0, cr_stdout = move_stdout li (ls_acks s) consumer grp,
                               cr_stderr = []\<rparr>,
                             lc_attempts = ls_attempts s\<rparr>,
                        ls_events s @ [(RouteEvent, jobj [(''instance'', JStr consumer), (''status'', JStr ''active'')])],
                        ls_net s))))"

section \<open>What the move does to the routers\<close>

text \<open>Two configurations with the same routes: they differ in the snapshot's header alone.\<close>

definition same_routes :: "router_config \<Rightarrow> router_config \<Rightarrow> bool" where
  "same_routes c c' \<longleftrightarrow> with_snapshot (\<lambda>_. snapshot_of c) c' = c"

lemma with_snapshot_snapshot [simp]: "snapshot_of (with_snapshot f c) = f (snapshot_of c)"
  by (simp add: with_snapshot_def)

lemma with_snapshot_twice [simp]: "with_snapshot f (with_snapshot g c) = with_snapshot (f \<circ> g) c"
  by (simp add: with_snapshot_def)

lemma same_routes_with_snapshot: "same_routes c (with_snapshot f c)"
  by (simp add: same_routes_def) (simp add: with_snapshot_def)

lemma same_routes_stamp: "same_routes c (stamp router what v c)"
  unfolding stamp_def by (rule same_routes_with_snapshot)

lemma same_routes_rollback: "same_routes c (set_transition tr (stamp router what v c))"
  by (simp add: set_transition_def stamp_def Let_def same_routes_with_snapshot split: option.splits)

definition serves_routes :: "router_config option \<Rightarrow> router_config \<Rightarrow> bool" where
  "serves_routes served_config c \<longleftrightarrow> (\<exists>c'. served_config = Some c' \<and> same_routes c c')"

text \<open>A target keeps its identity while versions are stamped into its configurations.\<close>

definition same_target :: "router_target \<Rightarrow> router_target \<Rightarrow> bool" where
  "same_target t t' \<longleftrightarrow>
     tg_id t' = tg_id t \<and> tg_endpoint t' = tg_endpoint t \<and> tg_route_instance t' = tg_route_instance t \<and>
     same_routes (tg_old t) (tg_old t') \<and> same_routes (tg_candidate t) (tg_candidate t')"

lemma same_routes_refl [simp]: "same_routes c c"
  by (simp add: same_routes_def with_snapshot_def)

lemma same_routes_trans: "same_routes a b \<Longrightarrow> same_routes b c \<Longrightarrow> same_routes a c"
proof -
  assume ab: "same_routes a b" and bc: "same_routes b c"
  have "with_snapshot (\<lambda>_. snapshot_of a) c = with_snapshot (\<lambda>_. snapshot_of a) (with_snapshot (\<lambda>_. snapshot_of b) c)"
    by (simp add: comp_def)
  also have "\<dots> = a" using ab bc by (simp only: same_routes_def)
  finally show ?thesis by (simp only: same_routes_def)
qed

lemma same_target_trans: "same_target a b \<Longrightarrow> same_target b c \<Longrightarrow> same_target a c"
  by (auto simp: same_target_def intro: same_routes_trans)

lemma same_target_refl [simp]: "same_target t t"
  by (simp add: same_target_def)

lemma same_target_stamped [simp]: "same_target t (stamped_target v t)"
  by (simp add: same_target_def stamped_target_def same_routes_stamp)

lemma stamped_target_simps [simp]:
  "tg_endpoint (stamped_target v t) = tg_endpoint t" "tg_id (stamped_target v t) = tg_id t"
  "config_version (tg_candidate (stamped_target v t)) = v"
  by (simp_all add: stamped_target_def stamp_def)

lemma router_attempt_fields:
  "router_attempt env lo t v checksum status seen ctx code context = Inr a \<Longrightarrow>
     ra_router a = tg_id t \<and> ra_status a = status"
  by (cases "structured_context_new (le_store env) context") (auto simp: router_attempt_def and_then_Inr)

lemma rollback_attempt_fields:
  "ra_router (rollback_attempt env lo t v checksum status seen ctx code context) = tg_id t \<and>
   ra_status (rollback_attempt env lo t v checksum status seen ctx code context) \<in> {status, RaFailed}"
  by (auto simp: rollback_attempt_def dest: router_attempt_fields split: sum.splits)

text \<open>
  The effect of one iteration on its router, by the answer the function gives: it goes on only
  when the router serves the candidate.
\<close>

definition apply_effect ::
  "(api_error_v1 + string option) \<Rightarrow> router_target \<Rightarrow> router_config option \<Rightarrow> router_config option \<Rightarrow> bool" where
  "apply_effect r t' old new \<longleftrightarrow>
     new \<in> {old, Some (tg_candidate t')} \<and> (r = Inr None \<longrightarrow> new = Some (tg_candidate t'))"

lemma apply_verdict_done:
  "apply_verdict router v checksum ans = (status, code, context, None) \<longleftrightarrow>
     status = RaActive \<and> code = None \<and>
     (\<exists>ack. ans = Inr ack \<and> acknowledges v checksum ack \<and>
        context = jobj [(''acknowledgement'', acknowledgement_json ack)])"
  by (auto simp: apply_verdict_def split: sum.splits if_splits)

text \<open>
  How far the loop got: the targets before \<open>m\<close> serve their candidates, those after it are
  untouched, and \<open>m\<close> itself, if there is one, serves what it served before or its candidate.
\<close>

definition moved_until ::
  "(admin_endpoint \<Rightarrow> router_config option) \<Rightarrow> (admin_endpoint \<Rightarrow> router_config option)
     \<Rightarrow> router_target list \<Rightarrow> router_target list \<Rightarrow> nat \<Rightarrow> bool" where
  "moved_until act act' ts ts' m \<longleftrightarrow>
     m \<le> length ts \<and> list_all2 same_target ts ts' \<and>
     (\<forall>j<m. act' (tg_endpoint (ts ! j)) = Some (tg_candidate (ts' ! j))) \<and>
     (\<forall>j<length ts. m < j \<longrightarrow> act' (tg_endpoint (ts ! j)) = act (tg_endpoint (ts ! j))) \<and>
     (m < length ts \<longrightarrow> act' (tg_endpoint (ts ! m)) \<in> {act (tg_endpoint (ts ! m)), Some (tg_candidate (ts' ! m))})"

lemma moved_until_0:
  "same_target t t' \<Longrightarrow> act' (tg_endpoint t) \<in> {act (tg_endpoint t), Some (tg_candidate t')} \<Longrightarrow>
     \<forall>x\<in>set ts. act' (tg_endpoint x) = act (tg_endpoint x) \<Longrightarrow> moved_until act act' (t # ts) (t' # ts) 0"
  by (auto simp: moved_until_def nth_Cons' intro: list.rel_refl)

lemma moved_until_Suc:
  assumes "same_target t t'" and "act' (tg_endpoint t) = Some (tg_candidate t')"
    and "moved_until act1 act' ts ts' m" and "\<forall>x\<in>set ts. act1 (tg_endpoint x) = act (tg_endpoint x)"
  shows "moved_until act act' (t # ts) (t' # ts') (Suc m)"
  using assms by (auto simp: moved_until_def less_Suc_eq_0_disj nth_Cons')

definition reports_active :: "router_target list \<Rightarrow> router_apply_record list \<Rightarrow> bool" where
  "reports_active = list_all2 (\<lambda>t a. ra_router a = tg_id t \<and> ra_status a = RaActive)"

definition loop_progress ::
  "(admin_endpoint \<Rightarrow> router_config option) \<Rightarrow> (admin_endpoint \<Rightarrow> router_config option) \<Rightarrow> nat
     \<Rightarrow> router_target list \<Rightarrow> router_target list \<Rightarrow> api_error_v1 + string option
     \<Rightarrow> 'w live_state \<Rightarrow> 'w live_state \<Rightarrow> bool" where
  "loop_progress act act' i ts ts' r s s' \<longleftrightarrow>
     (\<exists>m seens acts rest. moved_until act act' ts ts' m \<and> (r = Inr None \<longleftrightarrow> m = length ts) \<and>
        length seens = m \<and> ls_applied s' = ls_applied s @ zip [i..<i + m] seens \<and>
        ls_attempts s' = ls_attempts s @ acts @ rest \<and> reports_active (take m ts) acts)"

lemma loop_progress_stop:
  assumes "moved_until act act' (t # ts) (t' # ts) 0" and "r \<noteq> Inr None"
    and "ls_applied s' = ls_applied s" and "ls_attempts s' = ls_attempts s @ rest"
  shows "loop_progress act act' i (t # ts) (t' # ts) r s s'"
proof -
  have "moved_until act act' (t # ts) (t' # ts) 0 \<and> (r = Inr None \<longleftrightarrow> 0 = length (t # ts)) \<and>
      length [] = (0::nat) \<and> ls_applied s' = ls_applied s @ zip [i..<i + 0] [] \<and>
      ls_attempts s' = ls_attempts s @ [] @ rest \<and> reports_active (take 0 (t # ts)) []"
    using assms by (simp add: reports_active_def)
  then show ?thesis unfolding loop_progress_def by fast
qed

lemma loop_progress_go:
  assumes "same_target t t'" and "act' (tg_endpoint t) = Some (tg_candidate t')"
    and "\<forall>x\<in>set ts. act1 (tg_endpoint x) = act (tg_endpoint x)"
    and new: "ls_applied s1 = ls_applied s @ [(i, seen)]" "ls_attempts s1 = ls_attempts s @ [a]"
      "ra_router a = tg_id t" "ra_status a = RaActive"
    and "loop_progress act1 act' (Suc i) ts ts' r s1 s'"
  shows "loop_progress act act' i (t # ts) (t' # ts') r s s'"
proof -
  obtain m seens acts more where IH: "moved_until act1 act' ts ts' m" "r = Inr None \<longleftrightarrow> m = length ts"
      "length seens = m" "ls_applied s' = ls_applied s1 @ zip [Suc i..<Suc i + m] seens"
      "ls_attempts s' = ls_attempts s1 @ acts @ more" "reports_active (take m ts) acts"
    using assms(8) unfolding loop_progress_def by blast
  have "ls_applied s' = ls_applied s @ zip [i..<i + Suc m] (seen # seens)"
    using IH(4) new(1) by (simp add: upt_conv_Cons del: upt_Suc)
  moreover have "reports_active (take (Suc m) (t # ts)) (a # acts)"
    using IH(6) new(3,4) by (simp add: reports_active_def)
  ultimately show ?thesis
    unfolding loop_progress_def using IH(2,3,5) new(2) moved_until_Suc [OF assms(1,2) IH(1) assms(3)]
    by (intro exI [of _ "Suc m"] exI [of _ "seen # seens"] exI [of _ "a # acts"] exI [of _ more]) simp
qed

text \<open>
  The report of a move, from the configurations the routers served before (\<open>act\<close>) and serve
  after (\<open>act'\<close>).
\<close>

definition move_report ::
  "(admin_endpoint \<Rightarrow> router_config option) \<Rightarrow> (admin_endpoint \<Rightarrow> router_config option)
     \<Rightarrow> router_target list \<Rightarrow> api_error_v1 + string option \<Rightarrow> router_apply_record list \<Rightarrow> bool" where
  "move_report act act' ts r attempts \<longleftrightarrow>
     (\<exists>m acts rest.
        attempts = acts @ rest \<and> reports_active (take m ts) acts \<and>
        (\<forall>j<length ts. m < j \<longrightarrow> act' (tg_endpoint (ts ! j)) = act (tg_endpoint (ts ! j))) \<and>
        (m < length ts \<longrightarrow> act' (tg_endpoint (ts ! m)) = act (tg_endpoint (ts ! m)) \<or>
           serves_routes (act' (tg_endpoint (ts ! m))) (tg_candidate (ts ! m))) \<and>
        (case r of
           Inr None \<Rightarrow>
             m = length ts \<and> (\<forall>t\<in>set ts. serves_routes (act' (tg_endpoint t)) (tg_candidate t))
         | Inr (Some failure) \<Rightarrow>
             m < length ts \<and>
             (\<exists>rollbacks more. rest = more @ rollbacks \<and> length rollbacks = m \<and>
                (\<forall>j<m. let a = rollbacks ! (m - Suc j); t = ts ! j; new = act' (tg_endpoint t)
                  in ra_router a = tg_id t \<and> ra_status a \<in> {RaRolledBack, RaFailed} \<and>
                     (serves_routes new (tg_old t) \<or>
                      ra_status a = RaFailed \<and> serves_routes new (tg_candidate t))))
         | Inl e \<Rightarrow>
             m < length ts \<and> (\<forall>j<m. serves_routes (act' (tg_endpoint (ts ! j))) (tg_candidate (ts ! j)))))"

lemma move_report_failedI:
  assumes "attempts = acts @ others @ bs" and "reports_active (take m ts) acts" and "m < length ts"
    and "\<And>j. j < length ts \<Longrightarrow> m < j \<Longrightarrow> act' (tg_endpoint (ts ! j)) = act (tg_endpoint (ts ! j))"
    and "act' (tg_endpoint (ts ! m)) = act (tg_endpoint (ts ! m)) \<or>
       serves_routes (act' (tg_endpoint (ts ! m))) (tg_candidate (ts ! m))"
    and "length bs = m"
    and "\<And>j. j < m \<Longrightarrow> let a = bs ! (m - Suc j); t = ts ! j; new = act' (tg_endpoint t)
       in ra_router a = tg_id t \<and> ra_status a \<in> {RaRolledBack, RaFailed} \<and>
          (serves_routes new (tg_old t) \<or> ra_status a = RaFailed \<and> serves_routes new (tg_candidate t))"
  shows "move_report act act' ts (Inr (Some failure)) attempts"
  unfolding move_report_def sum.case option.case
proof (rule exI [of _ m], rule exI [of _ acts], rule exI [of _ "others @ bs"], intro conjI allI impI)
  show "\<exists>rollbacks others'. others @ bs = others' @ rollbacks \<and> length rollbacks = m \<and>
     (\<forall>j<m. let a = rollbacks ! (m - Suc j); t = ts ! j; new = act' (tg_endpoint t)
       in ra_router a = tg_id t \<and> ra_status a \<in> {RaRolledBack, RaFailed} \<and>
          (serves_routes new (tg_old t) \<or> ra_status a = RaFailed \<and> serves_routes new (tg_candidate t)))"
    by (rule exI [of _ bs], rule exI [of _ others]) (use assms(6,7) in blast)
qed (use assms in simp_all)

text \<open>What a rollback attempt says about its router.\<close>

definition rolled_back ::
  "router_apply_record \<Rightarrow> router_target \<Rightarrow> router_config option \<Rightarrow> router_config option \<Rightarrow> bool" where
  "rolled_back a t old new \<longleftrightarrow>
     ra_router a = tg_id t \<and> ra_status a \<in> {RaRolledBack, RaFailed} \<and>
     (serves_routes new (tg_old t) \<or> ra_status a = RaFailed \<and> new = old)"

lemma rolled_backI:
  assumes "tg_id t' = tg_id t" and "status \<in> {RaRolledBack, RaFailed}"
    and "serves_routes new (tg_old t) \<or> status = RaFailed \<and> new = old"
  shows "rolled_back (rollback_attempt env lo t' v checksum status seen ctx code info) t old new"
  using assms rollback_attempt_fields [of env lo t' v checksum status seen ctx code info]
  unfolding rolled_back_def by auto

lemma serves_routes_Some: "same_routes c c' \<Longrightarrow> serves_routes (Some c') c"
  by (simp add: serves_routes_def)

lemma rolled_back_report:
  assumes "same_target t t1" and "rolled_back a t1 old new" and "serves_routes old (tg_candidate t)"
  shows "ra_router a = tg_id t \<and> ra_status a \<in> {RaRolledBack, RaFailed} \<and>
     (serves_routes new (tg_old t) \<or> ra_status a = RaFailed \<and> serves_routes new (tg_candidate t))"
  using assms by (auto simp: rolled_back_def same_target_def serves_routes_def intro: same_routes_trans)

context router_channel
begin

lemma apply_target_effect:
  assumes inv: "winv (ls_net s)" and digest: "le_digest env = digest"
    and run: "apply_target env lo current app ctx i t s = (r, t', s')"
  shows "winv (ls_net s') \<and> site (ls_net s') = site (ls_net s) \<and> same_target t t' \<and>
     apply_effect r t' (active (ls_net s) (tg_endpoint t)) (active (ls_net s') (tg_endpoint t)) \<and>
     (\<forall>k. site (ls_net s) k \<noteq> site (ls_net s) (tg_endpoint t) \<longrightarrow>
        active (ls_net s') k = active (ls_net s) k) \<and>
     (if r = Inr None then \<exists>seen a. ls_applied s' = ls_applied s @ [(i, seen)] \<and>
          ls_attempts s' = ls_attempts s @ [a] \<and> ra_router a = tg_id t \<and> ra_status a = RaActive
      else ls_applied s' = ls_applied s \<and> (\<exists>rest. ls_attempts s' = ls_attempts s @ rest))"
proof -
  obtain q w1 where cur: "current (tg_endpoint t) (ls_net s) = (q, w1)" by fastforce
  note step1 = current_step [OF inv cur]
  show ?thesis
  proof (cases q)
    case (Inl error)
    with run cur step1 show ?thesis
      by (auto simp: apply_target_def apply_effect_def split: sum.splits)
  next
    case (Inr seen)
    show ?thesis
    proof (cases "u64_checked_succ (si_version seen)")
      case None
      with run cur step1 Inr show ?thesis
        by (auto simp: apply_target_def apply_effect_def)
    next
      case (Some v)
      let ?t = "stamped_target v t"
      obtain ans w2 where ans: "app (tg_endpoint t) (tg_candidate ?t) w1 = (ans, w2)" by fastforce
      have step2: "winv w2" "site w2 = site w1"
        and contract: "apply_contract digest (tg_candidate ?t) ans (active w1 (tg_endpoint t)) (active w2 (tg_endpoint t))"
        using app_step [OF _ ans] step1 by auto
      have other: "site w1 k \<noteq> site w1 (tg_endpoint t) \<Longrightarrow> active w2 k = active w1 k" for k
        using app_other [OF _ ans] step1 by blast
      obtain status code info failure where verdict:
        "apply_verdict (tg_id t) v (le_digest env (tg_candidate ?t)) ans = (status, code, info, failure)"
        by (metis prod_cases4)
      note run' = run [unfolded apply_target_def, simplified cur Inr Some Let_def prod.case sum.case
          option.case stamped_target_simps ans verdict]
      have eff: "apply_effect (Inr failure) ?t (active w1 (tg_endpoint t)) (active w2 (tg_endpoint t))"
        using contract verdict by (cases failure) (auto simp: apply_effect_def apply_contract_def
            apply_verdict_done acknowledges_def)
      have s': "ls_net s' = w2" "t' = ?t" and r: "r = Inr failure \<or> (\<exists>e. r = Inl e)"
        using run' by (auto split: sum.splits option.splits)
      have rec: "if r = Inr None then \<exists>seen a. ls_applied s' = ls_applied s @ [(i, seen)] \<and>
          ls_attempts s' = ls_attempts s @ [a] \<and> ra_router a = tg_id t \<and> ra_status a = RaActive
        else ls_applied s' = ls_applied s \<and> (\<exists>rest. ls_attempts s' = ls_attempts s @ rest)"
        using run' verdict router_attempt_fields [of env lo ?t v]
        by (auto simp: apply_verdict_done split: sum.splits option.splits)
      from eff r have "apply_effect r ?t (active w1 (tg_endpoint t)) (active w2 (tg_endpoint t))"
        by (auto simp: apply_effect_def)
      with s' rec step1 step2 other show ?thesis by simp
    qed
  qed
qed

abbreviation sites_of :: "'w \<Rightarrow> router_target list \<Rightarrow> 's option list" where
  "sites_of w ts \<equiv> map (\<lambda>t. site w (tg_endpoint t)) ts"

lemma apply_targets_effect:
  assumes "winv (ls_net s)" and digest: "le_digest env = digest" and "distinct (sites_of (ls_net s) ts)"
    and "apply_targets env lo current app ctx i ts s = (r, ts', s')"
  shows "winv (ls_net s') \<and> site (ls_net s') = site (ls_net s) \<and>
     (\<forall>k. site (ls_net s) k \<notin> set (sites_of (ls_net s) ts) \<longrightarrow> active (ls_net s') k = active (ls_net s) k) \<and>
     loop_progress (active (ls_net s)) (active (ls_net s')) i ts ts' r s s'"
  using assms(1,3,4)
proof (induction ts arbitrary: i s ts' r s')
  case Nil
  then show ?case
    by (auto simp: loop_progress_def moved_until_def reports_active_def intro: exI [of _ "[]"])
next
  case (Cons t ts)
  let ?w = "ls_net s"
  show ?case
  proof (cases "le_cancelled env i")
    case True
    with Cons.prems show ?thesis
      by (auto intro!: moved_until_0 loop_progress_stop [where rest = "[]"])
  next
    case False
    obtain r1 t1 s1 where one: "apply_target env lo current app ctx i t s = (r1, t1, s1)" by (metis prod_cases3)
    note eff = apply_target_effect [OF Cons.prems(1) digest one]
    have others: "\<forall>x\<in>set ts. active (ls_net s1) (tg_endpoint x) = active ?w (tg_endpoint x)"
    proof
      fix x assume "x \<in> set ts"
      with Cons.prems(2) have "site ?w (tg_endpoint x) \<noteq> site ?w (tg_endpoint t)" by (auto simp: image_iff)
      with eff show "active (ls_net s1) (tg_endpoint x) = active ?w (tg_endpoint x)" by blast
    qed
    show ?thesis
    proof (cases "r1 = Inr None")
      case stop: False
      then have res: "r = r1" "ts' = t1 # ts" "s' = s1"
        using Cons.prems(3) False one by (auto split: sum.splits option.splits)
      have "moved_until (active ?w) (active (ls_net s1)) (t # ts) (t1 # ts) 0"
        using eff others by (intro moved_until_0) (auto simp: apply_effect_def)
      with eff stop res show ?thesis by (auto intro: loop_progress_stop)
    next
      case go: True
      obtain r2 ts2 s2 where rest: "apply_targets env lo current app ctx (Suc i) ts s1 = (r2, ts2, s2)"
        by (metis prod_cases3)
      have res: "r = r2" "ts' = t1 # ts2" "s' = s2"
        using Cons.prems(3) False one go rest by auto
      have inv1: "winv (ls_net s1)" and site1: "site (ls_net s1) = site ?w" using eff by auto
      have "distinct (sites_of (ls_net s1) ts)" using Cons.prems(2) site1 by simp
      note IH = Cons.IH [OF inv1 this rest]
      obtain seen a where new: "ls_applied s1 = ls_applied s @ [(i, seen)]"
        "ls_attempts s1 = ls_attempts s @ [a]" "ra_router a = tg_id t" "ra_status a = RaActive"
        using eff go by auto
      have "active (ls_net s2) (tg_endpoint t) = Some (tg_candidate t1)"
        using IH site1 Cons.prems(2) eff go by (auto simp: apply_effect_def)
      then have "loop_progress (active ?w) (active (ls_net s2)) i (t # ts) (t1 # ts2) r2 s s2"
        using loop_progress_go [OF _ _ others new] IH eff by blast
      moreover have "active (ls_net s2) k = active ?w k"
        if "site ?w k \<notin> set (sites_of ?w (t # ts))" for k
        using that IH site1 eff by auto
      ultimately show ?thesis using IH site1 res by auto
    qed
  qed
qed

lemma rollback_target_effect:
  assumes inv: "winv w" and digest: "le_digest env = digest"
    and run: "rollback_target env lo current app ctx previously t w = (a, t', w')"
  shows "winv w' \<and> site w' = site w \<and> same_target t t' \<and>
     rolled_back a t (active w (tg_endpoint t)) (active w' (tg_endpoint t)) \<and>
     (\<forall>k. site w k \<noteq> site w (tg_endpoint t) \<longrightarrow> active w' k = active w k)"
proof -
  obtain q w1 where cur: "current (tg_endpoint t) w = (q, w1)" by fastforce
  note step1 = current_step [OF inv cur]
  consider (error) e where "q = Inl e" | (exhausted) seen where "q = Inr seen" "u64_checked_succ (si_version seen) = None"
    | (go) seen v where "q = Inr seen" "u64_checked_succ (si_version seen) = Some v"
    by (cases q; cases "u64_checked_succ (si_version (projr q))") auto
  then show ?thesis
  proof cases
    case error
    with run cur step1 show ?thesis by (auto simp: rollback_target_def intro: rolled_backI)
  next
    case exhausted
    with run cur step1 show ?thesis by (auto simp: rollback_target_def intro: rolled_backI)
  next
    case go
    let ?old = "set_transition (lo_transition lo) (stamp (tg_id t) ''rollback'' v (tg_old t))"
    let ?t = "t\<lparr>tg_old := ?old\<rparr>"
    obtain ans w2 where ans: "app (tg_endpoint t) ?old w1 = (ans, w2)" by fastforce
    have step2: "winv w2" "site w2 = site w1"
      and contract: "apply_contract digest ?old ans (active w1 (tg_endpoint t)) (active w2 (tg_endpoint t))"
      using app_step [OF _ ans] step1 by auto
    have other: "site w1 k \<noteq> site w1 (tg_endpoint t) \<Longrightarrow> active w2 k = active w1 k" for k
      using app_other [OF _ ans] step1 by blast
    have same: "same_target t ?t" by (simp add: same_target_def same_routes_rollback)
    have old: "serves_routes (Some ?old) (tg_old t)" by (rule serves_routes_Some) (rule same_routes_rollback)
    have res: "t' = ?t" "w' = w2"
      and a: "\<exists>status v checksum seen code info.
        a = rollback_attempt env lo ?t v checksum status seen ctx code info \<and>
        (status = RaFailed \<or> status = RaRolledBack \<and> (\<exists>ack. ans = Inr ack \<and> aa_status ack = Activated))"
      using run go cur ans
      by (auto simp: rollback_target_def Let_def acknowledges_def split: sum.splits if_splits) blast+
    from contract old have "active w2 (tg_endpoint t) = active w1 (tg_endpoint t) \<or>
        serves_routes (active w2 (tg_endpoint t)) (tg_old t)"
      and "ans = Inr ack \<Longrightarrow> aa_status ack = Activated \<Longrightarrow> serves_routes (active w2 (tg_endpoint t)) (tg_old t)" for ack
      by (auto simp: apply_contract_def)
    with a have "rolled_back a t (active w1 (tg_endpoint t)) (active w2 (tg_endpoint t))"
      by (auto intro!: rolled_backI)
    with res step1 step2 other same show ?thesis by simp
  qed
qed

lemma rollback_targets_effect:
  assumes "winv w" and digest: "le_digest env = digest" and "distinct (sites_of w ts)"
    and "distinct (map fst todo)" and "\<forall>p\<in>set todo. fst p < length ts"
    and "rollback_targets env lo current app ctx todo ts w = (bs, ts', w')"
  shows "winv w' \<and> site w' = site w \<and> list_all2 same_target ts ts' \<and>
     list_all2 (\<lambda>p a. rolled_back a (ts ! fst p) (active w (tg_endpoint (ts ! fst p)))
       (active w' (tg_endpoint (ts ! fst p)))) todo bs \<and>
     (\<forall>k. (\<forall>p\<in>set todo. site w k \<noteq> site w (tg_endpoint (ts ! fst p))) \<longrightarrow> active w' k = active w k)"
  using assms(1,3-)
proof (induction todo arbitrary: ts w bs)
  case Nil
  then show ?case by (auto intro: list.rel_refl)
next
  case (Cons p todo)
  obtain i previously where p: "p = (i, previously)" by fastforce
  obtain a t1 w1 where one: "rollback_target env lo current app ctx previously (ts ! i) w = (a, t1, w1)"
    by (metis prod_cases3)
  note eff = rollback_target_effect [OF Cons.prems(1) digest one]
  let ?ts = "ts[i := t1]"
  have i: "i < length ts" using Cons.prems(4) p by simp
  have ep: "tg_endpoint (?ts ! j) = tg_endpoint (ts ! j)" for j
    using eff i by (cases "j = i") (auto simp: same_target_def)
  have sites: "sites_of w1 ?ts = sites_of w ts"
    using eff ep by (auto simp: list_eq_iff_nth_eq)
  obtain cs where rest: "rollback_targets env lo current app ctx todo ?ts w1 = (cs, ts', w')" and bs: "bs = a # cs"
    using Cons.prems(5) one p by (auto split: prod.splits)
  have apart: "site w (tg_endpoint (ts ! fst q)) \<noteq> site w (tg_endpoint (ts ! i)) \<and> ts[i := t1] ! fst q = ts ! fst q"
    if "q \<in> set todo" for q
  proof -
    have "fst q \<noteq> i" "fst q < length ts" using Cons.prems(3,4) p that by force+
    then show ?thesis using Cons.prems(2) i by (simp add: distinct_conv_nth)
  qed
  have IH: "winv w' \<and> site w' = site w1 \<and> list_all2 same_target ?ts ts' \<and>
     list_all2 (\<lambda>p a. rolled_back a (?ts ! fst p) (active w1 (tg_endpoint (?ts ! fst p)))
       (active w' (tg_endpoint (?ts ! fst p)))) todo cs \<and>
     (\<forall>k. (\<forall>p\<in>set todo. site w1 k \<noteq> site w1 (tg_endpoint (?ts ! fst p))) \<longrightarrow> active w' k = active w1 k)"
    using Cons.IH [of w1 ?ts cs] Cons.prems rest eff sites p by simp
  have kept: "active w1 (tg_endpoint (ts ! fst q)) = active w (tg_endpoint (ts ! fst q))" if "q \<in> set todo" for q
    using eff apart [OF that] by blast
  have "list_all2 (\<lambda>p a. rolled_back a (ts ! fst p) (active w (tg_endpoint (ts ! fst p)))
       (active w' (tg_endpoint (ts ! fst p)))) todo cs"
    using IH kept apart by (auto elim!: list.rel_mono_strong)
  moreover have "active w' (tg_endpoint (ts ! i)) = active w1 (tg_endpoint (ts ! i))"
    using IH eff apart by (metis (no_types, lifting) ep)
  moreover have "list_all2 same_target ts ts'"
  proof -
    have "list_all2 same_target ts ?ts"
      using eff i by (simp add: list_all2_conv_all_nth nth_list_update)
    with IH show ?thesis by (blast intro: list_all2_trans [where ?P1.0 = same_target] same_target_trans)
  qed
  moreover have "active w' k = active w k"
    if "\<forall>q\<in>set (p # todo). site w k \<noteq> site w (tg_endpoint (ts ! fst q))" for k
    using that IH eff p ep by auto
  ultimately show ?case using IH eff p bs by auto
qed

lemma rollback_phase:
  assumes inv: "winv w" and digest: "le_digest env = digest" and sites: "distinct (sites_of w ts)"
    and m: "m \<le> length ts" and seens: "length seens = m"
    and run: "rollback_applied_targets env lo current app ctx (zip [0..<m] seens) ts w = (bs, ts', w')"
  shows "winv w' \<and> site w' = site w \<and> list_all2 same_target ts ts' \<and> length bs = m \<and>
     (\<forall>j<m. rolled_back (bs ! (m - Suc j)) (ts ! j) (active w (tg_endpoint (ts ! j))) (active w' (tg_endpoint (ts ! j)))) \<and>
     (\<forall>j<length ts. m \<le> j \<longrightarrow> active w' (tg_endpoint (ts ! j)) = active w (tg_endpoint (ts ! j))) \<and>
     (\<forall>k. site w k \<notin> set (sites_of w ts) \<longrightarrow> active w' k = active w k)"
proof -
  let ?todo = "rev (zip [0..<m] seens)"
  have fsts: "map fst ?todo = rev [0..<m]" using seens by (simp add: rev_map [symmetric])
  then have d: "distinct (map fst ?todo)" by simp
  have "fst ` set ?todo = {0..<m}" using fsts by (metis list.set_map set_rev set_upt)
  then have bound: "\<forall>p\<in>set ?todo. fst p < m" by (metis atLeastLessThan_iff image_eqI)
  then have "\<forall>p\<in>set ?todo. fst p < length ts" using m by fastforce
  note undone = rollback_targets_effect [OF inv digest sites d this run [unfolded rollback_applied_targets_def]]
  have len: "length bs = m" using undone seens by (auto dest: list_all2_lengthD)
  have nth: "fst (?todo ! n) = m - Suc n" if "n < m" for n using that seens by (simp add: rev_nth)
  have each: "rolled_back (bs ! (m - Suc j)) (ts ! j) (active w (tg_endpoint (ts ! j))) (active w' (tg_endpoint (ts ! j)))"
    if "j < m" for j
  proof -
    let ?n = "m - Suc j"
    have n: "?n < length ?todo" and f: "fst (?todo ! ?n) = j" using that seens nth [of ?n] by auto
    have "rolled_back (bs ! ?n) (ts ! fst (?todo ! ?n)) (active w (tg_endpoint (ts ! fst (?todo ! ?n))))
        (active w' (tg_endpoint (ts ! fst (?todo ! ?n))))"
      using undone n unfolding list_all2_conv_all_nth by blast
    then show ?thesis unfolding f .
  qed
  have apart: "site w (tg_endpoint (ts ! j)) \<noteq> site w (tg_endpoint (ts ! i))" if "i < m" "m \<le> j" "j < length ts" for i j
    using sites that by (auto simp: distinct_conv_nth)
  have kept: "active w' k = active w k" if "\<forall>i<m. site w k \<noteq> site w (tg_endpoint (ts ! i))" for k
  proof -
    have "\<forall>p\<in>set ?todo. site w k \<noteq> site w (tg_endpoint (ts ! fst p))" using that bound by simp
    with undone show ?thesis by simp
  qed
  have "active w' (tg_endpoint (ts ! j)) = active w (tg_endpoint (ts ! j))" if "m \<le> j" "j < length ts" for j
    using apart that by (intro kept) auto
  moreover have "active w' k = active w k" if "site w k \<notin> set (sites_of w ts)" for k
  proof (rule kept, intro allI impI)
    fix i assume "i < m"
    then have "ts ! i \<in> set ts" using m by simp
    with that show "site w k \<noteq> site w (tg_endpoint (ts ! i))" by auto
  qed
  ultimately show ?thesis using undone len each by simp
qed

lemma update_routers_effect:
  assumes inv: "winv w" and digest: "le_digest env = digest" and sites: "distinct (sites_of w ts)"
    and run: "update_routers env lo current app ctx ts w = (r, ts', s')"
  shows "winv (ls_net s') \<and> site (ls_net s') = site w \<and> list_all2 same_target ts ts' \<and>
     (\<forall>k. site w k \<notin> set (sites_of w ts) \<longrightarrow> active (ls_net s') k = active w k) \<and>
     move_report (active w) (active (ls_net s')) ts r (ls_attempts s')"
proof -
  obtain r1 ts1 s1 where one: "apply_targets env lo current app ctx 0 ts (live_state_new w) = (r1, ts1, s1)"
    by (metis prod_cases3)
  have start: "ls_net (live_state_new w) = w" "ls_attempts (live_state_new w) = []"
    "ls_applied (live_state_new w) = []" by (simp_all add: live_state_new_def)
  note eff = apply_targets_effect [of "live_state_new w", unfolded start, OF inv digest sites one]
  then obtain m seens acts rest where
    moved: "moved_until (active w) (active (ls_net s1)) ts ts1 m" and m: "r1 = Inr None \<longleftrightarrow> m = length ts"
    and seens: "length seens = m" "ls_applied s1 = zip [0..<m] seens"
    and attempts: "ls_attempts s1 = acts @ rest" "reports_active (take m ts) acts"
    by (auto simp: loop_progress_def start)
  have same: "list_all2 same_target ts ts1" and le: "m \<le> length ts" using moved by (simp_all add: moved_until_def)
  have cand: "serves_routes (active (ls_net s1) (tg_endpoint (ts ! j))) (tg_candidate (ts ! j))" if "j < m" for j
  proof -
    have "same_target (ts ! j) (ts1 ! j)" using same le that by (simp add: list_all2_conv_all_nth)
    with moved that show ?thesis by (auto simp: moved_until_def same_target_def intro: serves_routes_Some)
  qed
  have mth: "m < length ts \<Longrightarrow> active (ls_net s1) (tg_endpoint (ts ! m)) = active w (tg_endpoint (ts ! m)) \<or>
      serves_routes (active (ls_net s1) (tg_endpoint (ts ! m))) (tg_candidate (ts ! m))"
    using moved same by (auto simp: moved_until_def list_all2_conv_all_nth same_target_def serves_routes_def)
  show ?thesis
  proof (cases "\<exists>failure. r1 = Inr (Some failure)")
    case False
    then have res: "r = r1" "ts' = ts1" "s' = s1"
      using run one by (auto simp: update_routers_def split: sum.splits option.splits)
    have "move_report (active w) (active (ls_net s1)) ts r1 (ls_attempts s1)"
      unfolding move_report_def
      using attempts moved mth cand m le False
      by (intro exI [of _ m] exI [of _ acts] exI [of _ rest])
        (auto simp: moved_until_def in_set_conv_nth split: sum.splits option.splits)
    with res eff same show ?thesis by simp
  next
    case True
    then obtain failure where failure: "r1 = Inr (Some failure)" ..
    then have lt: "m < length ts" using m le by auto
    obtain bs w2 where roll: "rollback_applied_targets env lo current app ctx (zip [0..<m] seens) ts1 (ls_net s1) =
        (bs, ts', w2)"
      and res: "r = Inr (Some failure)" "s' = s1\<lparr>ls_net := w2, ls_attempts := ls_attempts s1 @ bs\<rparr>"
      using run one failure seens(2) by (auto simp: update_routers_def split: prod.splits)
    have ep: "tg_endpoint (ts1 ! j) = tg_endpoint (ts ! j)" if "j < length ts" for j
      using same that by (simp add: list_all2_conv_all_nth same_target_def)
    have len1: "length ts1 = length ts" using same by (simp add: list_all2_lengthD)
    have sites1: "sites_of (ls_net s1) ts1 = sites_of w ts"
      using eff ep len1 by (auto simp: list_eq_iff_nth_eq)
    have "distinct (sites_of (ls_net s1) ts1)" "m \<le> length ts1" using sites sites1 lt len1 by simp_all
    note undone = rollback_phase [OF conjunct1 [OF eff] digest this seens(1) roll]
    have each: "let a = bs ! (m - Suc j); t = ts ! j; new = active w2 (tg_endpoint t)
        in ra_router a = tg_id t \<and> ra_status a \<in> {RaRolledBack, RaFailed} \<and>
           (serves_routes new (tg_old t) \<or> ra_status a = RaFailed \<and> serves_routes new (tg_candidate t))"
      if "j < m" for j
    proof -
      have "same_target (ts ! j) (ts1 ! j)" using same that lt by (simp add: list_all2_conv_all_nth)
      moreover have "rolled_back (bs ! (m - Suc j)) (ts1 ! j) (active (ls_net s1) (tg_endpoint (ts ! j)))
          (active w2 (tg_endpoint (ts ! j)))"
        using undone that ep lt by simp
      ultimately show ?thesis unfolding Let_def using cand [OF that] by (rule rolled_back_report)
    qed
    have later: "active w2 (tg_endpoint (ts ! j)) = active (ls_net s1) (tg_endpoint (ts ! j))"
      if "m \<le> j" "j < length ts" for j
      using undone that ep len1 by auto
    have "move_report (active w) (active w2) ts r (ls_attempts s1 @ bs)"
      unfolding res
    proof (rule move_report_failedI [OF _ attempts(2) lt])
      show "ls_attempts s1 @ bs = acts @ rest @ bs" by (simp add: attempts(1))
      show "active w2 (tg_endpoint (ts ! j)) = active w (tg_endpoint (ts ! j))" if "j < length ts" "m < j" for j
        using later [of j] that moved by (simp add: moved_until_def)
      show "active w2 (tg_endpoint (ts ! m)) = active w (tg_endpoint (ts ! m)) \<or>
          serves_routes (active w2 (tg_endpoint (ts ! m))) (tg_candidate (ts ! m))"
        using mth [OF lt] later [of m] lt by simp
      show "length bs = m" using undone by blast
    qed (rule each)
    moreover have "list_all2 same_target ts ts'"
      using list_all2_trans [OF _ same] undone same_target_trans by blast
    moreover have "active w2 k = active w k" if "site w k \<notin> set (sites_of w ts)" for k
    proof -
      have "site (ls_net s1) k \<notin> set (sites_of (ls_net s1) ts1)" using that eff unfolding sites1 by simp
      then have "active w2 k = active (ls_net s1) k" using undone by blast
      also have "\<dots> = active w k" using eff that by blast
      finally show ?thesis .
    qed
    ultimately show ?thesis using res eff undone by simp
  qed
qed

end

section \<open>The operation on the network of routers\<close>

lemma live_targets_nonempty: "live_targets li request consumer grp = Inr (plan, ts) \<Longrightarrow> ts \<noteq> []"
  by (auto simp: live_targets_def and_then_Inr reject_if_Inr)

text \<open>How the result of the operation tells what happened to the routers.\<close>

definition tells :: "api_error_v1 + live_outcome \<Rightarrow> api_error_v1 + string option \<Rightarrow> router_apply_record list \<Rightarrow> bool" where
  "tells result r attempts \<longleftrightarrow>
     (case result of
        Inl e \<Rightarrow> r \<in> {Inl e, Inr None}
      | Inr outcome \<Rightarrow>
          lc_attempts outcome = attempts \<and>
          (if cr_exit_code (lc_result outcome) = 0 then r = Inr None else \<exists>failure. r = Inr (Some failure)))"

lemma apply_live_binding_run:
  assumes "cq_instance request = Some consumer" and "cq_group request = Some grp"
    and "live_targets li request consumer grp = Inr (plan, ts)"
    and "structured_context_new (le_store env)
       (le_transitions_json env (snapshot_transitions (snapshot_of (tg_candidate (hd ts))))) = Inr ctx"
    and "apply_live_binding env li current app request operation_id w = (result, events, w')"
  obtains lo r ts' s where "update_routers env lo current app ctx ts w = (r, ts', s)"
    and "ls_net s = w'" and "tells result r (ls_attempts s)"
proof -
  let ?lo = "\<lparr>lo_deployment = pl_deployment plan, lo_consumer = consumer,
      lo_operation_id = operation_id, lo_transition = cq_transition request\<rparr>"
  obtain r ts' s where up: "update_routers env ?lo current app ctx ts w = (r, ts', s)" by (metis prod_cases3)
  consider (abort) e where "r = Inl e" | (failed) f where "r = Inr (Some f)" | (success) "r = Inr None"
    by (metis not_None_eq obj_sumE)
  then have "ls_net s = w' \<and> tells result r (ls_attempts s)"
    using assms(5) up
    by cases (auto simp: apply_live_binding_def required_def assms(1-4) Let_def tells_def split: sum.splits)
  with up that show ?thesis by blast
qed

section \<open>A worked move\<close>

definition sample_call :: channel_call where
  "sample_call =
     \<lparr>cc_env = sample_env, cc_refused = None, cc_write_ok = True, cc_lost = None, cc_inspect_failure = None,
      cc_exec_failure = None, cc_exec_lost = None, cc_non_utf8 = None\<rparr>"

definition sample_net :: router_net where
  "sample_net =
     \<lparr>rn_routers = [HostSocket ''/p/.apmpr/run/demo/host.socket'' \<mapsto>
        \<lparr>rp_token = ''secret'', rp_state = sample_control\<rparr>],
      rn_inspection = (\<lambda>_. []), rn_calls = (\<lambda>_. sample_call), rn_clock = 0\<rparr>"

lemma sample_net_inv: "net_inv (\<lambda>_. ''abc'') sample_net"
  using sample_control_inv by (auto simp: net_inv_def sample_net_def sample_call_def)

definition sample_live_env :: live_env where
  "sample_live_env =
     \<lparr>le_store = sample_store_env, le_now = 7, le_digest = (\<lambda>_. ''abc''),
      le_transitions_json = (\<lambda>_. JNull), le_cancelled = (\<lambda>_. False)\<rparr>"

definition sample_candidate :: router_config where
  "sample_candidate = (sample_config 2)\<lparr>metadata_deployment := ''moved''\<rparr>"

definition sample_plan :: live_plan where
  "sample_plan =
     \<lparr>pl_deployment = ''demo'', pl_resource_hash = ''hash'', pl_artifact_dir = ''.apmpr/gen'',
      pl_route_configs = [], pl_sidecars = [], pl_host_router_config = Some ''new''\<rparr>"

definition sample_inputs :: "(unit, unit) live_inputs" where
  "sample_inputs =
     \<lparr>li_root = ''/p'', li_load_bundle = (\<lambda>_. Inr ()), li_devices = Inr (), li_plan = (\<lambda>_ _. Inr sample_plan),
      li_plan_with_membership = (\<lambda>_ _ _ _. Inr sample_plan), li_is_file = (\<lambda>_. False),
      li_read = (\<lambda>_. FileContents ''old''), li_from_slice = (\<lambda>_. Inr JNull),
      li_decode_config = (\<lambda>s. Inr (if s = ''old'' then sample_config 1 else sample_candidate)),
      li_encode_config = (\<lambda>_. Inr ''text''), li_print = (\<lambda>_. ''null''), li_write = (\<lambda>_ _. None),
      li_write_plan = (\<lambda>_. None)\<rparr>"

definition sample_move :: command_request where
  "sample_move =
     \<lparr>cq_bundle = ''deployment.yaml'', cq_instance = Some ''web'', cq_group = Some ''green'',
      cq_transition = None, cq_target = None, cq_ui = None, cq_routes = False, cq_confirmed = False\<rparr>"

definition sample_target :: router_target where
  "sample_target =
     \<lparr>tg_id = ''host-gateway'', tg_route_instance = None,
      tg_endpoint = UnixEndpoint ''/p/.apmpr/run/demo/host.socket'',
      tg_old = sample_config 1, tg_candidate = sample_candidate\<rparr>"

lemma sample_live_targets:
  "live_targets sample_inputs sample_move ''web'' ''green'' = Inr (sample_plan, [sample_target])"
  by code_simp

section \<open>Properties of the live move\<close>

text \<open>
  C32. A live move tells the truth about the routers, whatever the network, Docker and the
  routers do in between: when it reports success, every router it had to update serves the
  routes of its candidate and has an \<open>active\<close> attempt in order; when it reports failure, the
  routers after the failing one are untouched, the failing one serves what it served or its
  candidate, and each router updated before it has a rollback attempt: \<open>rolled_back\<close> only if it
  serves its old routes again, otherwise \<open>failed\<close> with the old or the new routes in place; when
  it ends with an error, the routers updated so far keep their candidates. Routers that are not
  targets never change, and the invariant of every router process is kept.
\<close>

theorem live_move_outcome:
  assumes "admin_wire_laws wire" and "net_inv (le_digest env) net"
    and "cq_instance request = Some consumer" and "cq_group request = Some grp"
    and "live_targets li request consumer grp = Inr (plan, ts)"
    and "structured_context_new (le_store env)
       (le_transitions_json env (snapshot_transitions (snapshot_of (tg_candidate (hd ts))))) = Inr ctx"
    and "distinct (map (\<lambda>t. endpoint_site wire net (tg_endpoint t)) ts)"
    and "apply_live_binding env li (current_snapshot wire token) (apply_snapshot wire token) request
       operation_id net = (result, events, net')"
  shows "net_inv (le_digest env) net' \<and>
     (\<forall>k. endpoint_site wire net k \<notin> set (map (\<lambda>t. endpoint_site wire net (tg_endpoint t)) ts) \<longrightarrow>
        endpoint_active wire net' k = endpoint_active wire net k) \<and>
     (\<exists>r attempts. tells result r attempts \<and>
        move_report (endpoint_active wire net) (endpoint_active wire net') ts r attempts)"
proof -
  obtain lo r ts' s where up: "update_routers env lo (current_snapshot wire token) (apply_snapshot wire token)
      ctx ts net = (r, ts', s)" and s: "ls_net s = net'" "tells result r (ls_attempts s)"
    by (rule apply_live_binding_run [OF assms(3-6,8)])
  show ?thesis
    using router_net.update_routers_effect [OF conjI [OF assms(1,2)] refl assms(7) up] s by blast
qed

theorem live_move_outcome_witness:
  "\<exists>result events net'. apply_live_binding sample_live_env sample_inputs (current_snapshot numbered_wire ''secret'')
       (apply_snapshot numbered_wire ''secret'') sample_move ''op-1'' sample_net = (result, events, net') \<and>
     (\<exists>r attempts. tells result r attempts \<and>
        move_report (endpoint_active numbered_wire sample_net) (endpoint_active numbered_wire net') [sample_target] r attempts)"
proof -
  obtain result events net' where run: "apply_live_binding sample_live_env sample_inputs
      (current_snapshot numbered_wire ''secret'') (apply_snapshot numbered_wire ''secret'') sample_move ''op-1''
      sample_net = (result, events, net')"
    by (metis prod_cases3)
  have ctx: "structured_context_new (le_store sample_live_env)
      (le_transitions_json sample_live_env (snapshot_transitions (snapshot_of (tg_candidate (hd [sample_target]))))) =
      Inr (StructuredContext (se_to_string sample_store_env JNull))"
    by (simp add: sample_live_env_def structured_context_new_def)
  have inv: "net_inv (le_digest sample_live_env) sample_net"
    using sample_net_inv by (simp add: sample_live_env_def)
  have req: "cq_instance sample_move = Some ''web''" "cq_group sample_move = Some ''green''"
    by (simp_all add: sample_move_def)
  show ?thesis
    using live_move_outcome [OF numbered_wire_laws inv req sample_live_targets ctx _ run] run by auto
qed

text \<open>
  Where the error case of the report comes from: when a router reports the highest version there
  is, after any number of routers have been moved, the operation returns
  \<open>snapshot_version_exhausted\<close> at once, on any channel. The network is as the version request left
  it, so by the report every router before this one keeps its candidate: nothing is rolled back,
  and the attempts, which only a \<open>LiveBinding\<close> outcome carries, are lost.
\<close>

lemma apply_targets_exhausted:
  assumes "apply_targets env lo current app ctx i moved s = (Inr None, moved', s1)"
    and "\<not> le_cancelled env (i + length moved)" and "current (tg_endpoint t) (ls_net s1) = (Inr seen, w2)"
    and "unat (si_version seen) = 2 ^ 64 - 1"
  shows "apply_targets env lo current app ctx i (moved @ t # later) s =
     (Inl (api_error_new ''snapshot_version_exhausted'' ''router snapshot version is exhausted''),
      moved' @ t # later, s1\<lparr>ls_net := w2\<rparr>)"
  using assms(1,2)
proof (induction moved arbitrary: i s moved')
  case Nil
  then show ?case using assms(3,4) by (simp add: apply_target_def u64_checked_succ_def)
next
  case (Cons u us)
  then obtain u' s' us' where go: "apply_target env lo current app ctx i u s = (Inr None, u', s')"
    "apply_targets env lo current app ctx (Suc i) us s' = (Inr None, us', s1)" "moved' = u' # us'"
    "\<not> le_cancelled env i"
    by (auto split: if_splits prod.splits sum.splits option.splits)
  with Cons.IH [OF go(2)] Cons.prems(2) show ?case by simp
qed

lemma exhausted_version_skips_rollback:
  assumes "apply_targets env lo current app ctx 0 moved (live_state_new w) = (Inr None, moved', s1)"
    and "\<not> le_cancelled env (length moved)" and "current (tg_endpoint t) (ls_net s1) = (Inr seen, w2)"
    and "unat (si_version seen) = 2 ^ 64 - 1"
  shows "update_routers env lo current app ctx (moved @ t # later) w =
     (Inl (api_error_new ''snapshot_version_exhausted'' ''router snapshot version is exhausted''),
      moved' @ t # later, s1\<lparr>ls_net := w2\<rparr>)"
  using apply_targets_exhausted [OF assms(1) _ assms(3,4), of later] assms(2) by (simp add: update_routers_def)

text \<open>
  C33. The client acts only on routers the deployment owns: whatever is requested, a router
  keeps its state unless it is the one behind the endpoint's host socket, or the one in the
  container whose inspected labels name exactly the endpoint's deployment, instance and resource
  hash, reached by the inspected container identifier rather than by its name.
\<close>

theorem only_owned_routers_are_reached:
  assumes "admin_wire_laws wire" and "send_request wire e req net = (r, net')"
  shows "rn_routers net' s = rn_routers net s \<or> owned_site wire net e s"
  using send_request_owned [OF assms] by blast

theorem only_owned_routers_are_reached_witness:
  "\<exists>r net'. send_request numbered_wire (UnixEndpoint ''/a'') JNull sample_net = (r, net') \<and>
     rn_routers net' (HostSocket ''/b'') = rn_routers sample_net (HostSocket ''/b'')"
proof -
  obtain r net' where run: "send_request numbered_wire (UnixEndpoint ''/a'') JNull sample_net = (r, net')"
    by fastforce
  with only_owned_routers_are_reached [OF numbered_wire_laws run, of "HostSocket ''/b''"] show ?thesis
    by (auto simp: owned_site_def)
qed

end
