(* ===== verification/DaemonOps.thy ===== *)
theory DaemonOps
  imports LiveBinding
begin

text \<open>
  The life of an operation in the daemon (\<open>apmpr-daemon/src/server.rs\<close>): \<open>begin_operation\<close>
  takes the deployment's lease and stores the operation, its task waits for the permit of heavy
  work, runs the backend while it renews the lease, and \<open>finish_operation\<close> records the result,
  releases the lease and evicts old operations from memory. Tasks, cancellations and other
  processes interleave; the daemon is a step relation over its shared state.
\<close>

section \<open>State\<close>

record runtime_operation =
  ru_operation :: operation_v1
  ru_cancelled :: bool
  ru_events :: event_log

datatype structured_command = SUp | SDown | SPlan | SStatus

datatype operation_spec =
    StructuredSpec structured_command string
  | MembershipSpec string string string
  | ShellSpec string

datatype operation_invocation =
    CommandInvocation "string list" command_request
  | RunActionInvocation operation_spec
  | CloneInvocation

text \<open>
  The local variables of \<open>execute_operation\<close>: the phase is before \<open>set_running\<close>, in the loop, or
  after it with the permit dropped; the last two carry the error of a failed lease renewal.
\<close>

datatype task_phase = AwaitPermit | Working "api_error_v1 option" | Ended "api_error_v1 option"

record op_task =
  tk_kind :: command_kind
  tk_invocation :: operation_invocation
  tk_lock :: "operation_lock option"
  tk_permit :: bool
  tk_phase :: task_phase

record daemon_state =
  dn_db :: database
  dn_ops :: "(string, runtime_operation) btree"
  dn_terminal :: "string list"
  dn_permits :: nat
  dn_tasks :: "(string, op_task) btree"

text \<open>Identity of the daemon process and what the planner knows of a bundle.\<close>

record daemon_env =
  de_store :: store_env
  de_instance_id :: string
  de_pid :: u32
  de_root :: string
  de_bundle :: "string \<Rightarrow> (string list \<times> string list) option"

definition prepared :: "nat \<Rightarrow> database \<Rightarrow> daemon_state" where
  "prepared max_heavy db =
     \<lparr>dn_db = db, dn_ops = [], dn_terminal = [], dn_permits = max_heavy, dn_tasks = []\<rparr>"

section \<open>Invocations\<close>

fun invocation_mutating :: "operation_invocation \<Rightarrow> command_kind \<Rightarrow> bool" where
  "invocation_mutating (CommandInvocation _ _) kind = mutating kind"
| "invocation_mutating (RunActionInvocation (StructuredSpec command _)) kind = (command \<in> set [SUp, SDown])"
| "invocation_mutating (RunActionInvocation _) kind = False"
| "invocation_mutating CloneInvocation kind = True"

fun invocation_heavy :: "operation_invocation \<Rightarrow> command_kind \<Rightarrow> bool" where
  "invocation_heavy (CommandInvocation _ _) kind = heavy kind"
| "invocation_heavy (RunActionInvocation (StructuredSpec command _)) kind = (command = SUp)"
| "invocation_heavy (RunActionInvocation _) kind = False"
| "invocation_heavy CloneInvocation kind = True"

definition known_instance :: "daemon_env \<Rightarrow> string \<Rightarrow> string \<Rightarrow> bool \<Rightarrow> string option" where
  "known_instance env bundle candidate require_managed_profile =
     (case de_bundle env (path_join (de_root env) bundle) of
        None \<Rightarrow> None
      | Some (instances, managed_profiles) \<Rightarrow>
          if require_managed_profile \<and> candidate \<notin> set managed_profiles then None
          else if candidate \<in> set instances then Some candidate else None)"

fun invocation_instance :: "daemon_env \<Rightarrow> operation_invocation \<Rightarrow> command_kind \<Rightarrow> string option" where
  "invocation_instance env (CommandInvocation _ request) kind =
     (if kind = CmdMembership
      then Option.bind (cq_instance request) (\<lambda>i. known_instance env (cq_bundle request) i False)
      else if kind = CmdLogs
      then Option.bind (cq_target request) (\<lambda>t.
             known_instance env (cq_bundle request)
               (case split_once CHR ''/'' t of None \<Rightarrow> t | Some (i, _) \<Rightarrow> i) False)
      else if kind = CmdOpen
      then Option.bind (open_instance request) (\<lambda>i. known_instance env (cq_bundle request) i True)
      else None)"
| "invocation_instance env (RunActionInvocation (MembershipSpec bundle inst _)) kind =
     known_instance env bundle inst False"
| "invocation_instance env (RunActionInvocation _) kind = None"
| "invocation_instance env CloneInvocation kind = None"

text \<open>The bundle whose applied snapshot a success persists.\<close>

fun persistence_bundle :: "operation_invocation \<Rightarrow> command_kind \<Rightarrow> string option" where
  "persistence_bundle (CommandInvocation _ request) kind =
     (if kind \<in> set [CmdApply, CmdMembership] then Some (cq_bundle request) else None)"
| "persistence_bundle (RunActionInvocation (StructuredSpec SUp bundle)) kind = Some bundle"
| "persistence_bundle (RunActionInvocation _) kind = None"
| "persistence_bundle CloneInvocation kind = None"

section \<open>Beginning an operation\<close>

type_synonym http_status = nat

definition internal_error :: "state_error \<Rightarrow> http_status \<times> api_error_v1" where
  "internal_error e = (500, api_error_new ''internal_error'' (state_error_text e))"

definition contended_message :: "operation_invocation \<Rightarrow> string \<Rightarrow> string" where
  "contended_message iv deployment =
     (if iv = CloneInvocation
      then ''source `'' @ drop (length ''source:'') deployment @ ''` already has a clone in progress''
      else ''deployment `'' @ deployment @ ''` already has a mutation in progress'')"

text \<open>A store call whose result is ignored: \<open>let _ = store.call(...)\<close>.\<close>

definition try_store :: "unit store_op \<Rightarrow> database \<Rightarrow> database" where
  "try_store op db = (case op db of Inl _ \<Rightarrow> db | Inr (_, db') \<Rightarrow> db')"

definition operation_event :: "string \<Rightarrow> i64 \<Rightarrow> json \<Rightarrow> event_log \<Rightarrow> event_log" where
  "operation_event id' now data = log_emit (id', OperationEvent, now, data)"

definition begin_lock ::
  "daemon_env \<Rightarrow> operation_invocation \<Rightarrow> command_kind \<Rightarrow> string \<Rightarrow> string \<Rightarrow> i64 \<Rightarrow> database
     \<Rightarrow> (http_status \<times> api_error_v1) + operation_lock option \<times> database" where
  "begin_lock env iv kind deployment token now db =
     (if \<not> invocation_mutating iv kind then Inr (None, db)
      else case acquire_lock
                  \<lparr>lr_deployment = deployment, lr_owner = de_instance_id env, lr_pid = de_pid env,
                   lr_process_started_at = now, lr_token = token, lr_now = now,
                   lr_ttl_millis = LOCK_TTL_MILLIS\<rparr> db of
             Inr (lock, db) \<Rightarrow> Inr (Some lock, db)
           | Inl (LockContended _ _ _) \<Rightarrow>
               Inl (409, api_error_new ''operation_lock_contended'' (contended_message iv deployment))
           | Inl e \<Rightarrow> Inl (internal_error e))"

definition pending_operation ::
  "operation_invocation \<Rightarrow> command_kind \<Rightarrow> string \<Rightarrow> string \<Rightarrow> string option \<Rightarrow> i64 \<Rightarrow> operation_v1" where
  "pending_operation iv kind id' deployment inst now =
     \<lparr>ov_api_version = API_VERSION_V1, ov_id = id', ov_deployment = deployment, ov_instance = inst,
      ov_kind = kind, ov_destructive = operation_is_destructive kind, ov_status = OpPending,
      ov_started_at = now, ov_finished_at = None, ov_error = None, ov_result = None\<rparr>"

definition begin_operation ::
  "daemon_env \<Rightarrow> command_kind \<Rightarrow> string \<Rightarrow> operation_invocation \<Rightarrow> string \<Rightarrow> string \<Rightarrow> i64 \<Rightarrow> daemon_state
     \<Rightarrow> ((http_status \<times> api_error_v1) + operation_v1) \<times> daemon_state" where
  "begin_operation env kind deployment iv id' token now st =
     (case begin_lock env iv kind deployment token now (dn_db st) of
        Inl e \<Rightarrow> (Inl e, st)
      | Inr (lock, db) \<Rightarrow>
          (let inst = invocation_instance env iv kind;
               op = pending_operation iv kind id' deployment inst now
           in case start_operation (de_store env)
                     \<lparr>op_id = id', op_deployment = deployment, op_instance = inst, op_kind = state_kind kind,
                      op_status = OpPending, op_started_at = now, op_finished_at = None, op_error = None\<rparr> db of
                Inl e \<Rightarrow>
                  (Inl (internal_error e),
                   st\<lparr>dn_db := (case lock of None \<Rightarrow> db | Some l \<Rightarrow> try_store (release_lock l) db)\<rparr>)
              | Inr (_, db) \<Rightarrow>
                  (Inr op,
                   st\<lparr>dn_db := db,
                      dn_ops := bt_insert id'
                        \<lparr>ru_operation = op, ru_cancelled = False,
                         ru_events = operation_event id' now (jobj [(''status'', JStr ''pending'')]) event_log_new\<rparr>
                        (dn_ops st),
                      dn_tasks := bt_insert id'
                        \<lparr>tk_kind = kind, tk_invocation = iv, tk_lock = lock, tk_permit = False,
                         tk_phase = AwaitPermit\<rparr> (dn_tasks st)\<rparr>)))"

section \<open>Running and finishing\<close>

definition update_op ::
  "string \<Rightarrow> (runtime_operation \<Rightarrow> runtime_operation) \<Rightarrow> daemon_state \<Rightarrow> daemon_state" where
  "update_op id' f st =
     (case bt_get (dn_ops st) id' of
        None \<Rightarrow> st
      | Some ru \<Rightarrow> st\<lparr>dn_ops := bt_insert id' (f ru) (dn_ops st)\<rparr>)"

definition set_running :: "daemon_env \<Rightarrow> string \<Rightarrow> i64 \<Rightarrow> daemon_state \<Rightarrow> daemon_state" where
  "set_running env id' now st =
     update_op id' (\<lambda>ru. ru\<lparr>ru_operation := (ru_operation ru)\<lparr>ov_status := OpRunning\<rparr>,
          ru_events := operation_event id' now (jobj [(''status'', JStr ''running'')]) (ru_events ru)\<rparr>)
       (st\<lparr>dn_db := try_store (update_operation (de_store env) id' OpRunning None None) (dn_db st)\<rparr>)"

definition api_error_json :: "api_error_v1 \<Rightarrow> json" where
  "api_error_json e =
     jobj ([(''code'', JStr (ae_code e)), (''message'', JStr (ae_message e))] @
       (case ae_context e of None \<Rightarrow> [] | Some c \<Rightarrow> [(''context'', c)]))"

definition stored_error :: "store_env \<Rightarrow> api_error_v1 option \<Rightarrow> operation_error option" where
  "stored_error env e =
     Option.bind e (\<lambda>e.
       case structured_context_new env (case ae_context e of None \<Rightarrow> JObj [] | Some c \<Rightarrow> c) of
         Inl _ \<Rightarrow> None
       | Inr ctx \<Rightarrow> Some \<lparr>oe_code = ae_code e, oe_context = ctx\<rparr>)"

definition retain_terminal_operation :: "string \<Rightarrow> daemon_state \<Rightarrow> daemon_state" where
  "retain_terminal_operation id' st =
     (let finished = dn_terminal st @ [id']
      in if TERMINAL_OPERATION_RETENTION < length finished
         then st\<lparr>dn_terminal := tl finished, dn_ops := bt_delete (hd finished) (dn_ops st)\<rparr>
         else st\<lparr>dn_terminal := finished\<rparr>)"

definition finish_operation ::
  "daemon_env \<Rightarrow> string \<Rightarrow> operation_status \<Rightarrow> command_result option \<Rightarrow> api_error_v1 option \<Rightarrow> i64
     \<Rightarrow> operation_lock option \<Rightarrow> daemon_state \<Rightarrow> daemon_state" where
  "finish_operation env id' status result failure now lock st =
     (let st = update_op id' (\<lambda>ru. ru\<lparr>ru_operation := (ru_operation ru)
                 \<lparr>ov_status := status, ov_finished_at := Some now, ov_result := result, ov_error := failure\<rparr>\<rparr>) st;
          db = try_store (update_operation (de_store env) id' status (Some now)
                 (stored_error (de_store env) failure)) (dn_db st);
          db = (case lock of None \<Rightarrow> db | Some l \<Rightarrow> try_store (release_lock l) db);
          st = update_op id' (\<lambda>ru. ru\<lparr>ru_events := log_finish (operation_event id' now
                 (jobj [(''status'', JStr (operation_status_str status)),
                        (''error'', case failure of None \<Rightarrow> JNull | Some e \<Rightarrow> api_error_json e)])
                 (ru_events ru))\<rparr>) (st\<lparr>dn_db := db\<rparr>)
      in retain_terminal_operation id' st)"

definition cancelled_error :: api_error_v1 where
  "cancelled_error = api_error_new ''operation_cancelled'' ''operation was cancelled''"

text \<open>The end of a task: its local state is gone.\<close>

definition end_task :: "string \<Rightarrow> daemon_state \<Rightarrow> daemon_state" where
  "end_task id' st = st\<lparr>dn_tasks := bt_delete id' (dn_tasks st)\<rparr>"

text \<open>The work of a task is over: \<open>drop(permit)\<close>, before anything is recorded.\<close>

definition drop_permit :: "string \<Rightarrow> op_task \<Rightarrow> api_error_v1 option \<Rightarrow> daemon_state \<Rightarrow> daemon_state" where
  "drop_permit id' t lock_lost st =
     st\<lparr>dn_permits := (if tk_permit t then dn_permits st + 1 else dn_permits st),
        dn_tasks := bt_insert id' (t\<lparr>tk_permit := False, tk_phase := Ended lock_lost\<rparr>) (dn_tasks st)\<rparr>"

definition start_work :: "daemon_env \<Rightarrow> string \<Rightarrow> op_task \<Rightarrow> i64 \<Rightarrow> daemon_state \<Rightarrow> daemon_state" where
  "start_work env id' t now st =
     (let takes = invocation_heavy (tk_invocation t) (tk_kind t);
          st = set_running env id' now st
      in st\<lparr>dn_permits := (if takes then dn_permits st - 1 else dn_permits st),
            dn_tasks := bt_insert id' (t\<lparr>tk_permit := takes, tk_phase := Working None\<rparr>) (dn_tasks st)\<rparr>)"

definition cancel_waiting :: "daemon_env \<Rightarrow> string \<Rightarrow> op_task \<Rightarrow> i64 \<Rightarrow> daemon_state \<Rightarrow> daemon_state" where
  "cancel_waiting env id' t now st =
     end_task id'
       (finish_operation env id' OpCancelled None (Some cancelled_error) now (tk_lock t) st)"

text \<open>One tick of the heartbeat; a failure cancels the operation, which then only awaits its work.\<close>

definition heartbeat_tick :: "string \<Rightarrow> op_task \<Rightarrow> operation_lock \<Rightarrow> i64 \<Rightarrow> daemon_state \<Rightarrow> daemon_state" where
  "heartbeat_tick id' t lock now st =
     (case heartbeat_lock lock now LOCK_TTL_MILLIS (dn_db st) of
        Inr (lock, db) \<Rightarrow>
          st\<lparr>dn_db := db, dn_tasks := bt_insert id' (t\<lparr>tk_lock := Some lock\<rparr>) (dn_tasks st)\<rparr>
      | Inl e \<Rightarrow>
          update_op id' (\<lambda>ru. ru\<lparr>ru_cancelled := True\<rparr>)
            (st\<lparr>dn_tasks := bt_insert id' (t\<lparr>tk_phase := Working (Some (state_api_error e))\<rparr>) (dn_tasks st)\<rparr>))"

section \<open>Concluding\<close>

datatype backend_outcome =
    Completed command_result
  | CancelledOutcome command_result
  | LiveBindingOutcome command_result "router_apply_record list"

text \<open>
  \<open>persist_applied_snapshot\<close>: the planner and the file system give the deployment, the
  definition hash and the value of the resolved bundle, or an error.
\<close>

definition persist_applied_snapshot ::
  "store_env \<Rightarrow> api_error_v1 + string \<times> string \<times> json \<Rightarrow> i64 \<Rightarrow> database
     \<Rightarrow> api_error_v1 + database" where
  "persist_applied_snapshot env planned now db =
     and_then planned (\<lambda>(deployment, definition_hash, value).
       case snapshot_from_json env value of
         Inl e \<Rightarrow> Inl (state_api_error e)
       | Inr snapshot \<Rightarrow>
           (case record_applied_snapshot env deployment definition_hash snapshot now db of
              Inl e \<Rightarrow> Inl (state_api_error e)
            | Inr (_, db) \<Rightarrow> Inr db))"

definition exit_ok :: "api_error_v1 + backend_outcome \<Rightarrow> bool" where
  "exit_ok outcome \<longleftrightarrow>
     (case outcome of
        Inr (Completed r) \<Rightarrow> cr_exit_code r = 0
      | Inr (LiveBindingOutcome r _) \<Rightarrow> cr_exit_code r = 0
      | _ \<Rightarrow> False)"

definition persist_outcome ::
  "daemon_env \<Rightarrow> op_task \<Rightarrow> (string \<Rightarrow> api_error_v1 + string \<times> string \<times> json) \<Rightarrow> api_error_v1 option
     \<Rightarrow> api_error_v1 + backend_outcome \<Rightarrow> i64 \<Rightarrow> database
     \<Rightarrow> (api_error_v1 + backend_outcome) \<times> database" where
  "persist_outcome env t resolve lock_lost outcome now db =
     (case persistence_bundle (tk_invocation t) (tk_kind t) of
        None \<Rightarrow> (outcome, db)
      | Some bundle \<Rightarrow>
          if lock_lost = None \<and> exit_ok outcome
          then (case persist_applied_snapshot (de_store env) (resolve bundle) now db of
                  Inl e \<Rightarrow> (Inl e, db)
                | Inr db' \<Rightarrow> (outcome, db'))
          else (outcome, db))"

text \<open>Status, result and error by the arms of the final \<open>match\<close>.\<close>

definition conclusion ::
  "api_error_v1 option \<Rightarrow> unit state_result \<Rightarrow> api_error_v1 + backend_outcome
     \<Rightarrow> operation_status \<times> command_result option \<times> api_error_v1 option" where
  "conclusion lock_lost recorded outcome =
     (case outcome of
        Inl e \<Rightarrow> (OpFailed, None, Some e)
      | Inr (LiveBindingOutcome r _) \<Rightarrow>
          (case option_or lock_lost (case recorded of Inl e \<Rightarrow> Some (state_api_error e) | Inr _ \<Rightarrow> None) of
             Some e \<Rightarrow> (OpFailed, Some r, Some e)
           | None \<Rightarrow>
               if cr_exit_code r = 0 then (OpSucceeded, Some r, None)
               else (OpFailed, Some r, Some (api_error_new ''router_apply_failed'' ''live binding change failed'')))
      | Inr (Completed r) \<Rightarrow>
          if cr_exit_code r = 0 \<and> lock_lost = None then (OpSucceeded, Some r, None)
          else (OpFailed, Some r,
                option_or lock_lost (Some (api_error_new ''command_failed'' ''apmpr command failed'')))
      | Inr (CancelledOutcome r) \<Rightarrow>
          if lock_lost = None then (OpCancelled, Some r, Some cancelled_error)
          else (OpFailed, Some r, lock_lost))"

definition recorded_attempts ::
  "store_env \<Rightarrow> api_error_v1 + backend_outcome \<Rightarrow> database \<Rightarrow> unit state_result \<times> database" where
  "recorded_attempts env outcome db =
     (case outcome of
        Inr (LiveBindingOutcome _ attempts) \<Rightarrow> record_attempts env attempts db
      | _ \<Rightarrow> (Inr (), db))"

definition complete_operation ::
  "daemon_env \<Rightarrow> (string \<Rightarrow> api_error_v1 + string \<times> string \<times> json) \<Rightarrow> string \<Rightarrow> op_task
     \<Rightarrow> api_error_v1 option \<Rightarrow> api_error_v1 + backend_outcome \<Rightarrow> i64 \<Rightarrow> daemon_state \<Rightarrow> daemon_state" where
  "complete_operation env resolve id' t lock_lost outcome now st =
     (let (outcome, db) = persist_outcome env t resolve lock_lost outcome now (dn_db st);
          (recorded, db) = recorded_attempts (de_store env) outcome db;
          (status, result, failure) = conclusion lock_lost recorded outcome
      in end_task id'
           (finish_operation env id' status result failure now (tk_lock t) (st\<lparr>dn_db := db\<rparr>)))"

text \<open>The end of a clone: cancellation is looked at after the worker is done.\<close>

definition clone_conclusion ::
  "bool \<Rightarrow> api_error_v1 + unit \<Rightarrow> operation_status \<times> command_result option \<times> api_error_v1 option" where
  "clone_conclusion cancelled work =
     (if cancelled then (OpCancelled, None, Some cancelled_error)
      else case work of
             Inr _ \<Rightarrow> (OpSucceeded, Some \<lparr>cr_exit_code = 0, cr_stdout = [], cr_stderr = []\<rparr>, None)
           | Inl e \<Rightarrow> (OpFailed, None, Some e))"

definition complete_clone ::
  "daemon_env \<Rightarrow> string \<Rightarrow> op_task \<Rightarrow> bool \<Rightarrow> api_error_v1 + unit \<Rightarrow> i64 \<Rightarrow> daemon_state \<Rightarrow> daemon_state" where
  "complete_clone env id' t cancelled work now st =
     (let (status, result, failure) = clone_conclusion cancelled work
      in end_task id' (finish_operation env id' status result failure now (tk_lock t) st))"

section \<open>Requests on operations\<close>

definition cancel_operation ::
  "string \<Rightarrow> daemon_state \<Rightarrow> ((http_status \<times> api_error_v1) + operation_v1) \<times> daemon_state" where
  "cancel_operation id' st =
     (case bt_get (dn_ops st) id' of
        None \<Rightarrow> (Inl (404, api_error_new ''operation_not_found'' ''operation not found''), st)
      | Some ru \<Rightarrow>
          if terminal (ov_status (ru_operation ru))
          then (Inl (409, api_error_new ''operation_terminal'' ''operation has already finished''), st)
          else (Inr (ru_operation ru), update_op id' (\<lambda>ru. ru\<lparr>ru_cancelled := True\<rparr>) st))"

definition get_operation ::
  "daemon_env \<Rightarrow> string \<Rightarrow> daemon_state \<Rightarrow> (http_status \<times> api_error_v1) + operation_v1" where
  "get_operation env id' st =
     (case bt_get (dn_ops st) id' of
        Some ru \<Rightarrow> Inr (ru_operation ru)
      | None \<Rightarrow>
          (case operation id' (dn_db st) of
             Inl e \<Rightarrow> Inl (500, state_api_error e)
           | Inr None \<Rightarrow> Inl (404, api_error_new ''operation_not_found'' ''operation not found'')
           | Inr (Some stored) \<Rightarrow>
               (case operation_from_stored (se_from_str (de_store env)) stored of
                  Inl e \<Rightarrow> Inl (500, e) | Inr op \<Rightarrow> Inr op)))"

definition request_cancellation :: "daemon_state \<Rightarrow> daemon_state" where
  "request_cancellation st =
     st\<lparr>dn_ops := map (\<lambda>(id', ru).
        (id', if terminal (ov_status (ru_operation ru)) then ru else ru\<lparr>ru_cancelled := True\<rparr>)) (dn_ops st)\<rparr>"

definition active_operations :: "daemon_state \<Rightarrow> nat" where
  "active_operations st = length (filter (\<lambda>(_, ru). \<not> terminal (ov_status (ru_operation ru))) (dn_ops st))"

section \<open>The daemon as a step relation\<close>

text \<open>
  Requests, tasks, progress events of the backend and other processes interleave. The readers of
  a child's output are tasks of their own: when the backend returns early, one of them is left
  behind and may emit events after its operation has finished, so \<open>emits\<close> only excludes an
  operation that has not started. Another process may change the database in any way that keeps
  the stored operations.
\<close>

inductive daemon_step :: "daemon_env \<Rightarrow> daemon_state \<Rightarrow> daemon_state \<Rightarrow> bool" for env where
  begins: "begin_operation env kind deployment iv id' token now st = (r, st') \<Longrightarrow> daemon_step env st st'"
| starts: "bt_get (dn_tasks st) id' = Some t \<Longrightarrow> tk_phase t = AwaitPermit \<Longrightarrow>
    (invocation_heavy (tk_invocation t) (tk_kind t) \<longrightarrow> 0 < dn_permits st) \<Longrightarrow>
    daemon_step env st (start_work env id' t now st)"
| cancels_waiting: "bt_get (dn_tasks st) id' = Some t \<Longrightarrow> tk_phase t = AwaitPermit \<Longrightarrow>
    invocation_heavy (tk_invocation t) (tk_kind t) \<Longrightarrow>
    bt_get (dn_ops st) id' = Some ru \<Longrightarrow> ru_cancelled ru \<Longrightarrow>
    daemon_step env st (cancel_waiting env id' t now st)"
| beats: "bt_get (dn_tasks st) id' = Some t \<Longrightarrow> tk_phase t = Working None \<Longrightarrow> tk_lock t = Some lock \<Longrightarrow>
    tk_invocation t \<noteq> CloneInvocation \<Longrightarrow> daemon_step env st (heartbeat_tick id' t lock now st)"
| emits: "(\<forall>t. bt_get (dn_tasks st) id' = Some t \<longrightarrow> tk_phase t \<noteq> AwaitPermit) \<Longrightarrow>
    daemon_step env st (update_op id' (\<lambda>ru. ru\<lparr>ru_events := log_emit (id', kind, now, data) (ru_events ru)\<rparr>) st)"
| ends_work: "bt_get (dn_tasks st) id' = Some t \<Longrightarrow> tk_phase t = Working lock_lost \<Longrightarrow>
    daemon_step env st (drop_permit id' t lock_lost st)"
| completes: "bt_get (dn_tasks st) id' = Some t \<Longrightarrow> tk_phase t = Ended lock_lost \<Longrightarrow>
    tk_invocation t \<noteq> CloneInvocation \<Longrightarrow>
    daemon_step env st (complete_operation env resolve id' t lock_lost outcome now st)"
| completes_clone: "bt_get (dn_tasks st) id' = Some t \<Longrightarrow> tk_phase t = Ended lock_lost \<Longrightarrow>
    tk_invocation t = CloneInvocation \<Longrightarrow> bt_get (dn_ops st) id' = Some ru \<Longrightarrow>
    daemon_step env st (complete_clone env id' t (ru_cancelled ru) work now st)"
| cancels: "cancel_operation id' st = (r, st') \<Longrightarrow> daemon_step env st st'"
| shuts_down: "daemon_step env st (request_cancellation st)"
| other_process: "dom (bt_get (db_operations (dn_db st))) \<subseteq> dom (bt_get (db_operations db)) \<Longrightarrow>
    daemon_step env st (st\<lparr>dn_db := db\<rparr>)"

inductive_cases daemon_stepE: "daemon_step env st st'"

inductive daemon_reachable :: "daemon_env \<Rightarrow> nat \<Rightarrow> daemon_state \<Rightarrow> bool" for env max_heavy where
  start: "daemon_reachable env max_heavy (prepared max_heavy db)"
| step: "daemon_reachable env max_heavy st \<Longrightarrow> daemon_step env st st' \<Longrightarrow> daemon_reachable env max_heavy st'"

section \<open>Tables\<close>

definition count_rows :: "('v \<Rightarrow> bool) \<Rightarrow> ('k, 'v) btree \<Rightarrow> nat" where
  "count_rows P m = length (filter (\<lambda>e. P (snd e)) m)"

lemma count_rows_insert:
  "count_rows P (bt_insert k v m) = count_rows P (bt_delete k m) + (if P v then 1 else 0)"
proof -
  have "length (filter (\<lambda>e. P (snd e)) (bt_delete k m)) =
      length (filter (\<lambda>e. P (snd e)) (filter (\<lambda>e. fst e < k) m)) +
      length (filter (\<lambda>e. P (snd e)) (filter (\<lambda>e. k < fst e) m))"
    unfolding bt_delete_def by (induction m) auto
  then show ?thesis by (simp add: count_rows_def bt_insert_def case_prod_beta)
qed

lemma count_rows_delete:
  "bt_inv m \<Longrightarrow> bt_get m k = Some v \<Longrightarrow>
     count_rows P m = count_rows P (bt_delete k m) + (if P v then 1 else 0)"
proof -
  assume "bt_inv m" "bt_get m k = Some v"
  then have "distinct (map fst m)" "(k, v) \<in> set m" by (auto dest: bt_inv_distinct map_of_SomeD)
  then show ?thesis
  proof (induction m)
    case (Cons e m)
    show ?case
    proof (cases "fst e = k")
      case True
      with Cons.prems have "e = (k, v)" "k \<notin> fst ` set m" by (auto simp: rev_image_eqI)
      moreover from this(2) have "filter (\<lambda>e. fst e \<noteq> k) m = m" by (auto simp: filter_id_conv)
      ultimately show ?thesis by (simp add: count_rows_def bt_delete_def)
    next
      case False
      with Cons show ?thesis by (auto simp: count_rows_def bt_delete_def)
    qed
  qed simp
qed

lemma count_rows_absent: "bt_get m k = None \<Longrightarrow> count_rows P (bt_delete k m) = count_rows P m"
proof -
  assume "bt_get m k = None"
  then have "filter (\<lambda>e. fst e \<noteq> k) m = m" by (auto simp: filter_id_conv map_of_eq_None_iff)
  then show ?thesis by (simp add: bt_delete_def)
qed

section \<open>The invariant\<close>

text \<open>A retained operation: open while it is live, complete and closed once it is terminal.\<close>

definition op_consistent :: "runtime_operation \<Rightarrow> bool" where
  "op_consistent ru \<longleftrightarrow>
     length (el_events (ru_events ru)) \<le> EVENT_CAPACITY \<and>
     (el_terminal (ru_events ru) \<longleftrightarrow> terminal (ov_status (ru_operation ru))) \<and>
     (ov_finished_at (ru_operation ru) \<noteq> None \<longleftrightarrow> terminal (ov_status (ru_operation ru)))"

definition op_live :: "daemon_state \<Rightarrow> string \<Rightarrow> bool" where
  "op_live st id' \<longleftrightarrow>
     (\<exists>ru. bt_get (dn_ops st) id' = Some ru \<and> \<not> terminal (ov_status (ru_operation ru)))"

definition op_done :: "daemon_state \<Rightarrow> string \<Rightarrow> bool" where
  "op_done st id' \<longleftrightarrow>
     (\<exists>ru. bt_get (dn_ops st) id' = Some ru \<and> terminal (ov_status (ru_operation ru)))"

definition ops_inv :: "daemon_state \<Rightarrow> bool" where
  "ops_inv st \<longleftrightarrow>
     bt_inv (dn_ops st) \<and>
     (\<forall>id' ru. bt_get (dn_ops st) id' = Some ru \<longrightarrow>
        op_consistent ru \<and> ov_id (ru_operation ru) = id' \<and> bt_get (db_operations (dn_db st)) id' \<noteq> None)"

definition retention_inv :: "daemon_state \<Rightarrow> bool" where
  "retention_inv st \<longleftrightarrow>
     distinct (dn_terminal st) \<and> length (dn_terminal st) \<le> TERMINAL_OPERATION_RETENTION \<and>
     (\<forall>id'. id' \<in> set (dn_terminal st) \<longleftrightarrow> op_done st id')"

text \<open>A heavy task holds a permit exactly while it works.\<close>

definition working :: "task_phase \<Rightarrow> bool" where
  "working phase \<longleftrightarrow> (\<exists>lock_lost. phase = Working lock_lost)"

lemma working_simps [simp]: "\<not> working AwaitPermit" "working (Working e)" "\<not> working (Ended e)"
  by (simp_all add: working_def)

definition task_inv :: "daemon_state \<Rightarrow> bool" where
  "task_inv st \<longleftrightarrow>
     bt_inv (dn_tasks st) \<and> (\<forall>id'. bt_get (dn_tasks st) id' \<noteq> None \<longleftrightarrow> op_live st id') \<and>
     (\<forall>id' t. bt_get (dn_tasks st) id' = Some t \<longrightarrow>
        (tk_permit t \<longleftrightarrow> working (tk_phase t) \<and> invocation_heavy (tk_invocation t) (tk_kind t)))"

definition permits_inv :: "nat \<Rightarrow> daemon_state \<Rightarrow> bool" where
  "permits_inv max_heavy st \<longleftrightarrow> dn_permits st + count_rows tk_permit (dn_tasks st) = max_heavy"

definition daemon_inv :: "nat \<Rightarrow> daemon_state \<Rightarrow> bool" where
  "daemon_inv max_heavy st \<longleftrightarrow> ops_inv st \<and> retention_inv st \<and> task_inv st \<and> permits_inv max_heavy st"

section \<open>The effect of the parts\<close>

lemma update_op_simps [simp]:
  "dn_db (update_op id' f st) = dn_db st" "dn_terminal (update_op id' f st) = dn_terminal st"
  "dn_permits (update_op id' f st) = dn_permits st" "dn_tasks (update_op id' f st) = dn_tasks st"
  "bt_get (dn_ops (update_op id' f st)) k =
     (if k = id' then map_option f (bt_get (dn_ops st) k) else bt_get (dn_ops st) k)"
  by (auto simp: update_op_def split: option.splits)

lemma update_op_inv: "bt_inv (dn_ops st) \<Longrightarrow> bt_inv (dn_ops (update_op id' f st))"
  by (auto simp: update_op_def bt_inv_insert split: option.splits)

lemma log_emit_bounded:
  "length (el_events log) \<le> EVENT_CAPACITY \<Longrightarrow> length (el_events (log_emit e log)) \<le> EVENT_CAPACITY"
  by (simp add: daemon_log.push_log)

lemma log_emit_terminal [simp]: "el_terminal (log_emit e log) = el_terminal log"
  by (simp add: log_emit_def)

lemma operation_event_simps [simp]:
  "el_terminal (operation_event i now data log) = el_terminal log"
  "length (el_events log) \<le> EVENT_CAPACITY \<Longrightarrow>
     length (el_events (operation_event i now data log)) \<le> EVENT_CAPACITY"
  by (simp_all add: operation_event_def log_emit_bounded)

lemma log_finish_simps [simp]:
  "el_terminal (log_finish log)" "el_events (log_finish log) = el_events log"
  by (simp_all add: log_finish_def)

text \<open>Updates of the stored operations never remove one.\<close>

definition keeps_operations :: "database \<Rightarrow> database \<Rightarrow> bool" where
  "keeps_operations db db' \<longleftrightarrow>
     (\<forall>k. bt_get (db_operations db) k \<noteq> None \<longrightarrow> bt_get (db_operations db') k \<noteq> None)"

lemma keeps_operations_refl [simp]: "keeps_operations db db"
  by (simp add: keeps_operations_def)

lemma keeps_operations_trans: "keeps_operations a b \<Longrightarrow> keeps_operations b c \<Longrightarrow> keeps_operations a c"
  by (simp add: keeps_operations_def)

lemma keeps_operations_same: "db_operations db' = db_operations db \<Longrightarrow> keeps_operations db db'"
  by (simp add: keeps_operations_def)

lemma update_operation_keeps: "keeps_operations db (try_store (update_operation env id' status at e) db)"
  by (auto simp: try_store_def update_operation_def keeps_operations_def split: option.splits sum.splits if_splits)

lemma release_lock_keeps: "keeps_operations db (try_store (release_lock l) db)"
  by (rule keeps_operations_same)
    (auto simp: try_store_def release_lock_def split: option.splits sum.splits if_splits)

definition finished_op ::
  "string \<Rightarrow> operation_status \<Rightarrow> command_result option \<Rightarrow> api_error_v1 option \<Rightarrow> i64 \<Rightarrow> runtime_operation
     \<Rightarrow> runtime_operation" where
  "finished_op id' status result failure now ru =
     ru\<lparr>ru_operation := (ru_operation ru)
            \<lparr>ov_status := status, ov_finished_at := Some now, ov_result := result, ov_error := failure\<rparr>,
        ru_events := log_finish (operation_event id' now
            (jobj [(''status'', JStr (operation_status_str status)),
                   (''error'', case failure of None \<Rightarrow> JNull | Some e \<Rightarrow> api_error_json e)]) (ru_events ru))\<rparr>"

lemma finished_op_consistent:
  "terminal status \<Longrightarrow> op_consistent ru \<Longrightarrow> op_consistent (finished_op id' status result failure now ru)"
  by (simp add: finished_op_def op_consistent_def)

lemma finished_op_simps [simp]:
  "ov_id (ru_operation (finished_op id' status result failure now ru)) = ov_id (ru_operation ru)"
  "ov_status (ru_operation (finished_op id' status result failure now ru)) = status"
  by (simp_all add: finished_op_def)

abbreviation evicts :: "daemon_state \<Rightarrow> bool" where
  "evicts st \<equiv> TERMINAL_OPERATION_RETENTION < Suc (length (dn_terminal st))"

lemma retain_simps [simp]:
  "dn_db (retain_terminal_operation id' st) = dn_db st"
  "dn_permits (retain_terminal_operation id' st) = dn_permits st"
  "dn_tasks (retain_terminal_operation id' st) = dn_tasks st"
  "dn_terminal (retain_terminal_operation id' st) =
     (if evicts st then tl (dn_terminal st @ [id']) else dn_terminal st @ [id'])"
  "dn_ops (retain_terminal_operation id' st) =
     (if evicts st then bt_delete (hd (dn_terminal st @ [id'])) (dn_ops st) else dn_ops st)"
  by (simp_all add: retain_terminal_operation_def Let_def)

lemma finish_operation_parts:
  "dn_permits (finish_operation env id' status result failure now lock st) = dn_permits st"
  "dn_tasks (finish_operation env id' status result failure now lock st) = dn_tasks st"
  "dn_terminal (finish_operation env id' status result failure now lock st) =
     (if evicts st then tl (dn_terminal st @ [id']) else dn_terminal st @ [id'])"
  "bt_get (dn_ops (finish_operation env id' status result failure now lock st)) k =
     (if evicts st \<and> k = hd (dn_terminal st @ [id']) then None
      else if k = id' then map_option (finished_op id' status result failure now) (bt_get (dn_ops st) k)
      else bt_get (dn_ops st) k)"
  "keeps_operations (dn_db st) (dn_db (finish_operation env id' status result failure now lock st))"
  "bt_inv (dn_ops st) \<Longrightarrow> bt_inv (dn_ops (finish_operation env id' status result failure now lock st))"
proof -
  show "keeps_operations (dn_db st) (dn_db (finish_operation env id' status result failure now lock st))"
    using keeps_operations_trans [OF update_operation_keeps release_lock_keeps]
    by (simp add: finish_operation_def Let_def update_operation_keeps split: option.splits)
  show "bt_inv (dn_ops st) \<Longrightarrow> bt_inv (dn_ops (finish_operation env id' status result failure now lock st))"
    by (simp add: finish_operation_def Let_def bt_inv_delete update_op_inv)
  show "bt_get (dn_ops (finish_operation env id' status result failure now lock st)) k =
     (if evicts st \<and> k = hd (dn_terminal st @ [id']) then None
      else if k = id' then map_option (finished_op id' status result failure now) (bt_get (dn_ops st) k)
      else bt_get (dn_ops st) k)"
    by (simp add: finish_operation_def Let_def option.map_comp comp_def finished_op_def [abs_def])
qed (simp_all add: finish_operation_def Let_def)

lemma end_task_simps [simp]:
  "dn_db (end_task id' st) = dn_db st" "dn_ops (end_task id' st) = dn_ops st"
  "dn_terminal (end_task id' st) = dn_terminal st"
  "dn_tasks (end_task id' st) = bt_delete id' (dn_tasks st)"
  "dn_permits (end_task id' st) = dn_permits st"
  by (simp_all add: end_task_def)

text \<open>When a task ends, its operation is terminal, retained, and perhaps pushes out the oldest one.\<close>

lemma retention_step:
  assumes inv: "retention_inv st" and live: "op_live st id'"
    and terminals: "dn_terminal st' = (if evicts st then tl (dn_terminal st @ [id']) else dn_terminal st @ [id'])"
    and got: "\<And>k. op_done st' k \<longleftrightarrow> (\<not> (evicts st \<and> k = hd (dn_terminal st @ [id']))) \<and> (k = id' \<or> op_done st k)"
  shows "retention_inv st'"
proof -
  let ?T = "dn_terminal st"
  have d: "distinct ?T" "length ?T \<le> TERMINAL_OPERATION_RETENTION" "\<And>k. k \<in> set ?T \<longleftrightarrow> op_done st k"
    using inv by (auto simp: retention_inv_def)
  have fresh: "id' \<notin> set ?T" using live d(3) by (auto simp: op_live_def op_done_def)
  show ?thesis
  proof (cases "evicts st")
    case True
    then have "?T \<noteq> []" using d(2) by (auto simp: TERMINAL_OPERATION_RETENTION_def)
    then obtain x T where T: "?T = x # T" by (cases ?T) auto
    with True d fresh show ?thesis
      by (auto simp: retention_inv_def terminals got)
  next
    case False
    with d fresh show ?thesis by (auto simp: retention_inv_def terminals got)
  qed
qed

lemma evicted_done:
  assumes "retention_inv st" and "op_live st id'"
  shows "evicts st \<Longrightarrow> op_done st (hd (dn_terminal st @ [id']))"
proof -
  assume "evicts st"
  then have "dn_terminal st \<noteq> []" by (auto simp: TERMINAL_OPERATION_RETENTION_def)
  then have "hd (dn_terminal st @ [id']) \<in> set (dn_terminal st)" by simp
  with assms(1) show ?thesis by (simp only: retention_inv_def)
qed

lemma finish_task_inv:
  assumes inv: "daemon_inv max_heavy st" and t: "bt_get (dn_tasks st) id' = Some t"
    and idle: "\<not> working (tk_phase t)" and status: "terminal status" and keeps: "keeps_operations (dn_db st) db"
  shows "daemon_inv max_heavy
     (end_task id' (finish_operation env id' status result failure now lock (st\<lparr>dn_db := db\<rparr>)))"
    (is "daemon_inv _ ?st'")
proof -
  have ops: "ops_inv st" and ret: "retention_inv st" and tasks: "task_inv st" and permits: "permits_inv max_heavy st"
    using inv by (auto simp: daemon_inv_def)
  note parts = finish_operation_parts [where st = "st\<lparr>dn_db := db\<rparr>"]
  have live: "op_live st id'" using t tasks by (auto simp: task_inv_def)
  then obtain ru where ru: "bt_get (dn_ops st) id' = Some ru" "\<not> terminal (ov_status (ru_operation ru))"
    by (auto simp: op_live_def)
  let ?f = "finish_operation env id' status result failure now lock (st\<lparr>dn_db := db\<rparr>)"
  have get: "bt_get (dn_ops ?f) k = (if evicts st \<and> k = hd (dn_terminal st @ [id']) then None
      else if k = id' then Some (finished_op id' status result failure now ru) else bt_get (dn_ops st) k)" for k
    using ru by (simp add: parts)
  have "keeps_operations (dn_db st) (dn_db ?st')"
    using keeps_operations_trans [OF keeps] parts(5) by simp
  moreover have "bt_inv (dn_ops ?f)" using ops by (simp add: parts(6) ops_inv_def)
  moreover have "op_consistent (finished_op id' status result failure now ru)"
    using ops ru status finished_op_consistent by (auto simp: ops_inv_def)
  ultimately have "ops_inv ?st'"
    using ops ru by (auto simp: ops_inv_def get keeps_operations_def split: if_splits)
  moreover have "retention_inv ?st'"
    by (rule retention_step [OF ret live]) (auto simp: parts(3) op_done_def get status)
  moreover have "task_inv ?st'"
  proof -
    have "op_live ?st' k \<longleftrightarrow> k \<noteq> id' \<and> op_live st k" for k
      using evicted_done [OF ret live] by (auto simp: op_live_def op_done_def get status)
    with tasks show ?thesis by (auto simp: task_inv_def parts bt_inv_delete)
  qed
  moreover have "permits_inv max_heavy ?st'"
    using permits tasks idle t count_rows_delete [OF _ t, of tk_permit]
    by (auto simp: permits_inv_def task_inv_def parts)
  ultimately show ?thesis by (simp add: daemon_inv_def)
qed

section \<open>Every step keeps the invariant\<close>

lemma op_status_update [simp]:
  "op_live (st\<lparr>dn_db := db\<rparr>) = op_live st" "op_live (st\<lparr>dn_tasks := ts\<rparr>) = op_live st"
  "op_live (st\<lparr>dn_permits := n\<rparr>) = op_live st" "op_done (st\<lparr>dn_db := db\<rparr>) = op_done st"
  "op_done (st\<lparr>dn_tasks := ts\<rparr>) = op_done st" "op_done (st\<lparr>dn_permits := n\<rparr>) = op_done st"
  by (simp_all add: op_live_def op_done_def fun_eq_iff)

lemma db_change_inv:
  "daemon_inv max_heavy st \<Longrightarrow> keeps_operations (dn_db st) db \<Longrightarrow> daemon_inv max_heavy (st\<lparr>dn_db := db\<rparr>)"
  by (simp add: daemon_inv_def ops_inv_def retention_inv_def task_inv_def permits_inv_def keeps_operations_def)

lemma update_op_daemon_inv:
  assumes inv: "daemon_inv max_heavy st"
    and f: "\<And>ru. bt_get (dn_ops st) id' = Some ru \<Longrightarrow> op_consistent ru \<Longrightarrow>
      terminal (ov_status (ru_operation (f ru))) = terminal (ov_status (ru_operation ru)) \<and>
      ov_id (ru_operation (f ru)) = ov_id (ru_operation ru) \<and> op_consistent (f ru)"
  shows "daemon_inv max_heavy (update_op id' f st)"
proof -
  have ops: "ops_inv st" using inv by (simp add: daemon_inv_def)
  have "op_live (update_op id' f st) k = op_live st k" "op_done (update_op id' f st) k = op_done st k" for k
    using ops f by (auto simp: op_live_def op_done_def ops_inv_def)
  then have "op_live (update_op id' f st) = op_live st" "op_done (update_op id' f st) = op_done st"
    by (simp_all add: fun_eq_iff)
  moreover have "ops_inv (update_op id' f st)"
    using ops f by (auto simp: ops_inv_def update_op_inv split: if_splits)
  ultimately show ?thesis
    using inv by (simp add: daemon_inv_def retention_inv_def task_inv_def permits_inv_def)
qed

lemma task_change_inv:
  assumes inv: "daemon_inv max_heavy st" and t: "bt_get (dn_tasks st) id' = Some t"
    and phase: "tk_permit t' \<longleftrightarrow> working (tk_phase t') \<and> invocation_heavy (tk_invocation t') (tk_kind t')"
    and n: "n + (if tk_permit t' then 1 else 0) = dn_permits st + (if tk_permit t then 1 else 0)"
  shows "daemon_inv max_heavy (st\<lparr>dn_permits := n, dn_tasks := bt_insert id' t' (dn_tasks st)\<rparr>)"
proof -
  have tasks: "task_inv st" using inv by (simp add: daemon_inv_def)
  then have "count_rows tk_permit (dn_tasks st) =
      count_rows tk_permit (bt_delete id' (dn_tasks st)) + (if tk_permit t then 1 else 0)"
    by (simp add: task_inv_def count_rows_delete [OF _ t])
  then have "permits_inv max_heavy (st\<lparr>dn_permits := n, dn_tasks := bt_insert id' t' (dn_tasks st)\<rparr>)"
    using inv n by (simp add: daemon_inv_def permits_inv_def count_rows_insert)
  moreover have "op_live st id'" using tasks t by (auto simp: task_inv_def)
  then have "task_inv (st\<lparr>dn_permits := n, dn_tasks := bt_insert id' t' (dn_tasks st)\<rparr>)"
    using tasks phase by (auto simp: task_inv_def bt_inv_insert)
  ultimately show ?thesis
    using inv by (simp add: daemon_inv_def ops_inv_def retention_inv_def)
qed

lemma heartbeat_keeps: "heartbeat_lock lock now ttl db = Inr (l, db') \<Longrightarrow> keeps_operations db db'"
  by (rule keeps_operations_same)
    (auto simp: heartbeat_lock_def result_simps split: option.splits if_splits)

lemma heartbeat_tick_inv:
  assumes inv: "daemon_inv max_heavy st" and t: "bt_get (dn_tasks st) id' = Some t" and w: "tk_phase t = Working None"
  shows "daemon_inv max_heavy (heartbeat_tick id' t lock now st)"
proof -
  have p: "tk_permit t \<longleftrightarrow> invocation_heavy (tk_invocation t) (tk_kind t)"
    using inv t w by (auto simp: daemon_inv_def task_inv_def)
  show ?thesis
  proof (cases "heartbeat_lock lock now LOCK_TTL_MILLIS (dn_db st)")
    case (Inl e)
    have "daemon_inv max_heavy (st\<lparr>dn_tasks := bt_insert id' (t\<lparr>tk_phase := Working (Some (state_api_error e))\<rparr>) (dn_tasks st)\<rparr>)"
      using task_change_inv [OF inv t, of "t\<lparr>tk_phase := Working (Some (state_api_error e))\<rparr>" "dn_permits st"] p by simp
    then show ?thesis
      unfolding heartbeat_tick_def Inl sum.case by (rule update_op_daemon_inv) (simp add: op_consistent_def)
  next
    case (Inr r)
    obtain l db where r: "r = (l, db)" by fastforce
    have "daemon_inv max_heavy (st\<lparr>dn_db := db\<rparr>)"
      using heartbeat_keeps Inr r by (intro db_change_inv [OF inv]) blast
    from task_change_inv [OF this, of id' t "t\<lparr>tk_lock := Some l\<rparr>" "dn_permits st"] t p w Inr r show ?thesis
      by (simp add: heartbeat_tick_def)
  qed
qed

lemma set_running_inv:
  assumes inv: "daemon_inv max_heavy st" and live: "op_live st id'"
  shows "daemon_inv max_heavy (set_running env id' now st)"
  unfolding set_running_def
  by (rule update_op_daemon_inv [OF db_change_inv [OF inv update_operation_keeps]])
    (use live in \<open>auto simp: op_live_def op_consistent_def\<close>)

lemma start_work_inv:
  assumes inv: "daemon_inv max_heavy st" and t: "bt_get (dn_tasks st) id' = Some t" and phase: "tk_phase t = AwaitPermit"
    and free: "invocation_heavy (tk_invocation t) (tk_kind t) \<longrightarrow> 0 < dn_permits st"
  shows "daemon_inv max_heavy (start_work env id' t now st)"
proof -
  have live: "op_live st id'" and p: "\<not> tk_permit t" using inv t phase by (auto simp: daemon_inv_def task_inv_def)
  let ?st = "set_running env id' now st"
  have same: "dn_tasks ?st = dn_tasks st" "dn_permits ?st = dn_permits st" by (simp_all add: set_running_def)
  show ?thesis
    unfolding start_work_def Let_def
    by (rule task_change_inv [OF set_running_inv [OF inv live]]) (use t p free in \<open>auto simp: same\<close>)
qed

lemma drop_permit_inv:
  assumes inv: "daemon_inv max_heavy st" and t: "bt_get (dn_tasks st) id' = Some t"
  shows "daemon_inv max_heavy (drop_permit id' t lock_lost st)"
  unfolding drop_permit_def by (rule task_change_inv [OF inv t]) simp_all

lemma acquire_lock_keeps: "acquire_lock request db = Inr (l, db') \<Longrightarrow> db_operations db' = db_operations db"
  by (auto simp: acquire_lock_def Let_def result_simps split: option.splits if_splits)

lemma begin_lock_keeps:
  "begin_lock env iv kind deployment token now db = Inr (lock, db') \<Longrightarrow> db_operations db' = db_operations db"
  by (auto simp: begin_lock_def dest: acquire_lock_keeps split: if_splits sum.splits prod.splits state_error.splits)

lemma start_operation_Inr:
  "start_operation env op db = Inr (u, db') \<Longrightarrow>
     bt_get (db_operations db) (op_id op) = None \<and> keeps_operations db db' \<and>
     bt_get (db_operations db') (op_id op) \<noteq> None"
  by (auto simp: start_operation_def result_simps keeps_operations_def split: if_splits)

lemma new_operation_inv:
  assumes inv: "daemon_inv max_heavy st" and new: "bt_get (dn_ops st) id' = None"
    and stored: "bt_get (db_operations (dn_db st)) id' \<noteq> None"
    and ru: "op_consistent ru" "ov_id (ru_operation ru) = id'" "\<not> terminal (ov_status (ru_operation ru))"
    and t: "\<not> tk_permit t" "tk_phase t = AwaitPermit"
  shows "daemon_inv max_heavy (st\<lparr>dn_ops := bt_insert id' ru (dn_ops st), dn_tasks := bt_insert id' t (dn_tasks st)\<rparr>)"
    (is "daemon_inv _ ?st'")
proof -
  have live: "op_live ?st' k \<longleftrightarrow> k = id' \<or> op_live st k" and done': "op_done ?st' k \<longleftrightarrow> op_done st k" for k
    using new ru(3) by (auto simp: op_live_def op_done_def)
  have "\<not> op_live st id'" using new by (simp add: op_live_def)
  then have no_task: "bt_get (dn_tasks st) id' = None" using inv unfolding daemon_inv_def task_inv_def by blast
  have "ops_inv ?st'" using inv ru stored by (auto simp: daemon_inv_def ops_inv_def bt_inv_insert)
  moreover have "retention_inv ?st'" using inv done' by (simp add: daemon_inv_def retention_inv_def)
  moreover have "task_inv ?st'"
    using inv live t unfolding daemon_inv_def task_inv_def by (simp add: bt_inv_insert)
  moreover have "permits_inv max_heavy ?st'"
    using inv t count_rows_absent [OF no_task, of tk_permit]
    by (simp add: daemon_inv_def permits_inv_def count_rows_insert)
  ultimately show ?thesis by (simp add: daemon_inv_def)
qed

lemma begin_operation_inv:
  assumes inv: "daemon_inv max_heavy st"
    and run: "begin_operation env kind deployment iv id' token now st = (r, st')"
  shows "daemon_inv max_heavy st'"
proof (cases "begin_lock env iv kind deployment token now (dn_db st)")
  case (Inl e)
  with run inv show ?thesis by (simp add: begin_operation_def)
next
  case (Inr p)
  obtain lock db where p: "p = (lock, db)" by fastforce
  have lk: "db_operations db = db_operations (dn_db st)" using begin_lock_keeps Inr p by blast
  let ?inst = "invocation_instance env iv kind"
  let ?row = "\<lparr>op_id = id', op_deployment = deployment, op_instance = ?inst, op_kind = state_kind kind,
      op_status = OpPending, op_started_at = now, op_finished_at = None, op_error = None\<rparr>"
  show ?thesis
  proof (cases "start_operation (de_store env) ?row db")
    case (Inl e)
    have "keeps_operations (dn_db st) (case lock of None \<Rightarrow> db | Some l \<Rightarrow> try_store (release_lock l) db)"
      using keeps_operations_trans [OF keeps_operations_same [OF lk] release_lock_keeps]
        keeps_operations_same [OF lk] by (simp split: option.splits)
    from db_change_inv [OF inv this] show ?thesis
      using run \<open>begin_lock _ _ _ _ _ _ _ = _\<close> p Inl by (simp add: begin_operation_def Let_def)
  next
    case started: (Inr q)
    obtain db' where q: "q = ((), db')" by (cases q) auto
    have fresh: "bt_get (db_operations (dn_db st)) id' = None" and kept: "keeps_operations (dn_db st) db'"
      and stored: "bt_get (db_operations db') id' \<noteq> None"
      using start_operation_Inr [OF started [unfolded q]] lk by (auto simp: keeps_operations_def)
    have inv': "daemon_inv max_heavy (st\<lparr>dn_db := db'\<rparr>)" by (rule db_change_inv [OF inv kept])
    have new: "bt_get (dn_ops st) id' = None"
      using inv fresh unfolding daemon_inv_def ops_inv_def by (metis not_None_eq)
    show ?thesis
      using run Inr p started q
      by (auto simp: begin_operation_def Let_def new stored pending_operation_def op_consistent_def
          event_log_new_def intro!: new_operation_inv [OF inv', of id', simplified])
  qed
qed

lemma record_router_apply_keeps:
  "record_router_apply env r db = Inr (u, db') \<Longrightarrow> db_operations db' = db_operations db"
  by (auto simp: record_router_apply_def insert_snapshot_def Let_def result_simps split: if_splits)

lemma record_attempts_keeps: "db_operations (snd (record_attempts env rs db)) = db_operations db"
  by (induction rs arbitrary: db) (auto split: sum.splits dest: record_router_apply_keeps)

lemma record_applied_snapshot_keeps:
  "record_applied_snapshot env deployment h snapshot now db = Inr (u, db') \<Longrightarrow>
     db_operations db' = db_operations db"
  by (auto simp: record_applied_snapshot_def deployment_event_def Let_def result_simps split: if_splits)

lemma persist_applied_snapshot_Inr:
  "persist_applied_snapshot env planned now db = Inr db' \<longleftrightarrow>
     (\<exists>deployment h v snapshot. planned = Inr (deployment, h, v) \<and> snapshot_from_json env v = Inr snapshot \<and>
        record_applied_snapshot env deployment h snapshot now db = Inr ((), db'))"
proof (cases planned)
  case (Inr p)
  obtain deployment h v where p: "p = (deployment, h, v)" by (cases p)
  show ?thesis
  proof (cases "snapshot_from_json env v")
    case (Inr snapshot)
    then show ?thesis using \<open>planned = _\<close> p
      by (cases "record_applied_snapshot env deployment h snapshot now db") (auto simp: persist_applied_snapshot_def)
  qed (use \<open>planned = _\<close> p in \<open>simp add: persist_applied_snapshot_def\<close>)
qed (simp add: persist_applied_snapshot_def)

lemma persist_outcome_keeps:
  "db_operations (snd (persist_outcome env t resolve lock_lost outcome now db)) = db_operations db"
  by (auto simp: persist_outcome_def persist_applied_snapshot_Inr
      split: option.splits sum.splits dest!: record_applied_snapshot_keeps)

lemma conclusion_terminal: "terminal (fst (conclusion lock_lost recorded outcome))"
  by (auto simp: conclusion_def split: sum.splits backend_outcome.splits option.splits)

lemma complete_operation_inv:
  assumes inv: "daemon_inv max_heavy st" and t: "bt_get (dn_tasks st) id' = Some t"
    and idle: "\<not> working (tk_phase t)"
  shows "daemon_inv max_heavy (complete_operation env resolve id' t lock_lost outcome now st)"
proof -
  let ?p = "persist_outcome env t resolve lock_lost outcome now (dn_db st)"
  let ?a = "recorded_attempts (de_store env) (fst ?p) (snd ?p)"
  let ?c = "conclusion lock_lost (fst ?a) (fst ?p)"
  have "db_operations (snd ?a) = db_operations (dn_db st)"
    by (simp add: recorded_attempts_def record_attempts_keeps persist_outcome_keeps
        split: sum.splits backend_outcome.splits)
  from finish_task_inv [OF inv t idle conclusion_terminal keeps_operations_same [OF this]]
  have "daemon_inv max_heavy (end_task id' (finish_operation env id' (fst ?c) (fst (snd ?c)) (snd (snd ?c)) now
      (tk_lock t) (st\<lparr>dn_db := snd ?a\<rparr>)))" .
  then show ?thesis by (simp add: complete_operation_def Let_def case_prod_beta)
qed

lemma complete_clone_inv:
  assumes inv: "daemon_inv max_heavy st" and t: "bt_get (dn_tasks st) id' = Some t"
    and idle: "\<not> working (tk_phase t)"
  shows "daemon_inv max_heavy (complete_clone env id' t cancelled work now st)"
proof -
  let ?c = "clone_conclusion cancelled work"
  have "terminal (fst ?c)" by (simp add: clone_conclusion_def split: sum.splits)
  from finish_task_inv [OF inv t idle this keeps_operations_refl, of env "fst (snd ?c)" "snd (snd ?c)" now "tk_lock t"]
  show ?thesis by (simp add: complete_clone_def Let_def case_prod_beta)
qed

lemma request_cancellation_parts:
  "bt_get (dn_ops (request_cancellation st)) k =
     map_option (\<lambda>ru. if terminal (ov_status (ru_operation ru)) then ru else ru\<lparr>ru_cancelled := True\<rparr>)
       (bt_get (dn_ops st) k)"
  by (simp add: request_cancellation_def map_of_map)

lemma request_cancellation_inv:
  assumes "daemon_inv max_heavy st"
  shows "daemon_inv max_heavy (request_cancellation st)"
proof -
  have "bt_inv (dn_ops (request_cancellation st)) = bt_inv (dn_ops st)"
    by (simp add: bt_inv_def request_cancellation_def comp_def case_prod_beta)
  moreover have "op_live (request_cancellation st) = op_live st" "op_done (request_cancellation st) = op_done st"
    by (auto simp: op_live_def op_done_def request_cancellation_parts fun_eq_iff split: if_splits)
  moreover have "dn_db (request_cancellation st) = dn_db st" "dn_terminal (request_cancellation st) = dn_terminal st"
    "dn_tasks (request_cancellation st) = dn_tasks st" "dn_permits (request_cancellation st) = dn_permits st"
    by (simp_all add: request_cancellation_def)
  moreover have "ops_inv (request_cancellation st)"
  proof -
    have "op_consistent (ru\<lparr>ru_cancelled := True\<rparr>) = op_consistent ru" for ru by (simp add: op_consistent_def)
    moreover have "ops_inv st" using assms by (simp add: daemon_inv_def)
    ultimately show ?thesis
      using \<open>bt_inv _ = _\<close> \<open>dn_db _ = _\<close>
      by (force simp: ops_inv_def request_cancellation_parts split: if_splits)
  qed
  ultimately show ?thesis
    using assms by (simp add: daemon_inv_def retention_inv_def task_inv_def permits_inv_def)
qed

lemma daemon_step_inv: "daemon_step env st st' \<Longrightarrow> daemon_inv max_heavy st \<Longrightarrow> daemon_inv max_heavy st'"
proof (erule daemon_stepE, goal_cases)
  case (3 id' t ru now)
  then show ?case
    using finish_task_inv [OF 3(1) 3(3) _ _ keeps_operations_refl, of OpCancelled env None "Some cancelled_error" now "tk_lock t"]
    by (simp add: cancel_waiting_def)
next
  case (5 id' kind now data)
  then show ?case by (auto intro!: update_op_daemon_inv simp: op_consistent_def log_emit_bounded)
next
  case (9 id' r)
  then show ?case
    by (auto simp: cancel_operation_def op_consistent_def split: option.splits if_splits intro!: update_op_daemon_inv)
next
  case (11 db)
  then show ?case by (auto intro!: db_change_inv simp: keeps_operations_def subset_iff dom_def)
qed (auto intro: begin_operation_inv start_work_inv heartbeat_tick_inv drop_permit_inv complete_operation_inv
      complete_clone_inv request_cancellation_inv)

lemma daemon_reachable_inv: "daemon_reachable env max_heavy st \<Longrightarrow> daemon_inv max_heavy st"
proof (induction rule: daemon_reachable.induct)
  case (start db)
  show ?case
    by (simp add: daemon_inv_def ops_inv_def retention_inv_def task_inv_def permits_inv_def prepared_def
        op_done_def op_live_def bt_inv_def count_rows_def TERMINAL_OPERATION_RETENTION_def)
qed (rule daemon_step_inv)

section \<open>Finished operations\<close>

lemma begin_operation_ops:
  assumes "daemon_inv max_heavy st" and "begin_operation env kind deployment iv i token now st = (r, st')"
  shows "dn_ops st' = dn_ops st \<or> bt_get (dn_ops st) i = None \<and> (\<exists>ru. dn_ops st' = bt_insert i ru (dn_ops st))"
proof (cases "bt_get (dn_ops st) i")
  case None
  with assms(2) show ?thesis
    by (auto simp: begin_operation_def Let_def split: sum.splits prod.splits)
next
  case (Some ru)
  then have "bt_get (db_operations (dn_db st)) i \<noteq> None" using assms(1) by (auto simp: daemon_inv_def ops_inv_def)
  with assms(2) show ?thesis
    by (auto simp: begin_operation_def Let_def split: sum.splits prod.splits
        dest!: begin_lock_keeps start_operation_Inr)
qed

text \<open>The steps of a live task leave a finished operation alone or evict it.\<close>

lemma finished_untouched:
  assumes inv: "daemon_inv max_heavy st" and t: "bt_get (dn_tasks st) i = Some t"
    and ru: "bt_get (dn_ops st) k = Some ru" "terminal (ov_status (ru_operation ru))"
  shows "k \<noteq> i"
    and "bt_get (dn_ops (update_op i f st)) k = Some ru"
    and "bt_get (dn_ops (finish_operation env i status result failure now lock (st\<lparr>dn_db := db\<rparr>))) k \<in> {None, Some ru}"
proof -
  have "op_live st i" using inv t by (auto simp: daemon_inv_def task_inv_def)
  then show "k \<noteq> i" using ru by (auto simp: op_live_def)
  with ru show "bt_get (dn_ops (update_op i f st)) k = Some ru"
    "bt_get (dn_ops (finish_operation env i status result failure now lock (st\<lparr>dn_db := db\<rparr>))) k \<in> {None, Some ru}"
    by (simp_all add: finish_operation_parts)
qed

text \<open>
  What may still happen to a finished operation: a reader of its output that was left behind
  adds an event.
\<close>

definition settled_as :: "runtime_operation \<Rightarrow> runtime_operation \<Rightarrow> bool" where
  "settled_as ru ru' \<longleftrightarrow>
     ru' = ru \<or> (\<exists>e. ru' = ru\<lparr>ru_events := log_emit e (ru_events ru)\<rparr>)"

definition stays_settled :: "runtime_operation \<Rightarrow> runtime_operation option \<Rightarrow> bool" where
  "stays_settled ru found \<longleftrightarrow> pred_option (settled_as ru) found"

lemma stays_settled_simps [simp]: "stays_settled ru None" "stays_settled ru (Some ru)"
  by (simp_all add: stays_settled_def settled_as_def)

lemma stays_settledI: "found \<in> {None, Some ru} \<Longrightarrow> stays_settled ru found"
  by auto

lemma finished_stays:
  assumes inv: "daemon_inv max_heavy st" and step: "daemon_step env st st'"
    and ru: "bt_get (dn_ops st) k = Some ru" "terminal (ov_status (ru_operation ru))"
  shows "stays_settled ru (bt_get (dn_ops st') k)"
  using step
proof (rule daemon_stepE, goal_cases)
  case (1 kind deployment iv id' token now r)
  then show ?case using begin_operation_ops [OF inv 1] ru by (cases "k = id'") auto
next
  case (2 id' t now)
  then show ?case using finished_untouched [OF inv 2(2) ru]
    by (auto simp: start_work_def set_running_def Let_def ru)
next
  case (3 id' t ru' now)
  then show ?case using finished_untouched(3) [OF inv 3(2) ru, where db = "dn_db st"]
    by (intro stays_settledI) (simp add: cancel_waiting_def)
next
  case (4 id' t lock now)
  then show ?case using finished_untouched [OF inv 4(2) ru]
    by (auto simp: heartbeat_tick_def ru split: sum.splits prod.splits)
next
  case (5 id' kind now data)
  then show ?case using ru by (auto simp: stays_settled_def settled_as_def simp del: split_paired_Ex)
next
  case (6 id' t lock_lost)
  then show ?case using ru by (simp add: drop_permit_def)
next
  case (7 id' t lock_lost resolve outcome now)
  then show ?case using finished_untouched(3) [OF inv 7(2) ru]
    by (intro stays_settledI) (simp add: complete_operation_def Let_def case_prod_beta)
next
  case (8 id' t lock_lost ru' work now)
  then show ?case using finished_untouched(3) [OF inv 8(2) ru, where db = "dn_db st"]
    by (intro stays_settledI) (simp add: complete_clone_def Let_def case_prod_beta)
next
  case (9 id' r)
  then show ?case using ru by (auto simp: cancel_operation_def split: option.splits if_splits)
next
  case 10
  then show ?case using ru by (simp add: request_cancellation_parts)
next
  case (11 db)
  then show ?case using ru by simp
qed

section \<open>Success\<close>

lemma conclusion_succeeded:
  "fst (conclusion lock_lost recorded outcome) = OpSucceeded \<longleftrightarrow>
     lock_lost = None \<and> exit_ok outcome \<and>
     (\<forall>r attempts. outcome = Inr (LiveBindingOutcome r attempts) \<longrightarrow> recorded = Inr ())"
  by (cases lock_lost; cases recorded)
    (auto simp: conclusion_def exit_ok_def split: sum.splits backend_outcome.splits)

text \<open>A live move that is stopped by a cancellation ends as failed: only other backends report it.\<close>

lemma live_move_never_cancelled:
  "fst (conclusion lock_lost recorded (Inr (LiveBindingOutcome r attempts))) \<noteq> OpCancelled"
  by (simp add: conclusion_def split: option.splits)

lemma complete_operation_status:
  assumes inv: "daemon_inv max_heavy st" and t: "bt_get (dn_tasks st) id' = Some t"
    and ru: "bt_get (dn_ops (complete_operation env resolve id' t lock_lost outcome now st)) id' = Some ru"
  shows "ov_status (ru_operation ru) =
     fst (conclusion lock_lost
       (fst (recorded_attempts (de_store env) (fst (persist_outcome env t resolve lock_lost outcome now (dn_db st)))
          (snd (persist_outcome env t resolve lock_lost outcome now (dn_db st)))))
       (fst (persist_outcome env t resolve lock_lost outcome now (dn_db st))))"
proof -
  have live: "op_live st id'" using inv t by (auto simp: daemon_inv_def task_inv_def)
  then obtain ru0 where "bt_get (dn_ops st) id' = Some ru0" by (auto simp: op_live_def)
  with ru show ?thesis
    by (auto simp: complete_operation_def Let_def case_prod_beta finish_operation_parts split: if_splits)
qed

lemma complete_clone_status:
  assumes inv: "daemon_inv max_heavy st" and t: "bt_get (dn_tasks st) id' = Some t"
    and ru: "bt_get (dn_ops (complete_clone env id' t cancelled work now st)) id' = Some ru"
  shows "ov_status (ru_operation ru) = fst (clone_conclusion cancelled work)"
proof -
  have live: "op_live st id'" using inv t by (auto simp: daemon_inv_def task_inv_def)
  then obtain ru0 where "bt_get (dn_ops st) id' = Some ru0" by (auto simp: op_live_def)
  with ru show ?thesis
    by (auto simp: complete_clone_def Let_def case_prod_beta finish_operation_parts split: if_splits)
qed

section \<open>A failed renewal\<close>

text \<open>No step removes a stored operation, so the name of an evicted one is never used again.\<close>

lemma complete_operation_db:
  "keeps_operations (dn_db st) (dn_db (complete_operation env resolve id' t lock_lost outcome now st))"
proof -
  let ?p = "persist_outcome env t resolve lock_lost outcome now (dn_db st)"
  have "db_operations (snd (recorded_attempts (de_store env) (fst ?p) (snd ?p))) = db_operations (dn_db st)"
    by (simp add: recorded_attempts_def record_attempts_keeps persist_outcome_keeps
        split: sum.splits backend_outcome.splits)
  from keeps_operations_trans [OF keeps_operations_same [OF this] finish_operation_parts(5)
      [where st = "st\<lparr>dn_db := snd (recorded_attempts (de_store env) (fst ?p) (snd ?p))\<rparr>", simplified]]
  show ?thesis by (simp add: complete_operation_def Let_def case_prod_beta)
qed

lemma begin_operation_db:
  assumes "begin_operation env kind deployment iv id' token now st = (r, st')"
  shows "keeps_operations (dn_db st) (dn_db st')"
proof (cases "begin_lock env iv kind deployment token now (dn_db st)")
  case (Inr p)
  obtain lock db where p: "p = (lock, db)" by fastforce
  have lk: "keeps_operations (dn_db st) db" using begin_lock_keeps Inr p by (blast intro: keeps_operations_same)
  then have "keeps_operations (dn_db st) (try_store (release_lock l) db)" for l
    by (rule keeps_operations_trans) (rule release_lock_keeps)
  with assms Inr p lk show ?thesis
    by (auto simp: begin_operation_def Let_def split: sum.splits option.splits
        dest!: start_operation_Inr intro: keeps_operations_trans)
qed (use assms in \<open>simp add: begin_operation_def\<close>)

lemma daemon_step_db: "daemon_step env st st' \<Longrightarrow> keeps_operations (dn_db st) (dn_db st')"
proof (erule daemon_stepE, goal_cases)
  case (2 id' t now)
  then show ?case by (simp add: start_work_def set_running_def Let_def update_operation_keeps)
next
  case (4 id' t lock now)
  then show ?case
    by (cases "heartbeat_lock lock now LOCK_TTL_MILLIS (dn_db st)")
      (auto simp: heartbeat_tick_def dest: heartbeat_keeps)
next
  case (9 id' r)
  then show ?case by (auto simp: cancel_operation_def split: option.splits if_splits)
next
  case (11 db)
  then show ?case by (auto simp: keeps_operations_def subset_iff dom_def)
qed (simp_all add: begin_operation_db cancel_waiting_def finish_operation_parts(5) complete_operation_db
      complete_clone_def drop_permit_def request_cancellation_def Let_def case_prod_beta)

text \<open>The phases of a task that has seen the renewal of its lease fail.\<close>

definition renewal_failed :: "task_phase \<Rightarrow> bool" where
  "renewal_failed phase \<longleftrightarrow> (\<exists>e. phase = Working (Some e) \<or> phase = Ended (Some e))"

definition never_succeeds :: "daemon_state \<Rightarrow> string \<Rightarrow> bool" where
  "never_succeeds st id' \<longleftrightarrow>
     bt_get (db_operations (dn_db st)) id' \<noteq> None \<and>
     (\<forall>ru. bt_get (dn_ops st) id' = Some ru \<longrightarrow> ov_status (ru_operation ru) \<noteq> OpSucceeded) \<and>
     (\<forall>t. bt_get (dn_tasks st) id' = Some t \<longrightarrow>
        tk_invocation t \<noteq> CloneInvocation \<and> renewal_failed (tk_phase t))"

lemma begin_operation_stored:
  assumes "begin_operation env kind deployment iv i token now st = (r, st')"
    and "bt_get (db_operations (dn_db st)) k \<noteq> None"
  shows "bt_get (dn_ops st') k = bt_get (dn_ops st) k \<and> bt_get (dn_tasks st') k = bt_get (dn_tasks st) k"
  using assms
  by (cases "k = i")
    (auto simp: begin_operation_def Let_def split: sum.splits prod.splits dest!: begin_lock_keeps start_operation_Inr)

lemma finish_other:
  assumes "k \<noteq> i"
    and "bt_get (dn_ops (finish_operation env i status result failure now lock st)) k = Some ru"
  shows "bt_get (dn_ops st) k = Some ru"
  using assms by (auto simp: finish_operation_parts split: if_splits)

lemma failed_renewal_never_concludes_well:
  "fst (conclusion (Some e) recorded outcome) \<noteq> OpSucceeded"
  by (simp add: conclusion_succeeded)

lemma never_succeeds_step:
  assumes inv: "daemon_inv max_heavy st" and never: "never_succeeds st k" and step: "daemon_step env st st'"
  shows "never_succeeds st' k"
proof -
  have stored: "bt_get (db_operations (dn_db st)) k \<noteq> None"
    and op: "\<And>ru. bt_get (dn_ops st) k = Some ru \<Longrightarrow> ov_status (ru_operation ru) \<noteq> OpSucceeded"
    and task: "\<And>t. bt_get (dn_tasks st) k = Some t \<Longrightarrow>
      tk_invocation t \<noteq> CloneInvocation \<and> renewal_failed (tk_phase t)"
    using never by (auto simp: never_succeeds_def)
  have "bt_get (db_operations (dn_db st')) k \<noteq> None"
    using daemon_step_db [OF step] stored by (simp add: keeps_operations_def)
  moreover have "(\<forall>ru. bt_get (dn_ops st') k = Some ru \<longrightarrow> ov_status (ru_operation ru) \<noteq> OpSucceeded) \<and>
      (\<forall>t. bt_get (dn_tasks st') k = Some t \<longrightarrow> tk_invocation t \<noteq> CloneInvocation \<and> renewal_failed (tk_phase t))"
    using step
  proof (rule daemon_stepE, goal_cases)
    case (1 kind deployment iv id' token now r)
    then show ?case using begin_operation_stored [OF 1 stored] op task by simp
  next
    case (2 id' t now)
    then have "k \<noteq> id'" using task by (auto simp: renewal_failed_def)
    with 2 op task show ?case by (simp add: start_work_def set_running_def Let_def)
  next
    case (3 id' t ru now)
    then have "k \<noteq> id'" using task by (auto simp: renewal_failed_def)
    with 3 op task show ?case
      by (auto simp: cancel_waiting_def finish_operation_parts(2) dest: finish_other)
  next
    case (4 id' t lock now)
    then have "k \<noteq> id'" using task by (auto simp: renewal_failed_def)
    with 4 op task show ?case
      by (auto simp: heartbeat_tick_def split: sum.splits prod.splits)
  next
    case (5 id' kind now data)
    with op task show ?case by auto
  next
    case (6 id' t lock_lost)
    with op task show ?case by (auto simp: drop_permit_def renewal_failed_def)
  next
    case (7 id' t lock_lost resolve outcome now)
    show ?case
    proof (cases "k = id'")
      case True
      then obtain e where "lock_lost = Some e" using 7 task by (auto simp: renewal_failed_def)
      then show ?thesis
        using 7 True complete_operation_status [OF inv 7(2), of env resolve lock_lost outcome now]
        by (auto simp: failed_renewal_never_concludes_well)
          (auto simp: complete_operation_def Let_def case_prod_beta finish_operation_parts(2))
    next
      case False
      with 7 op task show ?thesis
        by (auto simp: complete_operation_def Let_def case_prod_beta finish_operation_parts(2) dest: finish_other)
    qed
  next
    case (8 id' t lock_lost ru' work now)
    then have "k \<noteq> id'" using task by auto
    with 8 op task show ?case
      by (auto simp: complete_clone_def Let_def case_prod_beta finish_operation_parts(2) dest: finish_other)
  next
    case (9 id' r)
    with op task show ?case by (auto simp: cancel_operation_def split: option.splits if_splits)
  next
    case 10
    have "dn_tasks st' = dn_tasks st" using 10 by (simp add: request_cancellation_def)
    with 10 op task show ?case by (auto simp: request_cancellation_parts)
  next
    case (11 db)
    with op task show ?case by simp
  qed
  ultimately show ?thesis by (simp add: never_succeeds_def)
qed

lemma never_succeeds_steps:
  assumes "(daemon_step env)\<^sup>*\<^sup>* st st'" and "daemon_inv max_heavy st" and "never_succeeds st k"
  shows "never_succeeds st' k"
proof -
  have "daemon_inv max_heavy st' \<and> never_succeeds st' k"
    using assms by (induction rule: rtranclp_induct) (auto intro: daemon_step_inv never_succeeds_step)
  then show ?thesis by simp
qed

lemma failed_tick_never_succeeds:
  assumes inv: "daemon_inv max_heavy st" and t: "bt_get (dn_tasks st) id' = Some t"
    and work: "tk_invocation t \<noteq> CloneInvocation"
    and fails: "heartbeat_lock lock now LOCK_TTL_MILLIS (dn_db st) = Inl e"
  shows "never_succeeds (heartbeat_tick id' t lock now st) id'"
proof -
  have "op_live st id'" using inv t by (auto simp: daemon_inv_def task_inv_def)
  then have "\<exists>ru. bt_get (dn_ops st) id' = Some ru \<and> \<not> terminal (ov_status (ru_operation ru)) \<and>
      bt_get (db_operations (dn_db st)) id' \<noteq> None"
    using inv by (auto simp: op_live_def daemon_inv_def ops_inv_def)
  then show ?thesis
    using work fails by (auto simp: never_succeeds_def heartbeat_tick_def renewal_failed_def)
qed

section \<open>Counting\<close>

lemma length_table: "bt_inv m \<Longrightarrow> length m = card (dom (bt_get m))"
  by (metis bt_inv_distinct distinct_card dom_map_of_conv_image_fst length_map list.set_map)

lemma count_rows_card: "bt_inv m \<Longrightarrow> count_rows P m = card {k. \<exists>v. bt_get m k = Some v \<and> P v}"
proof -
  assume inv: "bt_inv m"
  have "dom (bt_get (filter (\<lambda>e. P (snd e)) m)) = {k. \<exists>v. bt_get m k = Some v \<and> P v}"
    using bt_inv_distinct [OF inv] bt_inv_distinct [OF bt_inv_filter [OF inv]]
    by (auto simp: dom_def map_of_eq_Some_iff)
  then show ?thesis using length_table [OF bt_inv_filter [OF inv]] by (simp add: count_rows_def)
qed

lemma daemon_counts:
  assumes "daemon_inv max_heavy st"
  shows "active_operations st = length (dn_tasks st)"
    and "length (dn_ops st) = active_operations st + length (dn_terminal st)"
proof -
  let ?live = "{k. op_live st k}" and ?done = "{k. op_done st k}"
  have inv: "bt_inv (dn_ops st)" "bt_inv (dn_tasks st)" "distinct (dn_terminal st)"
    and tasks: "dom (bt_get (dn_tasks st)) = ?live" and fin: "set (dn_terminal st) = ?done"
    using assms by (auto simp: daemon_inv_def ops_inv_def task_inv_def retention_inv_def dom_def)
  have active: "active_operations st = card ?live"
    using count_rows_card [OF inv(1), of "\<lambda>ru. \<not> terminal (ov_status (ru_operation ru))"]
    by (simp add: active_operations_def count_rows_def case_prod_unfold op_live_def)
  then show "active_operations st = length (dn_tasks st)" using length_table [OF inv(2)] tasks by simp
  have "dom (bt_get (dn_ops st)) = ?live \<union> ?done" and "?live \<inter> ?done = {}"
    by (auto simp: op_live_def op_done_def)
  moreover have "finite ?live" "finite ?done"
    using tasks fin by (metis finite_dom_map_of, metis List.finite_set)
  ultimately have "length (dn_ops st) = card ?live + card ?done"
    using length_table [OF inv(1)] by (simp add: card_Un_disjoint)
  then show "length (dn_ops st) = active_operations st + length (dn_terminal st)"
    using active fin inv(3) by (metis distinct_card)
qed

section \<open>A worked daemon\<close>

definition sample_daemon_env :: daemon_env where
  "sample_daemon_env =
     \<lparr>de_store = sample_store_env, de_instance_id = ''daemon-1'', de_pid = 7, de_root = ''/p'',
      de_bundle = (\<lambda>_. None)\<rparr>"

definition sample_begin :: "command_kind \<Rightarrow> string \<Rightarrow> string \<Rightarrow> i64 \<Rightarrow> daemon_state \<Rightarrow> daemon_state" where
  "sample_begin kind deployment id' now st =
     snd (begin_operation sample_daemon_env kind deployment (CommandInvocation [] sample_move) id'
       (''token-'' @ id') now st)"

definition sample_start :: "string \<Rightarrow> i64 \<Rightarrow> daemon_state \<Rightarrow> daemon_state" where
  "sample_start id' now st = start_work sample_daemon_env id' (the (bt_get (dn_tasks st) id')) now st"

definition sample_fail :: "string \<Rightarrow> i64 \<Rightarrow> daemon_state \<Rightarrow> daemon_state" where
  "sample_fail id' now st =
     complete_operation sample_daemon_env (\<lambda>_. Inl cancelled_error) id' (the (bt_get (dn_tasks st) id')) None
       (Inr (Completed \<lparr>cr_exit_code = 1, cr_stdout = [], cr_stderr = []\<rparr>)) now st"

definition sample_end :: "string \<Rightarrow> daemon_state \<Rightarrow> daemon_state" where
  "sample_end id' st = drop_permit id' (the (bt_get (dn_tasks st) id')) None st"

text \<open>
  One permit: \<open>x\<close> works on another deployment, \<open>a\<close> waits for the permit with the lease of
  \<open>shop\<close>, and 15 seconds later \<open>b\<close> gets that lease.
\<close>

definition contended_daemon :: daemon_state where
  "contended_daemon =
     sample_begin CmdMembership ''shop'' ''b'' 15002
       (sample_begin CmdApply ''shop'' ''a'' 2
         (sample_start ''x'' 1 (sample_begin CmdApply ''other'' ''x'' 0 (prepared 1 empty_database))))"

definition overlapping_daemon :: daemon_state where
  "overlapping_daemon =
     sample_start ''a'' 15004 (sample_fail ''x'' 15003 (sample_end ''x'' (sample_start ''b'' 15002 contended_daemon)))"

lemma sample_begin_step: "daemon_step sample_daemon_env st (sample_begin kind deployment id' now st)"
  unfolding sample_begin_def by (rule begins) (rule prod.collapse [symmetric])

definition may_start :: "daemon_state \<Rightarrow> string \<Rightarrow> bool" where
  "may_start st id' \<longleftrightarrow>
     (case bt_get (dn_tasks st) id' of
        None \<Rightarrow> False
      | Some t \<Rightarrow> tk_phase t = AwaitPermit \<and>
          (invocation_heavy (tk_invocation t) (tk_kind t) \<longrightarrow> 0 < dn_permits st))"

definition may_fail :: "daemon_state \<Rightarrow> string \<Rightarrow> bool" where
  "may_fail st id' \<longleftrightarrow>
     (case bt_get (dn_tasks st) id' of
        None \<Rightarrow> False
      | Some t \<Rightarrow> tk_phase t = Ended None \<and> tk_invocation t \<noteq> CloneInvocation)"

definition may_end :: "daemon_state \<Rightarrow> string \<Rightarrow> bool" where
  "may_end st id' \<longleftrightarrow> map_option tk_phase (bt_get (dn_tasks st) id') = Some (Working None)"

lemma sample_start_step: "may_start st id' \<Longrightarrow> daemon_step sample_daemon_env st (sample_start id' now st)"
  unfolding sample_start_def by (rule starts) (auto simp: may_start_def split: option.splits)

lemma sample_end_step: "may_end st id' \<Longrightarrow> daemon_step sample_daemon_env st (sample_end id' st)"
  unfolding sample_end_def by (rule ends_work) (auto simp: may_end_def)

lemma sample_fail_step: "may_fail st id' \<Longrightarrow> daemon_step sample_daemon_env st (sample_fail id' now st)"
  unfolding sample_fail_def by (rule completes) (auto simp: may_fail_def split: option.splits)

lemma contended_reachable: "daemon_reachable sample_daemon_env 1 contended_daemon"
  unfolding contended_daemon_def
  by (intro daemon_reachable.step [OF _ sample_begin_step] daemon_reachable.step [OF _ sample_start_step]
      daemon_reachable.start) code_simp

lemma overlapping_ready:
  "may_start contended_daemon ''b''"
  "may_end (sample_start ''b'' 15002 contended_daemon) ''x''"
  "may_fail (sample_end ''x'' (sample_start ''b'' 15002 contended_daemon)) ''x''"
  "may_start (sample_fail ''x'' 15003 (sample_end ''x'' (sample_start ''b'' 15002 contended_daemon))) ''a''"
  by code_simp+

lemma overlapping_reachable: "daemon_reachable sample_daemon_env 1 overlapping_daemon"
  unfolding overlapping_daemon_def
  by (intro daemon_reachable.step [OF _ sample_start_step] daemon_reachable.step [OF _ sample_fail_step]
      daemon_reachable.step [OF _ sample_end_step] contended_reachable overlapping_ready)


section \<open>Properties of the daemon's operations\<close>

text \<open>
  C34. The daemon's bookkeeping is exact in every reachable state, however requests, tasks,
  lease renewals, cancellations, shutdown and other processes interleave: an operation in memory
  has a task exactly while its status is not terminal; a terminal one has its finishing time and
  a closed event stream; the permits of heavy work are neither lost nor duplicated, so at most
  \<open>max_heavy\<close> tasks hold one; and memory holds the active operations plus at most the 64
  retained ones.
\<close>

theorem operations_accounted:
  assumes "daemon_reachable env max_heavy st"
  shows "daemon_inv max_heavy st \<and> active_operations st = length (dn_tasks st) \<and>
     length (dn_ops st) = active_operations st + length (dn_terminal st) \<and>
     length (dn_terminal st) \<le> TERMINAL_OPERATION_RETENTION \<and>
     count_rows tk_permit (dn_tasks st) \<le> max_heavy"
  using daemon_reachable_inv [OF assms] daemon_counts [OF daemon_reachable_inv [OF assms]]
  by (auto simp: daemon_inv_def retention_inv_def permits_inv_def)

theorem operations_accounted_witness:
  "daemon_inv 1 overlapping_daemon \<and> length (dn_ops overlapping_daemon) = 3 \<and>
   active_operations overlapping_daemon = 2 \<and> dn_terminal overlapping_daemon = [''x'']"
proof -
  have "length (dn_tasks overlapping_daemon) = 2" "dn_terminal overlapping_daemon = [''x'']" by code_simp+
  with operations_accounted [OF overlapping_reachable] show ?thesis by simp
qed

text \<open>
  C35. Results are final: whatever the daemon does next, an operation that has finished keeps its
  status, finishing time, result and error, and its event stream stays closed, until it is evicted
  from memory. All that can still change is the log behind the closed stream, to which a reader
  of the command's output that was left behind may add one event at a time.
\<close>

theorem results_are_final:
  assumes "daemon_reachable env max_heavy st" and "daemon_step env st st'"
    and "bt_get (dn_ops st) id' = Some ru" and "terminal (ov_status (ru_operation ru))"
    and "bt_get (dn_ops st') id' = Some ru'"
  shows "ru_operation ru' = ru_operation ru \<and> ru_cancelled ru' = ru_cancelled ru \<and>
     el_terminal (ru_events ru') \<and>
     (ru_events ru' = ru_events ru \<or> (\<exists>e. ru_events ru' = log_emit e (ru_events ru)))"
proof -
  have inv: "daemon_inv max_heavy st" by (rule daemon_reachable_inv [OF assms(1)])
  have "el_terminal (ru_events ru)"
    using inv assms(3,4) by (auto simp: daemon_inv_def ops_inv_def op_consistent_def)
  then show ?thesis
    using finished_stays [OF inv assms(2-4)] assms(5)
    by (auto simp: stays_settled_def settled_as_def simp del: split_paired_Ex)
qed

definition late_event :: "string \<Rightarrow> daemon_state \<Rightarrow> daemon_state" where
  "late_event id' = update_op id' (\<lambda>ru. ru\<lparr>ru_events := log_emit (id', LogEvent, 15006, JNull) (ru_events ru)\<rparr>)"

theorem results_are_final_witness:
  "\<exists>ru ru'. bt_get (dn_ops overlapping_daemon) ''x'' = Some ru \<and>
     bt_get (dn_ops (late_event ''x'' overlapping_daemon)) ''x'' = Some ru' \<and>
     ru_operation ru' = ru_operation ru \<and> el_terminal (ru_events ru') \<and> ru_events ru' \<noteq> ru_events ru"
proof -
  have found: "bt_get (dn_ops overlapping_daemon) ''x'' \<noteq> None"
    "bt_get (dn_ops (late_event ''x'' overlapping_daemon)) ''x'' \<noteq> None"
    "bt_get (dn_tasks overlapping_daemon) ''x'' = None"
    by code_simp+
  then obtain ru ru' where ru: "bt_get (dn_ops overlapping_daemon) ''x'' = Some ru"
    and ru': "bt_get (dn_ops (late_event ''x'' overlapping_daemon)) ''x'' = Some ru'" by blast
  have done': "terminal (ov_status (ru_operation (the (bt_get (dn_ops overlapping_daemon) ''x''))))" by code_simp
  have "el_next_id (ru_events (the (bt_get (dn_ops overlapping_daemon) ''x''))) \<noteq>
      el_next_id (ru_events (the (bt_get (dn_ops (late_event ''x'' overlapping_daemon)) ''x'')))" by code_simp
  then have "ru_events ru' \<noteq> ru_events ru" using ru ru' by auto
  moreover have "daemon_step sample_daemon_env overlapping_daemon (late_event ''x'' overlapping_daemon)"
    unfolding late_event_def by (rule emits) (simp add: found)
  from results_are_final [OF overlapping_reachable this ru _ ru'] done' ru
  have "ru_operation ru' = ru_operation ru \<and> el_terminal (ru_events ru')" by simp
  ultimately show ?thesis using ru ru' by blast
qed


text \<open>
  C37. Success is earned. An operation whose work is over is recorded as succeeded exactly when
  its backend ended with exit code 0, no renewal of its lease was seen to fail, the applied
  snapshot of the bundle it had to persist was stored, and every router attempt of a live move was
  recorded. A clone, which renews no lease, is recorded as succeeded exactly when it was not
  cancelled and its worker succeeded. A failed renewal is never forgotten: from then on, whatever
  happens, the operation is in no state recorded as succeeded. A lease that is lost while nothing
  renews it goes unnoticed, as the previous property shows.
\<close>

theorem success_is_earned:
  assumes "daemon_reachable env max_heavy st" and "bt_get (dn_tasks st) id' = Some t"
  shows "(tk_invocation t \<noteq> CloneInvocation \<and> tk_phase t = Ended lock_lost \<and>
      bt_get (dn_ops (complete_operation env resolve id' t lock_lost outcome now st)) id' = Some ru \<longrightarrow>
      (ov_status (ru_operation ru) = OpSucceeded \<longleftrightarrow>
         lock_lost = None \<and> exit_ok outcome \<and>
         (\<exists>db. (case persistence_bundle (tk_invocation t) (tk_kind t) of
                  None \<Rightarrow> db = dn_db st
                | Some bundle \<Rightarrow> persist_applied_snapshot (de_store env) (resolve bundle) now (dn_db st) = Inr db) \<and>
               fst (recorded_attempts (de_store env) outcome db) = Inr ()))) \<and>
    (tk_invocation t = CloneInvocation \<and>
      bt_get (dn_ops (complete_clone env id' t cancelled work now st)) id' = Some ru \<longrightarrow>
      (ov_status (ru_operation ru) = OpSucceeded \<longleftrightarrow> \<not> cancelled \<and> work = Inr ())) \<and>
    (tk_invocation t \<noteq> CloneInvocation \<and> tk_phase t = Working None \<and> tk_lock t = Some lock \<and>
      heartbeat_lock lock now LOCK_TTL_MILLIS (dn_db st) = Inl e \<and>
      (daemon_step env)\<^sup>*\<^sup>* (heartbeat_tick id' t lock now st) st' \<and> bt_get (dn_ops st') id' = Some ru' \<longrightarrow>
      ov_status (ru_operation ru') \<noteq> OpSucceeded)"
    (is "?work \<and> ?clone \<and> ?sticky")
proof (intro conjI)
  have inv: "daemon_inv max_heavy st" by (rule daemon_reachable_inv [OF assms(1)])
  show ?work
  proof (intro impI, elim conjE)
    assume "bt_get (dn_ops (complete_operation env resolve id' t lock_lost outcome now st)) id' = Some ru"
    note status = complete_operation_status [OF inv assms(2) this]
    show "ov_status (ru_operation ru) = OpSucceeded \<longleftrightarrow>
         lock_lost = None \<and> exit_ok outcome \<and>
         (\<exists>db. (case persistence_bundle (tk_invocation t) (tk_kind t) of
                  None \<Rightarrow> db = dn_db st
                | Some bundle \<Rightarrow> persist_applied_snapshot (de_store env) (resolve bundle) now (dn_db st) = Inr db) \<and>
               fst (recorded_attempts (de_store env) outcome db) = Inr ())"
      unfolding status conclusion_succeeded
      by (auto simp: persist_outcome_def exit_ok_def recorded_attempts_def
          split: option.splits sum.splits backend_outcome.splits if_splits)
  qed
  show ?clone
    using complete_clone_status [OF inv assms(2)] by (auto simp: clone_conclusion_def split: sum.splits if_splits)
  show ?sticky
  proof (intro impI, elim conjE)
    assume "tk_invocation t \<noteq> CloneInvocation" "heartbeat_lock lock now LOCK_TTL_MILLIS (dn_db st) = Inl e"
      and works: "tk_phase t = Working None" and steps: "(daemon_step env)\<^sup>*\<^sup>* (heartbeat_tick id' t lock now st) st'"
      and ru': "bt_get (dn_ops st') id' = Some ru'"
    note failed = failed_tick_never_succeeds [OF inv assms(2) this(1,2)]
    have "never_succeeds st' id'"
      by (rule never_succeeds_steps [OF steps heartbeat_tick_inv [OF inv assms(2) works] failed])
    with ru' show "ov_status (ru_operation ru') \<noteq> OpSucceeded" by (simp add: never_succeeds_def)
  qed
qed

definition sample_resolve :: "string \<Rightarrow> api_error_v1 + string \<times> string \<times> json" where
  "sample_resolve bundle = Inr (''shop'', ''hash'', JObj [])"

definition sample_success :: "api_error_v1 + backend_outcome" where
  "sample_success = Inr (Completed \<lparr>cr_exit_code = 0, cr_stdout = [], cr_stderr = []\<rparr>)"

definition concluding_daemon :: daemon_state where
  "concluding_daemon = sample_end ''b'' overlapping_daemon"

definition completed_daemon :: daemon_state where
  "completed_daemon =
     complete_operation sample_daemon_env sample_resolve ''b'' (the (bt_get (dn_tasks concluding_daemon) ''b''))
       None sample_success 15005 concluding_daemon"

lemma concluding_reachable: "daemon_reachable sample_daemon_env 1 concluding_daemon"
proof -
  have "may_end overlapping_daemon ''b''" by code_simp
  then show ?thesis
    unfolding concluding_daemon_def by (intro daemon_reachable.step [OF overlapping_reachable sample_end_step])
qed

definition renewing_daemon :: daemon_state where
  "renewing_daemon =
     (let t = the (bt_get (dn_tasks concluding_daemon) ''a'')
      in heartbeat_tick ''a'' t (the (tk_lock t)) 15005 concluding_daemon)"

theorem success_is_earned_witness:
  "(\<exists>ru. bt_get (dn_ops completed_daemon) ''b'' = Some ru \<and> ov_status (ru_operation ru) = OpSucceeded) \<and>
   (\<exists>ru. bt_get (dn_ops renewing_daemon) ''a'' = Some ru \<and> ov_status (ru_operation ru) \<noteq> OpSucceeded)"
proof -
  let ?t = "the (bt_get (dn_tasks concluding_daemon) ''b'')"
  have "bt_get (dn_tasks concluding_daemon) ''b'' \<noteq> None" by code_simp
  then have t: "bt_get (dn_tasks concluding_daemon) ''b'' = Some ?t" by auto
  have "bt_get (dn_ops completed_daemon) ''b'' \<noteq> None" by code_simp
  then obtain ru where ru: "bt_get (dn_ops completed_daemon) ''b'' = Some ru" by blast
  have p: "persistence_bundle (tk_invocation ?t) (tk_kind ?t) = Some ''deployment.yaml''"
    "tk_invocation ?t \<noteq> CloneInvocation" "tk_phase ?t = Ended None" by code_simp+
  have "case persist_applied_snapshot sample_store_env (sample_resolve ''deployment.yaml'') 15005
      (dn_db concluding_daemon) of Inl _ \<Rightarrow> False | Inr _ \<Rightarrow> True" by code_simp
  then obtain db where db: "persist_applied_snapshot sample_store_env (sample_resolve ''deployment.yaml'') 15005
      (dn_db concluding_daemon) = Inr db" by (auto split: sum.splits)
  have first: "ov_status (ru_operation ru) = OpSucceeded"
    using success_is_earned [OF concluding_reachable t, THEN conjunct1, of None sample_resolve sample_success 15005 ru]
      ru [unfolded completed_daemon_def] p db
    by (auto simp: sample_success_def exit_ok_def recorded_attempts_def sample_daemon_env_def)
  let ?a = "the (bt_get (dn_tasks concluding_daemon) ''a'')"
  have "bt_get (dn_tasks concluding_daemon) ''a'' \<noteq> None" by code_simp
  then have a: "bt_get (dn_tasks concluding_daemon) ''a'' = Some ?a" by auto
  have "bt_get (dn_ops renewing_daemon) ''a'' \<noteq> None" by code_simp
  then obtain ru' where ru': "bt_get (dn_ops renewing_daemon) ''a'' = Some ru'" by blast
  have "isl (heartbeat_lock (the (tk_lock ?a)) 15005 LOCK_TTL_MILLIS (dn_db concluding_daemon))" by code_simp
  then obtain e where e: "heartbeat_lock (the (tk_lock ?a)) 15005 LOCK_TTL_MILLIS (dn_db concluding_daemon) = Inl e"
    by (auto simp: isl_def)
  have work: "tk_invocation ?a \<noteq> CloneInvocation" "tk_phase ?a = Working None" "tk_lock ?a \<noteq> None" by code_simp+
  have "ov_status (ru_operation ru') \<noteq> OpSucceeded"
    using success_is_earned [OF concluding_reachable a, THEN conjunct2, THEN conjunct2,
        of "the (tk_lock ?a)" 15005 e renewing_daemon ru'] work e ru'
    by (auto simp: renewing_daemon_def Let_def)
  with ru ru' first show ?thesis by blast
qed

end
