(* ===== verification/PlanModel.thy ===== *)
theory PlanModel
  imports RouterValidate Json
begin

text \<open>
  The deployment bundle of \<open>apmpr-planner/src/model.rs\<close>, its diagnostics and the
  stand-alone checks of \<open>apmpr-planner/src/lib.rs\<close>: names, references to services, resource
  names, and external instances with their ports. A \<open>PathBuf\<close> is its string.
\<close>

section \<open>The bundle\<close>

definition PLANNER_API_VERSION :: string where
  "PLANNER_API_VERSION = ''apmpr.dev/v1alpha2''"

definition PLANNER_KIND :: string where
  "PLANNER_KIND = ''Deployment''"

record plan_metadata =
  pm_name :: string
  pm_labels :: "(string, string) btree"

record resolved_overlay_file =
  rf_target :: string
  rf_content_hash :: string
  rf_mode :: string
  rf_origin :: string

record plan_repository =
  pr_url :: "string option"
  pr_clone :: "string option"

record plan_source =
  pz_repository :: string
  pz_ref :: string
  pz_path :: string

record plan_parameter =
  pp_required :: bool
  pp_default :: "string option"

record build_spec =
  bs_context :: string
  bs_dockerfile :: "string option"

datatype script_lifecycle = ServiceLifecycle | TaskLifecycle

text \<open>
  \<open>Execution\<close>: image, build, command, working directory, source mount, writable, environment
  (and the lifecycle of a script), in the order of the source.
\<close>

datatype execution =
    ContainerExecution "string option" "build_spec option" "string list" "string option" string bool
      "(string, string) btree"
  | ScriptExecution string "string list" "string option" string bool "(string, string) btree" script_lifecycle
  | ProcessComposeExecution string string "string option" string bool "(string, string) btree"

record volume_mount =
  vm_name :: string
  vm_target :: string
  vm_read_only :: bool

datatype dependency_condition = DepStarted | DepHealthy | DepCompletedSuccessfully

datatype plan_probe = HttpProbe string u16 bool | TcpProbe u16 | CommandProbe "string list"

record plan_service =
  ps_execution :: execution
  ps_publish :: "u16 list"
  ps_volumes :: "volume_mount list"
  ps_depends_on :: "(string, dependency_condition) btree"
  ps_probe :: "plan_probe option"

record plan_block =
  pb_parameters :: "(string, plan_parameter) btree"
  pb_services :: "(string, plan_service) btree"

datatype external_port = SinglePort u16 | PortRange u16 u16

record plan_instance =
  pi_name :: string
  pi_block :: string
  pi_source :: string
  pi_external :: "string option"
  pi_ports :: "external_port list"
  pi_probe :: "plan_probe option"
  pi_device :: "string option"
  pi_address :: "string option"
  pi_parameters :: "(string, string) btree"
  pi_labels :: "(string, string) btree"
  pi_environment :: "(string, string) btree"
  pi_environment_unset :: "string list"

record plan_group =
  pg_instances :: "string list"
  pg_disabled :: "string list"
  pg_address :: "string option"

record managed_profile =
  mp_route :: string
  mp_start_url :: string

record published_upstream =
  pu_instance :: string
  pu_service :: string
  pu_port :: u16

record deployment_spec =
  dp_overlays :: "string list"
  dp_resolved_overlay_files :: "(string, resolved_overlay_file list) btree"
  dp_repositories :: "(string, plan_repository) btree"
  dp_sources :: "(string, plan_source) btree"
  dp_blocks :: "(string, plan_block) btree"
  dp_instances :: "plan_instance list"
  dp_groups :: "(string, plan_group) btree"
  dp_managed_profiles :: "(string, managed_profile) btree"
  dp_host_router :: "router_config option"
  dp_host_upstreams :: "(string, published_upstream) btree"
  dp_router_image :: string

record plan_bundle =
  bn_api_version :: string
  bn_kind :: string
  bn_metadata :: plan_metadata
  bn_spec :: deployment_spec
  bn_definition_dir :: string
  bn_workspace_root :: string

abbreviation bundle_blocks :: "plan_bundle \<Rightarrow> (string, plan_block) btree" where
  "bundle_blocks b \<equiv> dp_blocks (bn_spec b)"

abbreviation bundle_groups :: "plan_bundle \<Rightarrow> (string, plan_group) btree" where
  "bundle_groups b \<equiv> dp_groups (bn_spec b)"

definition is_external :: "plan_instance \<Rightarrow> bool" where
  "is_external i \<longleftrightarrow> pi_external i \<noteq> None"

text \<open>The map of instances by name that \<open>validate\<close> builds; a later entry replaces an earlier one.\<close>

definition bundle_instances :: "plan_bundle \<Rightarrow> (string, plan_instance) btree" where
  "bundle_instances b = bt_index pi_name (dp_instances (bn_spec b))"

section \<open>External ports\<close>

definition port_bounds :: "external_port \<Rightarrow> u16 \<times> u16" where
  "port_bounds p = (case p of SinglePort port \<Rightarrow> (port, port) | PortRange first final \<Rightarrow> (first, final))"

text \<open>\<open>start..=end\<close>\<close>

definition port_span :: "u16 \<Rightarrow> u16 \<Rightarrow> u16 list" where
  "port_span first final = map word_of_nat [unat first ..< Suc (unat final)]"

definition expanded_port :: "external_port \<Rightarrow> u16 list" where
  "expanded_port p = (case port_bounds p of (first, final) \<Rightarrow> port_span first final)"

definition expanded_external_ports :: "plan_instance \<Rightarrow> u16 list" where
  "expanded_external_ports i = concat (map expanded_port (pi_ports i))"

definition serialize_port :: "external_port \<Rightarrow> json" where
  "serialize_port p =
     (case p of
        SinglePort port \<Rightarrow> JUInt (ucast port)
      | PortRange first final \<Rightarrow> JStr (u16_to_string first @ ''-'' @ u16_to_string final))"

text \<open>The visitor: \<open>visit_u64\<close>, \<open>visit_i64\<close> (negative numbers only) and \<open>visit_str\<close>.\<close>

definition deserialize_port_str :: "string \<Rightarrow> string + external_port" where
  "deserialize_port_str value =
     (case split_once CHR ''-'' value of
        None \<Rightarrow> Inl ''port range must use \"start-end\"''
      | Some (first, final) \<Rightarrow>
          if first = [] \<or> final = [] \<or> CHR ''-'' \<in> set final then Inl ''port range must use \"start-end\"''
          else case parse_u16 10 first of
                 None \<Rightarrow> Inl ''range start must be between 1 and 65535''
               | Some a \<Rightarrow>
                   (case parse_u16 10 final of
                      None \<Rightarrow> Inl ''range end must be between 1 and 65535''
                    | Some z \<Rightarrow> Inr (PortRange a z)))"

definition deserialize_port :: "json \<Rightarrow> string + external_port" where
  "deserialize_port j =
     (case j of
        JNum (PosInt n) \<Rightarrow>
          if unat n < 65536 then Inr (SinglePort (word_of_nat (unat n)))
          else Inl ''port must be between 1 and 65535''
      | JNum (NegInt _) \<Rightarrow> Inl ''port must be between 1 and 65535''
      | JStr value \<Rightarrow> deserialize_port_str value
      | _ \<Rightarrow> Inl ''a nonzero port integer or an inclusive \"start-end\" range'')"

section \<open>Diagnostics, names and references\<close>

datatype diagnostic_code =
    DUnsupportedSchema | DInvalidName | DInvalidPath | DDuplicateName | DMissingReference
  | DMissingVariable | DDependencyCycle | DListenerConflict | DIncompleteGroup | DInvalidOverlay
  | DSelectorNoMatch | DOverlayConflict | DUnsupportedSecret

record plan_diagnostic =
  pd_code :: diagnostic_code
  pd_path :: string
  pd_message :: string

definition plan_error :: "diagnostic_code \<Rightarrow> string \<Rightarrow> string \<Rightarrow> plan_diagnostic" where
  "plan_error code path message = \<lparr>pd_code = code, pd_path = path, pd_message = message\<rparr>"

definition provider_reference :: "string \<Rightarrow> string \<times> string option" where
  "provider_reference reference =
     (case split_once CHR ''/'' reference of None \<Rightarrow> (reference, None) | Some (i, s) \<Rightarrow> (i, Some s))"

abbreviation reference_instance :: "string \<Rightarrow> string" where
  "reference_instance reference \<equiv> fst (provider_reference reference)"

definition valid_name :: "string \<Rightarrow> bool" where
  "valid_name name \<longleftrightarrow>
     name \<noteq> [] \<and> length name \<le> 63 \<and>
     list_all (\<lambda>(index, b). is_ascii_lowercase b \<or> is_ascii_digit b \<and> 0 < index \<or> b = CHR ''-'' \<and> 0 < index)
       (enumerate 0 name) \<and>
     \<not> ends_with name ''-''"

definition validate_name :: "string \<Rightarrow> string \<Rightarrow> plan_diagnostic list" where
  "validate_name name path =
     (if valid_name name then []
      else [plan_error DInvalidName path ''name must be a lowercase DNS label (letters, digits, and hyphens)''])"

text \<open>\<open>resource_name\<close>; \<open>digest\<close> is the lower-case hexadecimal SHA-256 of a string.\<close>

definition resource_name :: "(string \<Rightarrow> string) \<Rightarrow> string list \<Rightarrow> string" where
  "resource_name digest parts =
     (let joined = join ''--'' parts
      in if length joined \<le> 63 then joined
         else take 54 joined @ ''-'' @ take 8 (digest joined))"

definition service_name_for :: "(string \<Rightarrow> string) \<Rightarrow> string \<Rightarrow> string \<Rightarrow> string \<Rightarrow> string" where
  "service_name_for digest deployment inst service = resource_name digest [deployment, inst, service]"

section \<open>External instances\<close>

definition plausible_label :: "string \<Rightarrow> bool" where
  "plausible_label label \<longleftrightarrow>
     label \<noteq> [] \<and> length label \<le> 63 \<and>
     list_all (\<lambda>b. is_ascii_alphanumeric b \<or> b = CHR ''-'') label \<and>
     is_ascii_alphanumeric (hd label) \<and> is_ascii_alphanumeric (last label)"

definition plausible_hostname :: "string \<Rightarrow> bool" where
  "plausible_hostname value =
     (let value = (if ends_with value ''.'' then butlast value else value)
      in value \<noteq> [] \<and> length value \<le> 253 \<and> list_all plausible_label (split_char CHR ''.'' value))"

text \<open>One port entry: what it adds to \<open>expanded\<close> and the errors it pushes.\<close>

fun claim_ports :: "string \<Rightarrow> u16 list \<Rightarrow> u16 list \<Rightarrow> u16 list \<times> plan_diagnostic list" where
  "claim_ports path [] expanded = (expanded, [])"
| "claim_ports path (value # vs) expanded =
     (if value \<in> set expanded
      then let (expanded, errors) = claim_ports path vs expanded
           in (expanded, plan_error DDuplicateName path
                 (''external port '' @ u16_to_string value @ '' is declared more than once'') # errors)
      else claim_ports path vs (value # expanded))"

definition port_step ::
  "string \<Rightarrow> nat \<Rightarrow> external_port \<Rightarrow> u16 list \<Rightarrow> u16 list \<times> plan_diagnostic list" where
  "port_step path index port expanded =
     (let port_path = indexed (path @ ''.ports'') index;
          (first, final) = port_bounds port
      in if first = 0 \<or> final = 0
         then (expanded, [plan_error DInvalidPath port_path ''external ports must be between 1 and 65535''])
         else if final < first
         then (expanded, [plan_error DInvalidPath port_path
                 (''external port range start '' @ u16_to_string first @ '' exceeds end '' @ u16_to_string final)])
         else if 1024 < unat final - unat first + 1
         then (expanded, [plan_error DInvalidPath port_path
                 ''external port ranges may contain at most 1024 ports''])
         else claim_ports port_path (port_span first final) expanded)"

definition probe_port :: "plan_probe \<Rightarrow> u16 option" where
  "probe_port p = (case p of HttpProbe _ port _ \<Rightarrow> Some port | TcpProbe port \<Rightarrow> Some port | CommandProbe _ \<Rightarrow> None)"

text \<open>
  \<open>validate_external_instance\<close>; \<open>probe_messages\<close> are the messages of the registered
  \<open>probe-health\<close> adapter, \<open>None\<close> when there is none.
\<close>

definition external_probe_errors ::
  "(plan_probe \<Rightarrow> string list) option \<Rightarrow> string \<Rightarrow> u16 list \<Rightarrow> plan_probe \<Rightarrow> plan_diagnostic list" where
  "external_probe_errors probe_messages path expanded probe =
     (case probe_messages of
        Some messages \<Rightarrow> map (plan_error DMissingReference (path @ ''.probe'')) (messages probe)
      | None \<Rightarrow> [plan_error DUnsupportedSchema (path @ ''.probe'')
                  ''built-in adapter probe-health is not registered''])
     @ (case probe_port probe of
          Some port \<Rightarrow>
            if port \<in> set expanded then []
            else [plan_error DMissingReference (path @ ''.probe.port'')
                    ''external probe port must be included in the instance `ports` list'']
        | None \<Rightarrow> [])"

definition external_host_ok :: "string \<Rightarrow> bool" where
  "external_host_ok host \<longleftrightarrow> \<not> is_blank host \<and> (plausible_hostname host \<or> parse_ip_addr host \<noteq> None)"

definition validate_external_instance ::
  "(plan_probe \<Rightarrow> string list) option \<Rightarrow> plan_instance \<Rightarrow> string \<Rightarrow> plan_diagnostic list" where
  "validate_external_instance probe_messages i path =
     (let host = (case pi_external i of None \<Rightarrow> [] | Some h \<Rightarrow> h);
          (expanded, port_errors) = for_each (port_step path) 0 (pi_ports i) []
      in (if external_host_ok host then []
          else [plan_error DInvalidPath (path @ ''.external'')
                  ''external must be a nonempty hostname or IP address without a port''])
       @ (if pi_block i \<noteq> [] \<or> pi_source i \<noteq> [] \<or> pi_device i \<noteq> None \<or> pi_address i \<noteq> None \<or>
             pi_parameters i \<noteq> [] \<or> pi_environment i \<noteq> [] \<or> pi_environment_unset i \<noteq> []
          then [plan_error DUnsupportedSchema path
                  ''an external instance may contain only `name`, `external`, `ports`, optional `probe`, and labels'']
          else [])
       @ (if pi_ports i = []
          then [plan_error DMissingReference (path @ ''.ports'')
                  ''an external instance must declare at least one port'']
          else [])
       @ port_errors
       @ (case pi_probe i of None \<Rightarrow> [] | Some probe \<Rightarrow> external_probe_errors probe_messages path expanded probe))"

section \<open>Names and references\<close>

lemma split_once_append: "c \<notin> set a \<Longrightarrow> split_once c (a @ c # b) = Some (a, b)"
  by (induction a) auto

lemma split_once_None: "split_once c s = None \<longleftrightarrow> c \<notin> set s"
  by (induction s) auto

lemma split_once_Some: "split_once c s = Some (a, b) \<Longrightarrow> s = a @ c # b \<and> c \<notin> set a"
  by (induction s arbitrary: a) (auto split: if_splits)

lemma enumerate_all_index:
  "list_all (\<lambda>(i, b). P b \<or> Q b \<and> k < i \<or> R b \<and> k < i) (enumerate (Suc k) xs) \<longleftrightarrow>
   list_all (\<lambda>b. P b \<or> Q b \<or> R b) xs"
proof -
  have "list_all (\<lambda>(i, b). P b \<or> Q b \<and> k < i \<or> R b \<and> k < i) (enumerate n xs) \<longleftrightarrow>
      list_all (\<lambda>b. P b \<or> Q b \<or> R b) xs" if "k < n" for n
    using that by (induction xs arbitrary: n) auto
  then show ?thesis by blast
qed

text \<open>The positional condition of \<open>validate_name\<close>: a letter, then letters, digits and hyphens.\<close>

lemma valid_name_Cons:
  "valid_name (c # cs) \<longleftrightarrow>
     length cs < 63 \<and> is_ascii_lowercase c \<and>
     list_all (\<lambda>b. is_ascii_lowercase b \<or> is_ascii_digit b \<or> b = CHR ''-'') cs \<and>
     last (c # cs) \<noteq> CHR ''-''"
proof -
  have "\<not> ends_with (c # cs) ''-'' \<longleftrightarrow> last (c # cs) \<noteq> CHR ''-''"
    by (cases "c # cs" rule: rev_cases) (auto simp: ends_with_def)
  then show ?thesis
    using enumerate_all_index [of is_ascii_lowercase is_ascii_digit 0 "\<lambda>b. b = CHR ''-''" cs]
    by (auto simp: valid_name_def)
qed

lemma not_lowercase_special: "\<not> is_ascii_lowercase CHR ''/''" "\<not> is_ascii_digit CHR ''/''" "\<not> is_ascii_lowercase CHR ''-''"
  by (simp_all add: ascii_defs)

lemma valid_name_no_slash: "valid_name name \<Longrightarrow> CHR ''/'' \<notin> set name"
  by (cases name) (auto simp: valid_name_Cons not_lowercase_special list_all_iff valid_name_def [of "[]"])

lemma valid_name_segment: "valid_name name \<Longrightarrow> valid_segment name"
proof (cases name)
  case (Cons c cs)
  assume "valid_name name"
  then have v: "length cs < 63" "is_ascii_lowercase c"
    "list_all (\<lambda>b. is_ascii_lowercase b \<or> is_ascii_digit b \<or> b = CHR ''-'') cs" "last (c # cs) \<noteq> CHR ''-''"
    using Cons by (simp_all add: valid_name_Cons)
  have all: "list_all (\<lambda>b. is_ascii_lowercase b \<or> is_ascii_digit b \<or> b = CHR ''-'') (c # cs)" using v by simp
  have "last (c # cs) \<in> set (c # cs)" by (rule last_in_set) simp
  with all v(4) have "is_ascii_alphanumeric (last (c # cs))"
    unfolding list_all_iff is_ascii_alphanumeric_def by blast
  then show ?thesis using all v(1,2) Cons by (simp add: valid_segment_def is_ascii_alphanumeric_def)
qed (simp add: valid_name_def)

lemma reference_plain: "CHR ''/'' \<notin> set name \<Longrightarrow> provider_reference name = (name, None)"
  by (simp add: provider_reference_def split_once_None [THEN iffD2])

lemma reference_parts:
  "provider_reference r = (i, s) \<Longrightarrow> CHR ''/'' \<notin> set i \<and> r = (case s of None \<Rightarrow> i | Some t \<Rightarrow> i @ CHR ''/'' # t)"
  by (auto simp: provider_reference_def split_once_None dest!: split_once_Some split: option.splits)

section \<open>Ports\<close>

lemma u16_unat_inverse: "n < 65536 \<Longrightarrow> unat (word_of_nat n :: u16) = n"
  by (simp add: unsigned_of_nat take_bit_nat_eq_self)

lemma u16_unat_less: "unat (p :: u16) < 65536"
proof -
  have "unat p < 2 ^ LENGTH(16)" by (rule unsigned_less)
  then show ?thesis by simp
qed

lemma distinct_port_span: "distinct (port_span first final)"
proof -
  have "inj_on (word_of_nat :: nat \<Rightarrow> u16) (set [unat first ..< Suc (unat final)])"
  proof (rule inj_onI)
    fix m n assume "m \<in> set [unat first ..< Suc (unat final)]" "n \<in> set [unat first ..< Suc (unat final)]"
      and eq: "(word_of_nat m :: u16) = word_of_nat n"
    then have "m < 65536" "n < 65536" using u16_unat_less [of final] by auto
    then show "m = n" using eq u16_unat_inverse by metis
  qed
  then show ?thesis by (simp add: port_span_def distinct_map)
qed

lemma set_port_span: "set (port_span first final) = {first..final}"
proof (rule set_eqI)
  fix p
  have "p \<in> set (port_span first final) \<longleftrightarrow> (\<exists>n. unat first \<le> n \<and> n \<le> unat final \<and> word_of_nat n = p)"
    by (auto simp: port_span_def image_iff)
  also have "\<dots> \<longleftrightarrow> unat first \<le> unat p \<and> unat p \<le> unat final"
  proof
    assume "\<exists>n. unat first \<le> n \<and> n \<le> unat final \<and> word_of_nat n = p"
    then obtain n where n: "unat first \<le> n" "n \<le> unat final" "word_of_nat n = p" by blast
    then have "unat p = n" using u16_unat_inverse [of n] u16_unat_less [of final] by auto
    then show "unat first \<le> unat p \<and> unat p \<le> unat final" using n by simp
  next
    assume "unat first \<le> unat p \<and> unat p \<le> unat final"
    then show "\<exists>n. unat first \<le> n \<and> n \<le> unat final \<and> word_of_nat n = p"
      by (intro exI [of _ "unat p"]) simp
  qed
  finally show "p \<in> set (port_span first final) \<longleftrightarrow> p \<in> {first..final}" by (simp add: word_le_nat_alt)
qed

text \<open>Printing and parsing a port entry are inverse to each other.\<close>

lemma nat_to_string_no_hyphen: "CHR ''-'' \<notin> set (nat_to_string n)"
  using nat_to_string_digits [of "CHR ''-''" n] by (auto simp: ascii_defs)

lemma port_roundtrip: "deserialize_port (serialize_port p) = Inr p"
proof (cases p)
  case (SinglePort port)
  have "unat (ucast port :: u64) = unat port" by (simp add: unsigned_ucast_eq take_bit_nat_eq_self u16_unat_less [THEN less_le_trans])
  moreover have "unat port < 65536" using u16_unat_less [of port] by simp
  ultimately show ?thesis using SinglePort by (simp add: serialize_port_def deserialize_port_def)
next
  case (PortRange first final)
  have h: "CHR ''-'' \<notin> set (u16_to_string first)" "CHR ''-'' \<notin> set (u16_to_string final)"
    by (simp_all add: u16_to_string_def nat_to_string_no_hyphen)
  have ne: "u16_to_string first \<noteq> []" "u16_to_string final \<noteq> []"
    by (simp_all add: u16_to_string_def)
  show ?thesis using PortRange h ne
    by (simp add: serialize_port_def deserialize_port_def deserialize_port_str_def split_once_append)
qed

lemma claim_ports_Nil:
  "snd (claim_ports path vs expanded) = [] \<longleftrightarrow> distinct vs \<and> set vs \<inter> set expanded = {}"
  "snd (claim_ports path vs expanded) = [] \<Longrightarrow> set (fst (claim_ports path vs expanded)) = set vs \<union> set expanded"
  by (induction vs arbitrary: expanded) (auto simp: Let_def case_prod_unfold)

lemma port_step_Nil:
  assumes "snd (port_step path index port expanded) = []"
  shows "expanded_port port \<noteq> []" and "0 \<notin> set (expanded_port port)"
    and "set (expanded_port port) \<inter> set expanded = {}"
    and "set (fst (port_step path index port expanded)) = set (expanded_port port) \<union> set expanded"
proof -
  obtain first final where b: "port_bounds port = (first, final)" by fastforce
  have ok: "first \<noteq> 0" "first \<le> final" "port_step path index port expanded =
      claim_ports (indexed (path @ ''.ports'') index) (port_span first final) expanded"
    using assms b by (auto simp: port_step_def Let_def split: if_splits)
  have span: "expanded_port port = port_span first final" by (simp add: expanded_port_def b)
  have "first \<in> set (port_span first final)" using ok(2) by (simp add: set_port_span)
  then show "expanded_port port \<noteq> []" by (auto simp: span)
  have "0 < first" using ok(1) by (simp add: word_greater_zero_iff)
  then show "0 \<notin> set (expanded_port port)" by (auto simp: span set_port_span)
  show "set (expanded_port port) \<inter> set expanded = {}"
    and "set (fst (port_step path index port expanded)) = set (expanded_port port) \<union> set expanded"
    using assms claim_ports_Nil [of "indexed (path @ ''.ports'') index" "port_span first final" expanded]
    by (auto simp: ok(3) span)
qed

lemma distinct_expanded_port: "distinct (expanded_port port)"
  by (simp add: expanded_port_def distinct_port_span case_prod_unfold)

lemma port_loop_Nil:
  "snd (for_each (port_step path) n ports expanded) = [] \<Longrightarrow>
   distinct (concat (map expanded_port ports)) \<and> 0 \<notin> set (concat (map expanded_port ports)) \<and>
   set (concat (map expanded_port ports)) \<inter> set expanded = {} \<and> (ports = [] \<or> concat (map expanded_port ports) \<noteq> [])"
proof (induction ports arbitrary: n expanded)
  case (Cons port ports)
  then have step: "snd (port_step path n port expanded) = []"
    and rest: "snd (for_each (port_step path) (Suc n) ports (fst (port_step path n port expanded))) = []"
    by (simp_all add: for_each_Cons)
  from Cons.IH [OF rest] port_step_Nil [OF step] distinct_expanded_port [of port]
  show ?case by (simp add: set_eq_iff) blast
qed simp

lemma external_instance_ports:
  assumes "validate_external_instance probe_messages i path = []"
  shows "distinct (expanded_external_ports i)" "0 \<notin> set (expanded_external_ports i)" "expanded_external_ports i \<noteq> []"
proof -
  have "snd (for_each (port_step path) 0 (pi_ports i) []) = []" "pi_ports i \<noteq> []"
    using assms by (auto simp: validate_external_instance_def Let_def split: prod.splits if_splits)
  from port_loop_Nil [OF this(1)] this(2)
  show "distinct (expanded_external_ports i)" "0 \<notin> set (expanded_external_ports i)" "expanded_external_ports i \<noteq> []"
    by (simp_all add: expanded_external_ports_def)
qed

lemma external_instance_host:
  assumes "validate_external_instance probe_messages i path = []" and "pi_external i = Some host"
  shows "host \<noteq> []"
proof -
  have "external_host_ok host"
    using assms by (auto simp: validate_external_instance_def Let_def split: prod.splits if_splits)
  then show ?thesis by (auto simp: external_host_ok_def)
qed

section \<open>Resource names\<close>

text \<open>What \<open>format!("{:x}", Sha256::digest(...))\<close> gives: 64 lower-case hexadecimal digits.\<close>

definition hex_digest :: "(string \<Rightarrow> string) \<Rightarrow> bool" where
  "hex_digest digest \<longleftrightarrow>
     (\<forall>s. length (digest s) = 64 \<and>
        list_all (\<lambda>c. is_ascii_digit c \<or> is_ascii_lowercase c \<and> byte c \<le> 102) (digest s))"

abbreviation name_chars :: "string \<Rightarrow> bool" where
  "name_chars s \<equiv> list_all (\<lambda>b. is_ascii_lowercase b \<or> is_ascii_digit b \<or> b = CHR ''-'') s"

lemma valid_name_chars: "valid_name name \<Longrightarrow> name_chars name \<and> is_ascii_lowercase (hd name) \<and> name \<noteq> []"
  by (cases name) (auto simp: valid_name_Cons valid_name_def [of "[]"])

lemma resource_name_segment:
  assumes d: "hex_digest digest" and chars: "name_chars (join ''--'' parts)"
    and head: "is_ascii_alphanumeric (hd (join ''--'' parts))" and final: "is_ascii_alphanumeric (last (join ''--'' parts))"
    and ne: "join ''--'' parts \<noteq> []"
  shows "valid_segment (resource_name digest parts)"
proof (cases "length (join ''--'' parts) \<le> 63")
  case True
  then show ?thesis using chars head final ne by (simp add: resource_name_def Let_def valid_segment_def)
next
  case False
  let ?j = "join ''--'' parts"
  have len: "length (digest ?j) = 64"
    and hex: "list_all (\<lambda>c. is_ascii_digit c \<or> is_ascii_lowercase c \<and> byte c \<le> 102) (digest ?j)"
    using d by (auto simp: hex_digest_def)
  let ?t = "take 8 (digest ?j)"
  have t: "length ?t = 8" "?t \<noteq> []" using len by auto
  have tc: "is_ascii_digit c \<or> is_ascii_lowercase c" if "c \<in> set ?t" for c
    using hex in_set_takeD [OF that] by (auto simp: list_all_iff)
  have "last ?t \<in> set ?t" using t(2) by (rule last_in_set)
  then have "is_ascii_alphanumeric (last ?t)" using tc by (auto simp: is_ascii_alphanumeric_def)
  moreover have "name_chars (take 54 ?j @ ''-'' @ ?t)"
  proof -
    have "name_chars (take 54 ?j)" using chars by (auto simp: list_all_iff dest: in_set_takeD)
    moreover have "name_chars ?t" using tc by (auto simp: list_all_iff)
    ultimately show ?thesis by simp
  qed
  moreover have "hd (take 54 ?j @ ''-'' @ ?t) = hd ?j" using ne by (cases ?j) auto
  ultimately show ?thesis
    using False head t by (simp add: resource_name_def Let_def valid_segment_def)
qed

end
