(* ===== verification/PlanGraph.thy ===== *)
theory PlanGraph
  imports PlanModel
begin

text \<open>
  The dependency checks of \<open>apmpr-planner/src/lib.rs\<close>: \<open>validate_local_dependencies\<close> within a
  block and \<open>validate_expanded_dependencies\<close> between instances. Both walk a graph depth first with
  the nodes of the current path and the nodes already done; the walk is proved to find a cycle
  exactly when there is one.
\<close>

section \<open>The depth-first search\<close>

definition successors :: "(string, string list) btree \<Rightarrow> string \<Rightarrow> string list" where
  "successors graph node = (case bt_get graph node of None \<Rightarrow> [] | Some edges \<Rightarrow> edges)"

text \<open>
  \<open>nodes.any(|next| cyclic(next, graph, active, done))\<close>: whether a cycle is found, and the new
  \<open>done\<close>. A call of \<open>cyclic\<close> (or \<open>visit\<close>) on one node is the search on a list with one element;
  \<open>active\<close> is restored when it returns.
\<close>

function any_cyclic ::
  "(string, string list) btree \<Rightarrow> string set \<Rightarrow> string set \<Rightarrow> string list \<Rightarrow> bool \<times> string set" where
  "any_cyclic graph active visited [] = (False, visited)"
| "any_cyclic graph active visited (node # nodes) =
     (if node \<in> active then (True, visited)
      else if node \<in> visited then any_cyclic graph active visited nodes
      else case any_cyclic graph (insert node active) (insert node visited) (successors graph node) of
             (True, visited') \<Rightarrow> (True, visited')
           | (False, visited') \<Rightarrow> any_cyclic graph active visited' nodes)"
  by pat_completeness auto

lemma any_cyclic_grows:
  "any_cyclic_dom (graph, active, visited, nodes) \<Longrightarrow>
   visited \<subseteq> snd (any_cyclic graph active visited nodes)"
  by (induction graph active visited nodes rule: any_cyclic.pinduct)
    (auto simp: any_cyclic.psimps split: prod.splits bool.splits, blast)

definition unvisited :: "(string, string list) btree \<Rightarrow> string set \<Rightarrow> nat" where
  "unvisited graph visited = card (fst ` set graph - visited)"

lemma unvisited_mono: "visited \<subseteq> visited' \<Longrightarrow> unvisited graph visited' \<le> unvisited graph visited"
  unfolding unvisited_def by (intro card_mono) auto

lemma unvisited_insert:
  "node \<notin> visited \<Longrightarrow> bt_get graph node \<noteq> None \<Longrightarrow> unvisited graph (insert node visited) < unvisited graph visited"
  unfolding unvisited_def by (intro psubset_card_mono) (auto simp: map_of_eq_None_iff)

lemma inner_call_smaller:
  assumes "node \<notin> visited"
  shows "unvisited graph (insert node visited) < unvisited graph visited \<or>
     unvisited graph (insert node visited) \<le> unvisited graph visited \<and> successors graph node = []"
  using unvisited_insert [OF assms, of graph] unvisited_mono [of visited "insert node visited" graph]
  by (cases "bt_get graph node") (auto simp: successors_def)

termination any_cyclic
proof (relation "inv_image (less_than <*lex*> less_than)
    (\<lambda>(graph, active, visited, nodes). (unvisited graph visited, length nodes))", goal_cases)
  case (3 graph active visited node nodes)
  then show ?case using inner_call_smaller [of node visited graph] by auto
next
  case (4 graph active visited node nodes x y)
  then have "visited \<subseteq> y" using any_cyclic_grows [OF 4(5)] by (metis insert_subset snd_conv)
  then show ?case using unvisited_mono [of visited y graph] by auto
qed auto

lemma any_cyclic_mono: "visited \<subseteq> snd (any_cyclic graph active visited nodes)"
  by (induction graph active visited nodes rule: any_cyclic.induct)
    (auto split: prod.splits bool.splits, blast)

section \<open>The search is sound and complete\<close>

definition edges_of :: "(string, string list) btree \<Rightarrow> (string \<times> string) set" where
  "edges_of graph = {(a, b). b \<in> set (successors graph a)}"

lemma any_cyclic_sound:
  assumes "fst (any_cyclic graph active visited nodes)"
    and "\<forall>a\<in>active. \<forall>n\<in>set nodes. (a, n) \<in> (edges_of graph)\<^sup>+"
  shows "\<exists>n\<in>set nodes. \<exists>x. (n, x) \<in> (edges_of graph)\<^sup>* \<and> (x, x) \<in> (edges_of graph)\<^sup>+"
  using assms
proof (induction graph active visited nodes rule: any_cyclic.induct)
  case (1 graph active visited)
  then show ?case by simp
next
  case (2 graph active visited node nodes)
  let ?E = "edges_of graph"
  let ?inner = "any_cyclic graph (insert node active) (insert node visited) (successors graph node)"
  consider "node \<in> active" | "node \<notin> active" "node \<in> visited"
    | "node \<notin> active" "node \<notin> visited" "fst ?inner" | "node \<notin> active" "node \<notin> visited" "\<not> fst ?inner"
    by blast
  then show ?case
  proof cases
    case 1
    then have "(node, node) \<in> ?E\<^sup>+" using 2(5) by simp
    then show ?thesis by (intro bexI [of _ node] exI [of _ node]) auto
  next
    case C: 2
    have "fst (any_cyclic graph active visited nodes)" using 2(4) C by simp
    from 2(1) [OF C this] 2(5) show ?thesis by auto
  next
    case 3
    have edge: "(node, m) \<in> ?E" if "m \<in> set (successors graph node)" for m
      using that by (simp add: edges_of_def)
    have "\<forall>a\<in>insert node active. \<forall>n\<in>set (successors graph node). (a, n) \<in> ?E\<^sup>+"
      using 2(5) edge by (auto intro: trancl_into_trancl)
    from 2(2) [OF 3 this] obtain m x where "m \<in> set (successors graph node)" "(m, x) \<in> ?E\<^sup>*" "(x, x) \<in> ?E\<^sup>+"
      by blast
    then have "(node, x) \<in> ?E\<^sup>*" "(x, x) \<in> ?E\<^sup>+" by (auto intro: converse_rtrancl_into_rtrancl [OF edge])
    then show ?thesis by auto
  next
    case 4
    obtain visited' where inner: "?inner = (False, visited')" using 4(3) by (cases ?inner) auto
    then have "fst (any_cyclic graph active visited' nodes)" using 2(4) 4 by simp
    from 2(3) [OF 4(1,2) inner [symmetric] refl this] 2(5) show ?thesis by auto
  qed
qed

text \<open>Nodes that are done and not on the path: closed under edges and on no cycle.\<close>

definition explored :: "(string, string list) btree \<Rightarrow> string set \<Rightarrow> bool" where
  "explored graph black \<longleftrightarrow>
     (\<forall>b\<in>black. set (successors graph b) \<subseteq> black \<and> (b, b) \<notin> (edges_of graph)\<^sup>+)"

lemma closed_rtrancl:
  assumes "(a, b) \<in> (edges_of graph)\<^sup>*" and "a \<in> black"
    and "\<And>x. x \<in> black \<Longrightarrow> set (successors graph x) \<subseteq> black"
  shows "b \<in> black"
  using assms(1,2) by (induction rule: rtrancl_induct) (use assms(3) in \<open>auto simp: edges_of_def\<close>)

lemma explored_insert:
  assumes "explored graph black" and "set (successors graph node) \<subseteq> black" and "node \<notin> black"
  shows "explored graph (insert node black)"
proof -
  have "(node, node) \<notin> (edges_of graph)\<^sup>+"
  proof
    assume "(node, node) \<in> (edges_of graph)\<^sup>+"
    then obtain m where m: "(node, m) \<in> edges_of graph" "(m, node) \<in> (edges_of graph)\<^sup>*"
      by (meson tranclD)
    then have "m \<in> black" using assms(2) by (auto simp: edges_of_def)
    with m(2) have "node \<in> black" by (rule closed_rtrancl) (use assms(1) in \<open>simp add: explored_def\<close>)
    with assms(3) show False by simp
  qed
  then show ?thesis using assms by (auto simp: explored_def)
qed

lemma any_cyclic_complete:
  assumes "any_cyclic graph active visited nodes = (False, visited')"
    and "active \<subseteq> visited" and "explored graph (visited - active)"
  shows "explored graph (visited' - active) \<and> set nodes \<subseteq> visited' - active"
  using assms
proof (induction graph active visited nodes arbitrary: visited' rule: any_cyclic.induct)
  case (1 graph active visited)
  then show ?case by simp
next
  case (2 graph active visited node nodes)
  have active: "node \<notin> active" using 2(4) by (auto split: if_splits)
  show ?case
  proof (cases "node \<in> visited")
    case True
    have run: "any_cyclic graph active visited nodes = (False, visited')" using 2(4) active True by simp
    have "node \<in> visited'" using any_cyclic_mono [of visited graph active nodes] run True by auto
    then show ?thesis using 2(1) [OF active True run 2(5,6)] active by simp
  next
    case False
    obtain mid where inner: "any_cyclic graph (insert node active) (insert node visited) (successors graph node) = (False, mid)"
      and rest: "any_cyclic graph active mid nodes = (False, visited')"
      using 2(4) active False by (auto split: prod.splits bool.splits)
    have grows: "insert node visited \<subseteq> mid" "mid \<subseteq> visited'"
      using any_cyclic_mono [of "insert node visited" graph "insert node active" "successors graph node"] inner
        any_cyclic_mono [of mid graph active nodes] rest by auto
    have "insert node visited - insert node active = visited - active" using False active by auto
    then have "explored graph (mid - insert node active) \<and> set (successors graph node) \<subseteq> mid - insert node active"
      using 2(2) [OF active False inner] 2(5,6) by auto
    then have "explored graph (insert node (mid - insert node active))" by (intro explored_insert) auto
    moreover have "insert node (mid - insert node active) = mid - active" using grows active by auto
    ultimately have "explored graph (mid - active)" by simp
    then show ?thesis
      using 2(3) [OF active False inner [symmetric] refl rest] 2(5) grows active by auto
  qed
qed

text \<open>The loop over all nodes, each with an empty path and the shared \<open>done\<close>.\<close>

fun first_cyclic :: "(string, string list) btree \<Rightarrow> string set \<Rightarrow> string list \<Rightarrow> string option" where
  "first_cyclic graph visited [] = None"
| "first_cyclic graph visited (node # nodes) =
     (case any_cyclic graph {} visited [node] of
        (True, _) \<Rightarrow> Some node
      | (False, visited') \<Rightarrow> first_cyclic graph visited' nodes)"

lemma first_cyclic_Some:
  "first_cyclic graph visited nodes = Some node \<Longrightarrow>
   node \<in> set nodes \<and> (\<exists>x. (node, x) \<in> (edges_of graph)\<^sup>* \<and> (x, x) \<in> (edges_of graph)\<^sup>+)"
proof (induction graph visited nodes rule: first_cyclic.induct)
  case (2 graph visited n nodes)
  then show ?case
    using any_cyclic_sound [of graph "{}" visited "[n]"]
    by (auto split: prod.splits bool.splits)
qed simp

lemma first_cyclic_None:
  "first_cyclic graph visited nodes = None \<Longrightarrow> explored graph visited \<Longrightarrow>
   \<exists>black. explored graph black \<and> visited \<subseteq> black \<and> set nodes \<subseteq> black"
proof (induction graph visited nodes rule: first_cyclic.induct)
  case (2 graph visited n nodes)
  obtain mid where run: "any_cyclic graph {} visited [n] = (False, mid)" "first_cyclic graph mid nodes = None"
    using 2(2) by (auto split: prod.splits bool.splits)
  have "explored graph mid" "n \<in> mid" "visited \<subseteq> mid"
    using any_cyclic_complete [OF run(1)] any_cyclic_mono [of visited graph "{}" "[n]"] run(1) 2(3) by auto
  then show ?case using 2(1) [OF run(1) [symmetric] refl run(2)] by auto
qed auto

lemma edge_from_key: "(x, y) \<in> edges_of graph \<Longrightarrow> x \<in> fst ` set graph"
  by (cases "bt_get graph x") (auto simp: edges_of_def successors_def dest: map_of_SomeD intro: rev_image_eqI)

lemma first_cyclic_acyclic:
  "first_cyclic graph {} (map fst graph) = None \<longleftrightarrow> acyclic (edges_of graph)"
proof
  assume none: "first_cyclic graph {} (map fst graph) = None"
  have "explored graph {}" by (simp add: explored_def)
  from first_cyclic_None [OF none this] obtain black
    where black: "explored graph black" "fst ` set graph \<subseteq> black" by auto
  have "x \<in> black" if cyc: "(x, x) \<in> (edges_of graph)\<^sup>+" for x
    using tranclD [OF cyc] edge_from_key black(2) by blast
  then show "acyclic (edges_of graph)" using black(1) by (auto simp: acyclic_def explored_def)
next
  assume "acyclic (edges_of graph)"
  then show "first_cyclic graph {} (map fst graph) = None"
    using first_cyclic_Some [of graph "{}" "map fst graph"] by (cases "first_cyclic graph {} (map fst graph)") (auto simp: acyclic_def)
qed

section \<open>Dependencies within a block\<close>

definition local_references :: "plan_service \<Rightarrow> string list" where
  "local_references service = filter (\<lambda>d. CHR ''/'' \<notin> set d) (map fst (ps_depends_on service))"

definition local_graph :: "plan_block \<Rightarrow> (string, string list) btree" where
  "local_graph block =
     map (\<lambda>(name, service). (name, filter (\<lambda>d. bt_get (pb_services block) d \<noteq> None) (local_references service)))
       (pb_services block)"

definition dependency_path :: "string \<Rightarrow> string \<Rightarrow> string" where
  "dependency_path block_name name = ''spec.blocks.'' @ block_name @ ''.services.'' @ name @ ''.dependsOn''"

definition missing_local_errors :: "string \<Rightarrow> plan_block \<Rightarrow> string \<Rightarrow> plan_diagnostic list" where
  "missing_local_errors block_name block name =
     (case bt_get (pb_services block) name of
        None \<Rightarrow> []
      | Some service \<Rightarrow>
          map (\<lambda>d. plan_error DMissingReference (dependency_path block_name name) (''unknown local service '' @ d))
            (filter (\<lambda>d. bt_get (pb_services block) d = None) (local_references service)))"

fun local_dependency_loop ::
  "string \<Rightarrow> plan_block \<Rightarrow> string set \<Rightarrow> string list \<Rightarrow> plan_diagnostic list" where
  "local_dependency_loop block_name block visited [] = []"
| "local_dependency_loop block_name block visited (name # names) =
     (case any_cyclic (local_graph block) {} visited [name] of
        (True, _) \<Rightarrow>
          [plan_error DDependencyCycle (dependency_path block_name name) ''service dependency cycle detected'']
      | (False, visited') \<Rightarrow>
          missing_local_errors block_name block name @ local_dependency_loop block_name block visited' names)"

definition validate_local_dependencies :: "string \<Rightarrow> plan_block \<Rightarrow> plan_diagnostic list" where
  "validate_local_dependencies block_name block =
     local_dependency_loop block_name block {} (map fst (pb_services block))"

section \<open>Dependencies between instances\<close>

definition dependency_target :: "plan_instance \<Rightarrow> string \<Rightarrow> string" where
  "dependency_target i reference =
     (case split_once CHR ''/'' reference of
        None \<Rightarrow> pi_name i @ ''/'' @ reference
      | Some (target_instance, target_service) \<Rightarrow> target_instance @ ''/'' @ target_service)"

definition known_service :: "plan_bundle \<Rightarrow> (string, plan_instance) btree \<Rightarrow> string \<Rightarrow> string \<Rightarrow> bool" where
  "known_service b instances target_instance target_service =
     (case bt_get instances target_instance of
        None \<Rightarrow> False
      | Some candidate \<Rightarrow>
          \<not> is_external candidate \<and>
          (case bt_get (bundle_blocks b) (pi_block candidate) of
             None \<Rightarrow> False
           | Some block \<Rightarrow> bt_get (pb_services block) target_service \<noteq> None))"

text \<open>One dependency of a service: the edge it adds, or the error it pushes.\<close>

definition dependency_step ::
  "plan_bundle \<Rightarrow> (string, plan_instance) btree \<Rightarrow> plan_instance \<Rightarrow> string \<Rightarrow> string
     \<Rightarrow> string list \<times> plan_diagnostic list" where
  "dependency_step b instances i service_name reference =
     (let full = dependency_target i reference
      in case split_once CHR ''/'' full of
           None \<Rightarrow> ([], [])
         | Some (target_instance, target_service) \<Rightarrow>
             if known_service b instances target_instance target_service then ([full], [])
             else ([], [plan_error DMissingReference
                          (''spec.instances.'' @ pi_name i @ ''.services.'' @ service_name @ ''.dependsOn'')
                          (''unknown service dependency '' @ reference)]))"

definition expand_service ::
  "plan_bundle \<Rightarrow> (string, plan_instance) btree \<Rightarrow> plan_instance \<Rightarrow> string \<times> plan_service
     \<Rightarrow> (string, string list) btree \<times> plan_diagnostic list
     \<Rightarrow> (string, string list) btree \<times> plan_diagnostic list" where
  "expand_service b instances i = (\<lambda>(service_name, service) (graph, errors).
     (let node = pi_name i @ ''/'' @ service_name;
          steps = map (\<lambda>(reference, _). dependency_step b instances i service_name reference) (ps_depends_on service)
      in (bt_insert node (successors graph node @ concat (map fst steps)) graph,
          errors @ concat (map snd steps))))"

text \<open>\<open>bundle.spec.blocks[&instance.block]\<close> panics when the block is unknown: \<open>None\<close>.\<close>

definition expand_instance ::
  "plan_bundle \<Rightarrow> (string, plan_instance) btree \<Rightarrow> plan_instance
     \<Rightarrow> (string, string list) btree \<times> plan_diagnostic list
     \<Rightarrow> ((string, string list) btree \<times> plan_diagnostic list) option" where
  "expand_instance b instances i st =
     (if is_external i then Some st
      else map_option (\<lambda>block. fold (expand_service b instances i) (pb_services block) st)
             (bt_get (bundle_blocks b) (pi_block i)))"

definition validate_expanded_dependencies ::
  "plan_bundle \<Rightarrow> (string, plan_instance) btree \<Rightarrow> plan_diagnostic list option" where
  "validate_expanded_dependencies b instances =
     map_option (\<lambda>(graph, errors).
        errors @
        (case first_cyclic graph {} (map fst graph) of
           None \<Rightarrow> []
         | Some node \<Rightarrow> [plan_error DDependencyCycle (''spec.instances.'' @ node @ ''.dependsOn'')
                            ''expanded service dependency cycle detected'']))
       (fold_option (expand_instance b instances) (map snd instances) ([], []))"

section \<open>What the checks decide\<close>

lemma local_loop_Nil:
  "local_dependency_loop block_name block visited names = [] \<longleftrightarrow>
     first_cyclic (local_graph block) visited names = None \<and>
     (\<forall>name\<in>set names. missing_local_errors block_name block name = [])"
  by (induction names arbitrary: visited) (auto split: prod.splits bool.splits)

theorem local_dependencies_exact:
  "validate_local_dependencies block_name block = [] \<longleftrightarrow>
     acyclic (edges_of (local_graph block)) \<and>
     (\<forall>name service d. bt_get (pb_services block) name = Some service \<longrightarrow> d \<in> set (local_references service) \<longrightarrow>
        bt_get (pb_services block) d \<noteq> None)"
proof -
  have keys: "map fst (local_graph block) = map fst (pb_services block)"
    by (simp add: local_graph_def case_prod_unfold comp_def)
  have "missing_local_errors block_name block name = []" if "name \<notin> set (map fst (pb_services block))" for name
    using that by (simp add: missing_local_errors_def map_of_eq_None_iff [THEN iffD2])
  then have "(\<forall>name\<in>set (map fst (pb_services block)). missing_local_errors block_name block name = []) \<longleftrightarrow>
      (\<forall>name. missing_local_errors block_name block name = [])" by blast
  also have "\<dots> \<longleftrightarrow> (\<forall>name service d. bt_get (pb_services block) name = Some service \<longrightarrow>
      d \<in> set (local_references service) \<longrightarrow> bt_get (pb_services block) d \<noteq> None)"
    by (simp add: missing_local_errors_def filter_empty_conv split: option.split) blast
  finally show ?thesis
    unfolding validate_local_dependencies_def local_loop_Nil first_cyclic_acyclic [of "local_graph block", unfolded keys]
    by simp
qed

text \<open>The relation the graph stands for: services of managed instances and what they need.\<close>

definition managed_service ::
  "plan_bundle \<Rightarrow> (string, plan_instance) btree \<Rightarrow> plan_instance \<Rightarrow> string \<times> plan_service \<Rightarrow> bool" where
  "managed_service b instances i s \<longleftrightarrow>
     i \<in> snd ` set instances \<and> \<not> is_external i \<and>
     (\<exists>block. bt_get (bundle_blocks b) (pi_block i) = Some block \<and> s \<in> set (pb_services block))"

definition needed_service :: "string \<Rightarrow> string \<Rightarrow> string \<times> string" where
  "needed_service iname reference =
     (case split_once CHR ''/'' reference of None \<Rightarrow> (iname, reference) | Some (i, s) \<Rightarrow> (i, s))"

definition needs :: "plan_bundle \<Rightarrow> (string, plan_instance) btree \<Rightarrow> ((string \<times> string) \<times> (string \<times> string)) set" where
  "needs b instances =
     {((pi_name i, sname), needed_service (pi_name i) reference) | i sname service reference.
        managed_service b instances i (sname, service) \<and> reference \<in> fst ` set (ps_depends_on service)}"

definition service_node :: "string \<times> string \<Rightarrow> string" where
  "service_node = (\<lambda>(iname, sname). iname @ ''/'' @ sname)"

lemma service_node_split: "CHR ''/'' \<notin> set iname \<Longrightarrow> split_once CHR ''/'' (service_node (iname, sname)) = Some (iname, sname)"
  by (simp add: service_node_def split_once_append)

lemma needed_service_slash: "CHR ''/'' \<notin> set iname \<Longrightarrow> CHR ''/'' \<notin> set (fst (needed_service iname reference))"
  by (auto simp: needed_service_def dest!: split_once_Some split: option.splits)

lemma dependency_target_node: "dependency_target i reference = service_node (needed_service (pi_name i) reference)"
  by (auto simp: dependency_target_def needed_service_def service_node_def split: option.splits)

definition known_need :: "plan_bundle \<Rightarrow> (string, plan_instance) btree \<Rightarrow> (string \<times> string) \<Rightarrow> bool" where
  "known_need b instances = (\<lambda>(j, t). \<exists>i block service.
     bt_get instances j = Some i \<and> pi_external i = None \<and>
     bt_get (bundle_blocks b) (pi_block i) = Some block \<and> bt_get (pb_services block) t = Some service)"

lemma known_need_service: "known_need b instances n = known_service b instances (fst n) (snd n)"
  by (auto simp: known_need_def known_service_def is_external_def split: option.splits)

lemma dependency_step_result:
  assumes "CHR ''/'' \<notin> set (pi_name i)"
  shows "set (fst (dependency_step b instances i sname reference)) =
      (let t = needed_service (pi_name i) reference in if known_need b instances t then {service_node t} else {})"
    and "snd (dependency_step b instances i sname reference) = [] \<longleftrightarrow>
      known_need b instances (needed_service (pi_name i) reference)"
  using service_node_split [OF needed_service_slash [OF assms], of reference "snd (needed_service (pi_name i) reference)"]
  by (auto simp: dependency_step_def dependency_target_node Let_def known_need_service case_prod_unfold)

lemma successors_empty: "successors [] n = []"
  by (simp add: successors_def)

lemma successors_insert:
  "successors (bt_insert k es graph) n = (if n = k then es else successors graph n)"
  by (simp add: successors_def)

text \<open>The nested loops enter one list of nodes with their edges and errors.\<close>

definition add_node ::
  "string \<times> string list \<times> plan_diagnostic list \<Rightarrow> (string, string list) btree \<times> plan_diagnostic list
     \<Rightarrow> (string, string list) btree \<times> plan_diagnostic list" where
  "add_node = (\<lambda>(node, edges, errs) (graph, errors). (bt_insert node (successors graph node @ edges) graph, errors @ errs))"

lemma add_node_simps:
  "set (successors (fst (add_node e st)) n) =
     set (successors (fst st) n) \<union> (if fst e = n then set (fst (snd e)) else {})"
  "snd (add_node e st) = snd st @ snd (snd e)"
  by (auto simp: add_node_def successors_insert case_prod_unfold)

lemma fold_add_node:
  "set (successors (fst (fold add_node entries st)) n) =
     set (successors (fst st) n) \<union> (\<Union>e\<in>{e \<in> set entries. fst e = n}. set (fst (snd e)))"
  "snd (fold add_node entries st) = snd st @ concat (map (snd \<circ> snd) entries)"
  by (induction entries arbitrary: st) (auto simp: add_node_simps split: if_splits)

definition service_entry ::
  "plan_bundle \<Rightarrow> (string, plan_instance) btree \<Rightarrow> plan_instance \<Rightarrow> string \<times> plan_service
     \<Rightarrow> string \<times> string list \<times> plan_diagnostic list" where
  "service_entry b instances i = (\<lambda>(sname, service).
     (let steps = map (\<lambda>(reference, _). dependency_step b instances i sname reference) (ps_depends_on service)
      in (service_node (pi_name i, sname), concat (map fst steps), concat (map snd steps))))"

definition instance_entries ::
  "plan_bundle \<Rightarrow> (string, plan_instance) btree \<Rightarrow> plan_instance
     \<Rightarrow> (string \<times> string list \<times> plan_diagnostic list) list" where
  "instance_entries b instances i =
     (if is_external i then []
      else case bt_get (bundle_blocks b) (pi_block i) of
             None \<Rightarrow> []
           | Some block \<Rightarrow> map (service_entry b instances i) (pb_services block))"

lemma expand_service_entry: "expand_service b instances i = (\<lambda>s. add_node (service_entry b instances i s))"
  by (rule ext)+ (auto simp: expand_service_def service_entry_def add_node_def service_node_def Let_def)

lemma expand_instance_entries:
  "is_external i \<or> bt_get (bundle_blocks b) (pi_block i) \<noteq> None \<Longrightarrow>
   expand_instance b instances i st = Some (fold add_node (instance_entries b instances i) st)"
  by (auto simp: expand_instance_def instance_entries_def fold_map comp_def expand_service_entry)

lemma fold_option_None: "x \<in> set xs \<Longrightarrow> (\<And>s. f x s = None) \<Longrightarrow> fold_option f xs s = None"
  by (induction xs arbitrary: s) (auto split: option.splits)

definition blocks_known :: "plan_bundle \<Rightarrow> (string, plan_instance) btree \<Rightarrow> bool" where
  "blocks_known b instances \<longleftrightarrow>
     (\<forall>i\<in>snd ` set instances. is_external i \<or> bt_get (bundle_blocks b) (pi_block i) \<noteq> None)"

definition all_entries ::
  "plan_bundle \<Rightarrow> (string, plan_instance) btree \<Rightarrow> (string \<times> string list \<times> plan_diagnostic list) list" where
  "all_entries b instances = concat (map (instance_entries b instances) (map snd instances))"

lemma expand_instances:
  assumes "blocks_known b instances"
  shows "fold_option (expand_instance b instances) (map snd instances) st =
     Some (fold add_node (all_entries b instances) st)"
proof -
  have "fold_option (expand_instance b instances) (map snd instances) st =
      Some (fold (\<lambda>i. fold add_node (instance_entries b instances i)) (map snd instances) st)"
    by (rule fold_option_total, rule expand_instance_entries) (use assms in \<open>auto simp: blocks_known_def\<close>)
  then show ?thesis by (simp add: fold_fold_concat all_entries_def)
qed

lemma expanded_panics: "validate_expanded_dependencies b instances = None \<longleftrightarrow> \<not> blocks_known b instances"
proof
  assume "\<not> blocks_known b instances"
  then obtain i where "i \<in> set (map snd instances)" "\<not> is_external i" "bt_get (bundle_blocks b) (pi_block i) = None"
    by (auto simp: blocks_known_def)
  then show "validate_expanded_dependencies b instances = None"
    using fold_option_None [of i "map snd instances" "expand_instance b instances"]
    by (simp add: validate_expanded_dependencies_def expand_instance_def)
next
  assume "validate_expanded_dependencies b instances = None"
  then show "\<not> blocks_known b instances"
    using expand_instances [of b instances "([], [])"] by (auto simp: validate_expanded_dependencies_def)
qed

lemma set_all_entries:
  "set (all_entries b instances) = (\<lambda>(i, s). service_entry b instances i s) ` {(i, s). managed_service b instances i s}"
proof (rule set_eqI)
  fix e
  have "e \<in> set (instance_entries b instances i) \<longleftrightarrow>
      \<not> is_external i \<and> (\<exists>block s. bt_get (bundle_blocks b) (pi_block i) = Some block \<and>
        s \<in> set (pb_services block) \<and> e = service_entry b instances i s)" for i
    by (cases "bt_get (bundle_blocks b) (pi_block i)") (auto simp: instance_entries_def)
  then have "e \<in> set (all_entries b instances) \<longleftrightarrow>
      (\<exists>i s. managed_service b instances i s \<and> e = service_entry b instances i s)"
    by (auto simp: managed_service_def all_entries_def)
  then show "e \<in> set (all_entries b instances) \<longleftrightarrow>
      e \<in> (\<lambda>(i, s). service_entry b instances i s) ` {(i, s). managed_service b instances i s}" by auto
qed

lemma service_entry_result:
  assumes "CHR ''/'' \<notin> set (pi_name i)"
  shows "set (fst (snd (service_entry b instances i (sname, service)))) =
      service_node ` {t \<in> needed_service (pi_name i) ` fst ` set (ps_depends_on service). known_need b instances t}"
    and "snd (snd (service_entry b instances i (sname, service))) = [] \<longleftrightarrow>
      (\<forall>t \<in> needed_service (pi_name i) ` fst ` set (ps_depends_on service). known_need b instances t)"
    and "fst (service_entry b instances i (sname, service)) = service_node (pi_name i, sname)"
  by (auto simp: service_entry_def Let_def case_prod_unfold dependency_step_result [OF assms] split: if_splits)

definition slash_free :: "(string, plan_instance) btree \<Rightarrow> bool" where
  "slash_free instances \<longleftrightarrow> (\<forall>i\<in>snd ` set instances. CHR ''/'' \<notin> set (pi_name i))"

definition expanded_graph ::
  "plan_bundle \<Rightarrow> (string, plan_instance) btree \<Rightarrow> (string, string list) btree \<times> plan_diagnostic list" where
  "expanded_graph b instances =
     fold add_node (all_entries b instances) ([], [])"

lemma slash_free_managed:
  "slash_free instances \<Longrightarrow> managed_service b instances i s \<Longrightarrow> CHR ''/'' \<notin> set (pi_name i)"
  by (auto simp: managed_service_def slash_free_def)

lemma expanded_errors:
  assumes "slash_free instances"
  shows "snd (expanded_graph b instances) = [] \<longleftrightarrow> (\<forall>t\<in>Range (needs b instances). known_need b instances t)"
proof -
  have "snd (expanded_graph b instances) = [] \<longleftrightarrow>
      (\<forall>i s. managed_service b instances i s \<longrightarrow> snd (snd (service_entry b instances i s)) = [])"
    by (auto simp: expanded_graph_def fold_add_node(2) set_all_entries)
  also have "\<dots> \<longleftrightarrow> (\<forall>i sname service. managed_service b instances i (sname, service) \<longrightarrow>
      (\<forall>t \<in> needed_service (pi_name i) ` fst ` set (ps_depends_on service). known_need b instances t))"
    using service_entry_result(2) [OF slash_free_managed [OF assms]] by (metis surj_pair)
  also have "\<dots> \<longleftrightarrow> (\<forall>t\<in>Range (needs b instances). known_need b instances t)"
    unfolding needs_def by blast
  finally show ?thesis .
qed

lemma in_map_prod: "(n, x) \<in> map_prod f g ` r \<longleftrightarrow> (\<exists>u t. (u, t) \<in> r \<and> f u = n \<and> x = g t)"
  by (auto intro: rev_image_eqI)

lemma expanded_edges:
  assumes "slash_free instances" and "snd (expanded_graph b instances) = []"
  shows "edges_of (fst (expanded_graph b instances)) = map_prod service_node service_node ` needs b instances"
proof (rule set_eqI)
  fix e :: "string \<times> string"
  obtain n x where e: "e = (n, x)" by fastforce
  have known: "known_need b instances t" if "(u, t) \<in> needs b instances" for u t
    using expanded_errors [OF assms(1), of b] assms(2) that by (auto intro: RangeI)
  have "e \<in> edges_of (fst (expanded_graph b instances)) \<longleftrightarrow>
      (\<exists>i sname service. managed_service b instances i (sname, service) \<and>
         fst (service_entry b instances i (sname, service)) = n \<and>
         x \<in> set (fst (snd (service_entry b instances i (sname, service)))))"
    by (auto simp: e edges_of_def expanded_graph_def fold_add_node(1) set_all_entries successors_empty)
  also have "\<dots> \<longleftrightarrow> (\<exists>i sname service. managed_service b instances i (sname, service) \<and> service_node (pi_name i, sname) = n \<and>
      (\<exists>reference \<in> fst ` set (ps_depends_on service). known_need b instances (needed_service (pi_name i) reference) \<and>
         x = service_node (needed_service (pi_name i) reference)))"
    using service_entry_result(1,3) [OF slash_free_managed [OF assms(1)]] by (smt (verit) image_iff mem_Collect_eq)
  also have "\<dots> \<longleftrightarrow> (\<exists>u t. (u, t) \<in> needs b instances \<and> known_need b instances t \<and> service_node u = n \<and> x = service_node t)"
    unfolding needs_def by blast
  also have "\<dots> \<longleftrightarrow> e \<in> map_prod service_node service_node ` needs b instances"
    unfolding e in_map_prod using known by blast
  finally show "e \<in> edges_of (fst (expanded_graph b instances)) \<longleftrightarrow>
      e \<in> map_prod service_node service_node ` needs b instances" .
qed

text \<open>A renaming of nodes that keeps them apart neither makes nor breaks a cycle.\<close>

lemma trancl_map_prod:
  assumes "inj_on f (Field r)" and "(u, v) \<in> (map_prod f f ` r)\<^sup>+"
  shows "\<exists>x y. u = f x \<and> v = f y \<and> (x, y) \<in> r\<^sup>+ \<and> x \<in> Field r \<and> y \<in> Field r"
  using assms(2)
proof (induction rule: trancl_induct)
  case (base v)
  then obtain x y where "u = f x" "v = f y" "(x, y) \<in> r" by auto
  then show ?case by (intro exI [of _ x] exI [of _ y]) (auto intro: FieldI1 FieldI2)
next
  case (step v w)
  then obtain x y where xy: "u = f x" "v = f y" "(x, y) \<in> r\<^sup>+" "x \<in> Field r" "y \<in> Field r" by blast
  from step.hyps(2) obtain y' z where z: "v = f y'" "w = f z" "(y', z) \<in> r" by auto
  then have "y' = y" using assms(1) xy by (metis FieldI1 inj_onD)
  then show ?case using xy z by (metis FieldI2 trancl.trancl_into_trancl)
qed

lemma acyclic_map_prod:
  assumes "inj_on f (Field r)"
  shows "acyclic (map_prod f f ` r) \<longleftrightarrow> acyclic r"
proof
  assume ac: "acyclic (map_prod f f ` r)"
  have "(f x, f y) \<in> (map_prod f f ` r)\<^sup>+" if "(x, y) \<in> r\<^sup>+" for x y
    using that by (induction rule: trancl_induct) (auto intro: trancl_into_trancl)
  then show "acyclic r" using ac by (auto simp: acyclic_def)
next
  assume ac: "acyclic r"
  show "acyclic (map_prod f f ` r)"
  proof (rule acyclicI, rule allI, rule notI)
    fix u assume "(u, u) \<in> (map_prod f f ` r)\<^sup>+"
    from trancl_map_prod [OF assms this] obtain x y
      where "u = f x" "u = f y" "(x, y) \<in> r\<^sup>+" "x \<in> Field r" "y \<in> Field r" by blast
    then show False using assms ac by (metis acyclic_def inj_onD)
  qed
qed

lemma needs_slash_free:
  assumes "slash_free instances" and "u \<in> Field (needs b instances)"
  shows "CHR ''/'' \<notin> set (fst u)"
proof -
  obtain v where "(u, v) \<in> needs b instances \<or> (v, u) \<in> needs b instances"
    using assms(2) by (auto simp: Field_def)
  then obtain i s reference where m: "managed_service b instances i s"
    and "u = (pi_name i, fst s) \<or> u = needed_service (pi_name i) reference"
    by (auto simp: needs_def)
  then show ?thesis using slash_free_managed [OF assms(1) m] needed_service_slash by auto
qed

lemma service_node_inj: "slash_free instances \<Longrightarrow> inj_on service_node (Field (needs b instances))"
  by (rule inj_onI) (metis needs_slash_free option.inject prod.collapse service_node_split)

text \<open>The instance map of a bundle.\<close>

lemma snd_bt_insert: "snd ` set (bt_insert k v m) \<subseteq> insert v (snd ` set m)"
  by (auto simp: bt_insert_def)

lemma snd_fold_bt_insert: "snd ` set (fold (\<lambda>x. bt_insert (key x) x) xs m) \<subseteq> set xs \<union> snd ` set m"
proof (induction xs arbitrary: m)
  case (Cons x xs)
  show ?case using Cons.IH [of "bt_insert (key x) x m"] snd_bt_insert [of "key x" x m] by auto
qed simp

lemma bundle_instances_values: "snd ` set (bundle_instances b) \<subseteq> set (dp_instances (bn_spec b))"
  using snd_fold_bt_insert [of pi_name "dp_instances (bn_spec b)" "[]"]
  by (simp add: bundle_instances_def bt_index_def)

text \<open>What the loop over the instances in \<open>validate\<close> has checked.\<close>

definition instances_checked :: "plan_bundle \<Rightarrow> bool" where
  "instances_checked b \<longleftrightarrow>
     list_all (\<lambda>i. valid_name (pi_name i) \<and> (is_external i \<or> bt_get (bundle_blocks b) (pi_block i) \<noteq> None))
       (dp_instances (bn_spec b))"

text \<open>
  C38. The planner's check of service dependencies is exact: for instances with valid names and
  known blocks it reports nothing if and only if every dependency of every service of a managed
  instance, local or \<open>instance/service\<close>, names a service of a managed instance, and the
  dependencies among all of them have no cycle. It panics if and only if a managed instance names
  an unknown block: \<open>validate\<close> has then pushed its diagnostic \<open>unknown block\<close>, but goes on to this
  check, which indexes the map of blocks with the unknown name.
\<close>

theorem dependencies_checked_exactly:
  "(instances_checked b \<longrightarrow>
     (validate_expanded_dependencies b (bundle_instances b) = Some [] \<longleftrightarrow>
        (\<forall>t\<in>Range (needs b (bundle_instances b)). known_need b (bundle_instances b) t) \<and>
        acyclic (needs b (bundle_instances b)))) \<and>
   (validate_expanded_dependencies b (bundle_instances b) = None \<longleftrightarrow>
     (\<exists>i. i \<in> snd ` set (bundle_instances b) \<and> pi_external i = None \<and>
        bt_get (bundle_blocks b) (pi_block i) = None))"
proof (intro conjI impI)
  show "validate_expanded_dependencies b (bundle_instances b) = None \<longleftrightarrow>
     (\<exists>i. i \<in> snd ` set (bundle_instances b) \<and> pi_external i = None \<and>
        bt_get (bundle_blocks b) (pi_block i) = None)"
    unfolding expanded_panics blocks_known_def is_external_def by auto
next
  let ?is = "bundle_instances b"
  assume assms: "instances_checked b"
  have slash: "slash_free ?is" and known: "blocks_known b ?is"
    using assms bundle_instances_values [of b] valid_name_no_slash
    unfolding slash_free_def blocks_known_def instances_checked_def list_all_iff by blast+
  have "validate_expanded_dependencies b ?is = Some [] \<longleftrightarrow>
      snd (expanded_graph b ?is) = [] \<and> acyclic (edges_of (fst (expanded_graph b ?is)))"
    unfolding validate_expanded_dependencies_def expand_instances [OF known] first_cyclic_acyclic [symmetric]
      expanded_graph_def [symmetric]
    by (simp add: case_prod_unfold split: option.splits)
  then show "validate_expanded_dependencies b ?is = Some [] \<longleftrightarrow>
      (\<forall>t\<in>Range (needs b ?is). known_need b ?is t) \<and> acyclic (needs b ?is)"
    using expanded_errors [OF slash] expanded_edges [OF slash] acyclic_map_prod [OF service_node_inj [OF slash]]
    by metis
qed

text \<open>A bundle with two instances of one block; \<open>deps\<close> are the dependencies of its service \<open>web\<close>.\<close>

definition sample_service :: "string list \<Rightarrow> plan_service" where
  "sample_service deps =
     \<lparr>ps_execution = ProcessComposeExecution ''image'' ''pc.yaml'' None ''/workspace'' False [], ps_publish = [],
      ps_volumes = [], ps_depends_on = map (\<lambda>d. (d, DepHealthy)) deps, ps_probe = None\<rparr>"

definition sample_instance :: "string \<Rightarrow> string \<Rightarrow> plan_instance" where
  "sample_instance name block =
     \<lparr>pi_name = name, pi_block = block, pi_source = ''src'', pi_external = None, pi_ports = [], pi_probe = None,
      pi_device = None, pi_address = None, pi_parameters = [], pi_labels = [], pi_environment = [],
      pi_environment_unset = []\<rparr>"

definition sample_bundle :: "string list \<Rightarrow> string \<Rightarrow> plan_bundle" where
  "sample_bundle deps block =
     \<lparr>bn_api_version = PLANNER_API_VERSION, bn_kind = PLANNER_KIND,
      bn_metadata = \<lparr>pm_name = ''shop'', pm_labels = []\<rparr>,
      bn_spec =
        \<lparr>dp_overlays = [], dp_resolved_overlay_files = [], dp_repositories = [], dp_sources = [],
         dp_blocks = [(''app'', \<lparr>pb_parameters = [],
           pb_services = [(''db'', sample_service []), (''web'', sample_service deps)]\<rparr>)],
         dp_instances = [sample_instance ''blue'' ''app'', sample_instance ''green'' block],
         dp_groups = [(''dev'', \<lparr>pg_instances = [''blue'', ''green/web''], pg_disabled = [''blue''], pg_address = None\<rparr>),
                      (''qa'', \<lparr>pg_instances = [], pg_disabled = [], pg_address = None\<rparr>)],
         dp_managed_profiles = [], dp_host_router = None, dp_host_upstreams = [], dp_router_image = ''router''\<rparr>,
      bn_definition_dir = ''/p'', bn_workspace_root = ''/p''\<rparr>"

definition chained_bundle :: plan_bundle where
  "chained_bundle = sample_bundle [''db'', ''blue/db''] ''app''"

definition looped_bundle :: plan_bundle where
  "looped_bundle = sample_bundle [''blue/web''] ''app''"

lemma sample_bundles_checked: "instances_checked chained_bundle" "instances_checked looped_bundle"
  by code_simp+

definition unknown_block_bundle :: plan_bundle where
  "unknown_block_bundle = sample_bundle [] ''missing''"

theorem dependencies_checked_exactly_witness:
  "acyclic (needs chained_bundle (bundle_instances chained_bundle)) \<and>
   \<not> ((\<forall>t\<in>Range (needs looped_bundle (bundle_instances looped_bundle)).
         known_need looped_bundle (bundle_instances looped_bundle) t) \<and>
       acyclic (needs looped_bundle (bundle_instances looped_bundle))) \<and>
   validate_expanded_dependencies unknown_block_bundle (bundle_instances unknown_block_bundle) = None"
proof -
  have "validate_expanded_dependencies chained_bundle (bundle_instances chained_bundle) = Some []" by code_simp
  moreover have "validate_expanded_dependencies looped_bundle (bundle_instances looped_bundle) \<noteq> Some []" by code_simp
  moreover have "list_ex (\<lambda>i. pi_external i = None \<and> bt_get (bundle_blocks unknown_block_bundle) (pi_block i) = None)
      (map snd (bundle_instances unknown_block_bundle))" by code_simp
  then have "\<exists>i. i \<in> snd ` set (bundle_instances unknown_block_bundle) \<and> pi_external i = None \<and>
      bt_get (bundle_blocks unknown_block_bundle) (pi_block i) = None"
    unfolding list_ex_iff set_map by blast
  ultimately show ?thesis
    using dependencies_checked_exactly [of chained_bundle] dependencies_checked_exactly [of looped_bundle]
      dependencies_checked_exactly [of unknown_block_bundle] sample_bundles_checked by blast
qed

end
