(* ===== verification/PlanGroups.thy ===== *)
theory PlanGroups
  imports PlanGraph
begin

text \<open>
  Service groups in \<open>apmpr-planner/src/lib.rs\<close>: how \<open>resolve_groups\<close> checks and resolves their
  members, how a membership move rewrites them, and the router configuration of a sidecar that
  forwards to the members of its group.
\<close>

section \<open>Resolving groups\<close>

record resolved_groups =
  rg_members :: "(string, string list) btree"
  rg_declared :: "(string, string list) btree"

text \<open>The members kept so far, the members seen in this group, and where every instance is.\<close>

type_synonym member_state = "string list \<times> string set \<times> (string, string \<times> nat) btree"

definition claim_member ::
  "string \<Rightarrow> nat \<Rightarrow> string \<Rightarrow> string \<Rightarrow> string \<Rightarrow> string \<Rightarrow> member_state \<Rightarrow> member_state \<times> plan_diagnostic list" where
  "claim_member gname index path member iname advice = (\<lambda>(valid_members, seen, instance_groups).
     (if member \<in> seen
      then ((valid_members, seen, instance_groups),
            [plan_error DDuplicateName path (''group member `'' @ member @ ''` is listed more than once'')])
      else
        (let seen = insert member seen;
             claimed = bt_insert iname (gname, index) instance_groups
         in case bt_get instance_groups iname of
              Some (first_group, first_index) \<Rightarrow>
                ((valid_members, seen, claimed),
                 [plan_error DDuplicateName path
                    (''instance `'' @ iname @ ''` belongs to both group `'' @ first_group @ ''` (spec.groups.'' @
                     first_group @ ''.instances['' @ nat_to_string first_index @ '']) and group `'' @ gname @
                     ''`; '' @ advice)])
            | None \<Rightarrow> ((valid_members @ [member], seen, claimed), []))))"

definition group_member_step ::
  "plan_bundle \<Rightarrow> (string, plan_instance) btree \<Rightarrow> string \<Rightarrow> nat \<Rightarrow> string \<Rightarrow> member_state
     \<Rightarrow> member_state \<times> plan_diagnostic list" where
  "group_member_step b instances gname index member st =
     (let path = indexed (''spec.groups.'' @ gname @ ''.instances'') index;
          (iname, requested_service) = provider_reference member
      in case bt_get instances iname of
           None \<Rightarrow>
             (st, [plan_error DMissingReference path (''group member `'' @ member @ ''` does not exist'')])
         | Some i \<Rightarrow>
             if is_external i
             then if requested_service \<noteq> None
                  then (st, [plan_error DMissingReference path
                          (''external group member `'' @ iname @ ''` must not name a service'')])
                  else claim_member gname index path member iname
                         ''create a separate external instance for each group'' st
             else case bt_get (bundle_blocks b) (pi_block i) of
                    None \<Rightarrow> (st, [])
                  | Some block \<Rightarrow>
                      if (case requested_service of None \<Rightarrow> False
                          | Some s \<Rightarrow> bt_get (pb_services block) s = None)
                      then (st, [plan_error DMissingReference path
                              (''`'' @ member @ ''` does not name a service on group member `'' @ iname @ ''`'')])
                      else claim_member gname index path member iname
                             ''create a separate instance to reuse the same source or block'' st)"

definition disabled_step ::
  "string \<Rightarrow> string list \<Rightarrow> nat \<Rightarrow> string \<Rightarrow> string set \<Rightarrow> string set \<times> plan_diagnostic list" where
  "disabled_step gname resolved_names index iname disabled =
     (let path = indexed (''spec.groups.'' @ gname @ ''.disabled'') index
      in (insert iname disabled,
          validate_name iname path
          @ (if iname \<in> set resolved_names then []
             else [plan_error DMissingReference path
                     (''disabled instance `'' @ iname @ ''` is not a resolved member of group `'' @ gname @ ''`'')])
          @ (if iname \<in> disabled
             then [plan_error DDuplicateName path
                     (''disabled instance `'' @ iname @ ''` is listed more than once'')]
             else [])))"

definition group_loop ::
  "plan_bundle \<Rightarrow> (string, plan_instance) btree \<Rightarrow> nat \<Rightarrow> string \<times> plan_group
     \<Rightarrow> resolved_groups \<times> (string, string \<times> nat) btree
     \<Rightarrow> (resolved_groups \<times> (string, string \<times> nat) btree) \<times> plan_diagnostic list" where
  "group_loop b instances _ = (\<lambda>(gname, g) (groups, instance_groups).
     (let ((valid_members, _, instance_groups), member_errors) =
            for_each (group_member_step b instances gname) 0 (pg_instances g) ([], {}, instance_groups);
          (disabled, disabled_errors) =
            for_each (disabled_step gname (map reference_instance valid_members)) 0 (pg_disabled g) {};
          active_members = filter (\<lambda>m. reference_instance m \<notin> disabled) valid_members
      in ((\<lparr>rg_members = bt_insert gname active_members (rg_members groups),
             rg_declared = bt_insert gname valid_members (rg_declared groups)\<rparr>, instance_groups),
          validate_name gname (''spec.groups.'' @ gname) @ member_errors @ disabled_errors)))"

definition resolve_groups ::
  "plan_bundle \<Rightarrow> (string, plan_instance) btree \<Rightarrow> resolved_groups \<times> plan_diagnostic list" where
  "resolve_groups b instances =
     (let ((groups, _), errors) =
            for_each (group_loop b instances) 0 (bundle_groups b)
              (\<lparr>rg_members = [], rg_declared = []\<rparr>, [])
      in (groups, errors))"

section \<open>Moving an instance\<close>

definition moved_member :: "string \<Rightarrow> (string, plan_group) btree \<Rightarrow> string option" where
  "moved_member iname groups =
     find (\<lambda>m. reference_instance m = iname) (concat (map (pg_instances \<circ> snd) groups))"

definition without_instance :: "string \<Rightarrow> plan_group \<Rightarrow> plan_group" where
  "without_instance iname g =
     g\<lparr>pg_instances := filter (\<lambda>m. reference_instance m \<noteq> iname) (pg_instances g),
       pg_disabled := filter (\<lambda>m. m \<noteq> iname) (pg_disabled g)\<rparr>"

definition moved_reference :: "string \<Rightarrow> (string, plan_group) btree \<Rightarrow> string" where
  "moved_reference iname groups = (case moved_member iname groups of None \<Rightarrow> iname | Some m \<Rightarrow> m)"

definition moved_group :: "string \<Rightarrow> string \<Rightarrow> string \<Rightarrow> string \<times> plan_group \<Rightarrow> string \<times> plan_group" where
  "moved_group iname destination member = (\<lambda>(name, g).
     (let g = without_instance iname g
      in (name, if name = destination then g\<lparr>pg_instances := pg_instances g @ [member]\<rparr> else g)))"

definition moved_groups :: "string \<Rightarrow> string \<Rightarrow> (string, plan_group) btree \<Rightarrow> (string, plan_group) btree" where
  "moved_groups iname destination groups =
     map (moved_group iname destination (moved_reference iname groups)) groups"

definition move_instance_to_group :: "plan_bundle \<Rightarrow> string \<Rightarrow> string \<Rightarrow> plan_bundle" where
  "move_instance_to_group b iname destination =
     b\<lparr>bn_spec := (bn_spec b)\<lparr>dp_groups := moved_groups iname destination (bundle_groups b)\<rparr>\<rparr>"

text \<open>\<open>plan_with_membership\<close>; the plan of the moved bundle is a parameter.\<close>

definition plan_with_membership ::
  "(plan_bundle \<Rightarrow> plan_diagnostic list + 'p) \<Rightarrow> plan_bundle \<Rightarrow> string \<Rightarrow> string \<Rightarrow> plan_diagnostic list + 'p" where
  "plan_with_membership plan b iname gname =
     (let errors =
        (if iname \<in> pi_name ` set (dp_instances (bn_spec b)) then []
         else [plan_error DMissingReference ''spec.instances'' (''instance `'' @ iname @ ''` does not exist'')])
        @ (if bt_get (bundle_groups b) gname \<noteq> None then []
           else [plan_error DMissingReference ''spec.groups'' (''group `'' @ gname @ ''` does not exist'')])
      in if errors \<noteq> [] then Inl errors else plan (move_instance_to_group b iname gname))"

section \<open>The configuration of a sidecar\<close>

definition selected_group_for_instance :: "resolved_groups \<Rightarrow> string \<Rightarrow> string option" where
  "selected_group_for_instance groups iname =
     (case filter (\<lambda>(_, members). list_ex (\<lambda>m. reference_instance m = iname) members) (rg_members groups) of
        [(gname, _)] \<Rightarrow> Some gname
      | _ \<Rightarrow> None)"

record planning_device =
  pv_user :: string
  pv_host :: string
  pv_port :: u16
  pv_identity_file :: "string option"

definition service_host ::
  "(string \<Rightarrow> string) \<Rightarrow> (string, planning_device) btree \<Rightarrow> string \<Rightarrow> plan_instance \<Rightarrow> string \<Rightarrow> string \<Rightarrow> string" where
  "service_host digest devices deployment i iname service =
     (case Option.bind (pi_device i) (\<lambda>d. if d \<noteq> ''local'' then bt_get devices d else None) of
        None \<Rightarrow> service_name_for digest deployment iname service
      | Some device \<Rightarrow> pv_host device)"

definition members_of_reference ::
  "(string \<Rightarrow> string) \<Rightarrow> plan_bundle \<Rightarrow> (string, plan_instance) btree \<Rightarrow> (string, planning_device) btree \<Rightarrow> string
     \<Rightarrow> transparent_member list" where
  "members_of_reference digest b instances devices member =
     (let (iname, requested_service) = provider_reference member
      in case bt_get instances iname of
           None \<Rightarrow> []
         | Some i \<Rightarrow>
             (case pi_external i of
                Some host \<Rightarrow>
                  [\<lparr>member_component = iname, member_host = host, member_ports = Some (expanded_external_ports i)\<rparr>]
              | None \<Rightarrow>
                  (case bt_get (bundle_blocks b) (pi_block i) of
                     None \<Rightarrow> []
                   | Some block \<Rightarrow>
                       map (\<lambda>service. \<lparr>member_component = iname @ ''/'' @ service,
                              member_host = service_host digest devices (pm_name (bn_metadata b)) i iname service,
                              member_ports = None\<rparr>)
                         (filter (\<lambda>service. requested_service \<in> {None, Some service}) (map fst (pb_services block))))))"

definition transparent_members ::
  "(string \<Rightarrow> string) \<Rightarrow> plan_bundle \<Rightarrow> (string, plan_instance) btree \<Rightarrow> resolved_groups \<Rightarrow> string
     \<Rightarrow> (string, planning_device) btree \<Rightarrow> transparent_member list" where
  "transparent_members digest b instances groups gname devices =
     concat (map (members_of_reference digest b instances devices)
       (case bt_get (rg_members groups) gname of None \<Rightarrow> [] | Some members \<Rightarrow> members))"

definition TRANSPARENT_INTERCEPTION_PORT :: u16 where
  "TRANSPARENT_INTERCEPTION_PORT = 65535"

definition close_everything :: connection_transition_policies where
  "close_everything = \<lparr>tp_http = Close, tp_https = Close, tp_websocket = Close, tp_grpc = Close, tp_tcp = Close\<rparr>"

text \<open>
  \<open>router_config\<close>: the value it builds, as the record it deserializes to; fields that are
  absent have their defaults.
\<close>

definition sidecar_config ::
  "(string \<Rightarrow> string) \<Rightarrow> plan_bundle \<Rightarrow> (string, plan_instance) btree \<Rightarrow> plan_instance \<Rightarrow> bool \<Rightarrow> string option
     \<Rightarrow> resolved_groups \<Rightarrow> (string, planning_device) btree \<Rightarrow> router_config" where
  "sidecar_config digest b instances consumer enabled gname groups devices =
     \<lparr>api_version = ''apmpr.dev/router/v1alpha1'', config_kind = ''RouterConfiguration'',
      metadata_deployment = pm_name (bn_metadata b),
      config_spec =
        \<lparr>spec_snapshot =
           \<lparr>snapshot_id = resource_name digest [pm_name (bn_metadata b), pi_name consumer, ''initial''],
            snapshot_version = 1, snapshot_transitions = close_everything\<rparr>,
         spec_exposure = None, spec_listeners = [], spec_providers = [], spec_groups = [], spec_bindings = [],
         spec_routes = [], spec_browser_routes = [],
         spec_transparent_proxy =
           (if enabled
            then Some \<lparr>tproxy_consumer = pi_name consumer, tproxy_port = TRANSPARENT_INTERCEPTION_PORT,
                       tproxy_members = (case gname of
                          None \<Rightarrow> []
                        | Some g \<Rightarrow> transparent_members digest b instances groups g devices),
                       tproxy_connect_timeout_ms = 250\<rparr>
            else None),
         spec_identity = default_identity_policy\<rparr>\<rparr>"

section \<open>What resolution decides\<close>

definition reference_ok :: "plan_bundle \<Rightarrow> (string, plan_instance) btree \<Rightarrow> string \<Rightarrow> bool" where
  "reference_ok b instances member \<longleftrightarrow>
     (case bt_get instances (reference_instance member) of
        None \<Rightarrow> False
      | Some i \<Rightarrow>
          if is_external i then snd (provider_reference member) = None
          else case bt_get (bundle_blocks b) (pi_block i) of
                 None \<Rightarrow> True
               | Some block \<Rightarrow>
                   (case snd (provider_reference member) of
                      None \<Rightarrow> True | Some s \<Rightarrow> bt_get (pb_services block) s \<noteq> None))"

text \<open>A member whose block is unknown is skipped without an error.\<close>

definition kept :: "plan_bundle \<Rightarrow> (string, plan_instance) btree \<Rightarrow> string \<Rightarrow> bool" where
  "kept b instances member \<longleftrightarrow>
     (case bt_get instances (reference_instance member) of
        None \<Rightarrow> False
      | Some i \<Rightarrow> is_external i \<or> bt_get (bundle_blocks b) (pi_block i) \<noteq> None)"

definition group_members :: "plan_bundle \<Rightarrow> (string, plan_instance) btree \<Rightarrow> plan_group \<Rightarrow> string list" where
  "group_members b instances g = filter (kept b instances) (pg_instances g)"

definition plan_group_ok :: "plan_bundle \<Rightarrow> (string, plan_instance) btree \<Rightarrow> string \<times> plan_group \<Rightarrow> bool" where
  "plan_group_ok b instances = (\<lambda>(gname, g).
     valid_name gname \<and> list_all (reference_ok b instances) (pg_instances g) \<and>
     list_all valid_name (pg_disabled g) \<and> distinct (pg_disabled g) \<and>
     set (pg_disabled g) \<subseteq> reference_instance ` set (group_members b instances g))"

lemma group_member_step_result:
  "\<not> reference_ok b instances m \<Longrightarrow> snd (group_member_step b instances gname i m st) \<noteq> []"
  "reference_ok b instances m \<Longrightarrow> \<not> kept b instances m \<Longrightarrow> group_member_step b instances gname i m st = (st, [])"
  "reference_ok b instances m \<Longrightarrow> kept b instances m \<Longrightarrow>
     m \<in> seen \<or> bt_get ig (reference_instance m) \<noteq> None \<Longrightarrow> snd (group_member_step b instances gname i m (valid, seen, ig)) \<noteq> []"
  "reference_ok b instances m \<Longrightarrow> kept b instances m \<Longrightarrow> m \<notin> seen \<Longrightarrow> bt_get ig (reference_instance m) = None \<Longrightarrow>
     group_member_step b instances gname i m (valid, seen, ig) =
       ((valid @ [m], insert m seen, bt_insert (reference_instance m) (gname, i) ig), [])"
  by (auto simp: reference_ok_def kept_def group_member_step_def claim_member_def Let_def case_prod_unfold
      split: option.splits if_splits)

text \<open>A loop stops being silent at its first error.\<close>

abbreviation seen_claimed :: "string set \<Rightarrow> (string, string \<times> nat) btree \<Rightarrow> bool" where
  "seen_claimed seen ig \<equiv> \<forall>m\<in>seen. bt_get ig (reference_instance m) \<noteq> None"

lemma member_loop:
  assumes "seen_claimed seen ig"
  shows "snd (for_each (group_member_step b instances gname) i ms (valid, seen, ig)) = [] \<longleftrightarrow>
      list_all (reference_ok b instances) ms \<and>
      distinct (map reference_instance (filter (kept b instances) ms)) \<and>
      (\<forall>m\<in>set (filter (kept b instances) ms). bt_get ig (reference_instance m) = None)"
  using assms
proof (induction ms arbitrary: i valid seen ig)
  case (Cons m ms)
  let ?st = "(valid, seen, ig)"
  consider (bad) "\<not> reference_ok b instances m" | (skip) "reference_ok b instances m" "\<not> kept b instances m"
    | (dup) "reference_ok b instances m" "kept b instances m" "bt_get ig (reference_instance m) \<noteq> None"
    | (new) "reference_ok b instances m" "kept b instances m" "bt_get ig (reference_instance m) = None" by blast
  then show ?case
  proof cases
    case bad
    then show ?thesis using group_member_step_result(1) [OF bad] by (simp add: for_each_Cons)
  next
    case skip
    then show ?thesis
      using group_member_step_result(2) [OF skip, of gname i ?st] Cons.IH [OF Cons.prems] by (simp add: for_each_Cons)
  next
    case dup
    then show ?thesis using group_member_step_result(3) [of b instances m seen ig gname i valid] by (simp add: for_each_Cons)
  next
    case new
    then have unseen: "m \<notin> seen" using Cons.prems by auto
    let ?ig = "bt_insert (reference_instance m) (gname, i) ig"
    have "seen_claimed (insert m seen) ?ig" using Cons.prems by auto
    from Cons.IH [OF this, of "Suc i" "valid @ [m]"] show ?thesis
      using group_member_step_result(4) [OF new(1,2) unseen new(3), of gname i valid] new
      by (auto simp: for_each_Cons image_iff split: if_splits)
  qed
qed simp

lemma member_loop_state:
  assumes "seen_claimed seen ig" and "snd (for_each (group_member_step b instances gname) i ms (valid, seen, ig)) = []"
  shows "\<exists>seen' ig'. fst (for_each (group_member_step b instances gname) i ms (valid, seen, ig)) =
        (valid @ filter (kept b instances) ms, seen', ig') \<and>
      (\<forall>k. bt_get ig' k = None \<longleftrightarrow> bt_get ig k = None \<and> k \<notin> reference_instance ` set (filter (kept b instances) ms))"
  using assms
proof (induction ms arbitrary: i valid seen ig)
  case (Cons m ms)
  let ?st = "(valid, seen, ig)"
  have first: "snd (group_member_step b instances gname i m ?st) = []"
    and rest: "snd (for_each (group_member_step b instances gname) (Suc i) ms (fst (group_member_step b instances gname i m ?st))) = []"
    using Cons.prems(2) by (simp_all add: for_each_Cons)
  have ok: "reference_ok b instances m" using first group_member_step_result(1) by blast
  show ?case
  proof (cases "kept b instances m")
    case False
    then show ?thesis
      using group_member_step_result(2) [OF ok False, of gname i ?st] rest Cons.IH [OF Cons.prems(1), of "Suc i" valid]
      by (simp add: for_each_Cons)
  next
    case True
    have free: "m \<notin> seen" "bt_get ig (reference_instance m) = None"
      using first group_member_step_result(3) [OF ok True] by blast+
    let ?ig = "bt_insert (reference_instance m) (gname, i) ig"
    have step: "group_member_step b instances gname i m ?st = ((valid @ [m], insert m seen, ?ig), [])"
      by (rule group_member_step_result(4) [OF ok True free])
    have "seen_claimed (insert m seen) ?ig" using Cons.prems(1) by auto
    moreover have "snd (for_each (group_member_step b instances gname) (Suc i) ms (valid @ [m], insert m seen, ?ig)) = []"
      using rest step by simp
    ultimately obtain seen' ig'
      where "fst (for_each (group_member_step b instances gname) (Suc i) ms (valid @ [m], insert m seen, ?ig)) =
          ((valid @ [m]) @ filter (kept b instances) ms, seen', ig')"
        and dom: "\<forall>k. bt_get ig' k = None \<longleftrightarrow> bt_get ?ig k = None \<and> k \<notin> reference_instance ` set (filter (kept b instances) ms)"
      using Cons.IH by blast
    then have "fst (for_each (group_member_step b instances gname) i (m # ms) ?st) =
        (valid @ filter (kept b instances) (m # ms), seen', ig')"
      using step True by (simp add: for_each_Cons)
    moreover have "\<forall>k. bt_get ig' k = None \<longleftrightarrow>
        bt_get ig k = None \<and> k \<notin> reference_instance ` set (filter (kept b instances) (m # ms))"
      using dom True by simp
    ultimately show ?thesis by blast
  qed
qed auto

lemma disabled_loop:
  "snd (for_each (disabled_step gname names) i ds disabled) = [] \<longleftrightarrow>
     list_all valid_name ds \<and> set ds \<subseteq> set names \<and> distinct ds \<and> set ds \<inter> disabled = {}"
  "fst (for_each (disabled_step gname names) i ds disabled) = set ds \<union> disabled"
  by (induction ds arbitrary: i disabled) (auto simp: for_each_Cons disabled_step_def Let_def validate_name_def)

definition routed_members :: "plan_bundle \<Rightarrow> (string, plan_instance) btree \<Rightarrow> plan_group \<Rightarrow> string list" where
  "routed_members b instances g =
     filter (\<lambda>m. reference_instance m \<notin> set (pg_disabled g)) (group_members b instances g)"

lemma group_loop_errors:
  "snd (group_loop b instances j (gname, g) (groups, ig)) = [] \<longleftrightarrow>
     plan_group_ok b instances (gname, g) \<and> distinct (map reference_instance (group_members b instances g)) \<and>
     (\<forall>m\<in>set (group_members b instances g). bt_get ig (reference_instance m) = None)"
proof -
  let ?loop = "for_each (group_member_step b instances gname) 0 (pg_instances g) ([], {}, ig)"
  have "snd (group_loop b instances j (gname, g) (groups, ig)) = [] \<longleftrightarrow>
      valid_name gname \<and> snd ?loop = [] \<and>
      snd (for_each (disabled_step gname (map reference_instance (fst (fst ?loop)))) 0 (pg_disabled g) {}) = []"
    by (simp add: group_loop_def Let_def case_prod_unfold validate_name_def)
  moreover have "fst (fst ?loop) = group_members b instances g" if "snd ?loop = []"
    using member_loop_state [OF _ that] by (auto simp: group_members_def)
  ultimately show ?thesis
    using member_loop [of "{}" ig b instances gname 0 "pg_instances g" "[]"]
    by (auto simp: plan_group_ok_def disabled_loop(1) group_members_def)
qed

lemma group_loop_state:
  assumes "snd (group_loop b instances j (gname, g) (groups, ig)) = []"
  shows "\<exists>ig'. fst (group_loop b instances j (gname, g) (groups, ig)) =
      (\<lparr>rg_members = bt_insert gname (routed_members b instances g) (rg_members groups),
        rg_declared = bt_insert gname (group_members b instances g) (rg_declared groups)\<rparr>, ig') \<and>
    (\<forall>k. bt_get ig' k = None \<longleftrightarrow> bt_get ig k = None \<and> k \<notin> reference_instance ` set (group_members b instances g))"
proof -
  let ?loop = "for_each (group_member_step b instances gname) 0 (pg_instances g) ([], {}, ig)"
  have "snd ?loop = []" using assms by (simp add: group_loop_def Let_def case_prod_unfold)
  from member_loop_state [OF _ this] obtain seen' ig'
    where st: "fst ?loop = (group_members b instances g, seen', ig')"
      and "\<forall>k. bt_get ig' k = None \<longleftrightarrow> bt_get ig k = None \<and> k \<notin> reference_instance ` set (group_members b instances g)"
    by (auto simp: group_members_def)
  then show ?thesis
    by (simp add: group_loop_def Let_def case_prod_unfold disabled_loop(2) routed_members_def)
qed

text \<open>The instances of all groups, in the order in which they are claimed.\<close>

definition claimed_instances ::
  "plan_bundle \<Rightarrow> (string, plan_instance) btree \<Rightarrow> (string, plan_group) btree \<Rightarrow> string list" where
  "claimed_instances b instances gs = concat (map (\<lambda>(_, g). map reference_instance (group_members b instances g)) gs)"

definition groups_ok :: "plan_bundle \<Rightarrow> (string, plan_instance) btree \<Rightarrow> bool" where
  "groups_ok b instances \<longleftrightarrow>
     list_all (plan_group_ok b instances) (bundle_groups b) \<and>
     distinct (claimed_instances b instances (bundle_groups b))"

lemma claimed_split:
  assumes "distinct xs" and "\<forall>k\<in>set xs. f k = None" and "\<forall>k. f' k = None \<longleftrightarrow> f k = None \<and> k \<notin> set xs"
  shows "distinct ys \<and> (\<forall>k\<in>set ys. f' k = None) \<longleftrightarrow> distinct (xs @ ys) \<and> (\<forall>k\<in>set (xs @ ys). f k = None)"
  using assms by auto

lemma groups_loop:
  "snd (for_each (group_loop b instances) j gs (groups, ig)) = [] \<longleftrightarrow>
     list_all (plan_group_ok b instances) gs \<and> distinct (claimed_instances b instances gs) \<and>
     (\<forall>k\<in>set (claimed_instances b instances gs). bt_get ig k = None)"
proof (induction gs arbitrary: j groups ig)
  case (Cons p gs)
  obtain gname g where p: "p = (gname, g)" by fastforce
  let ?xs = "map reference_instance (group_members b instances g)"
  have split: "claimed_instances b instances (p # gs) = ?xs @ claimed_instances b instances gs"
    by (simp add: claimed_instances_def p)
  have errors: "snd (group_loop b instances j (gname, g) (groups, ig)) = [] \<longleftrightarrow>
      plan_group_ok b instances (gname, g) \<and> distinct ?xs \<and> (\<forall>k\<in>set ?xs. bt_get ig k = None)"
    by (simp add: group_loop_errors)
  show ?case
  proof (cases "snd (group_loop b instances j (gname, g) (groups, ig)) = []")
    case False
    then have "snd (for_each (group_loop b instances) j (p # gs) (groups, ig)) \<noteq> []" by (simp add: p for_each_Cons)
    moreover have "\<not> (plan_group_ok b instances p \<and> distinct (?xs @ claimed_instances b instances gs) \<and>
        (\<forall>k\<in>set (?xs @ claimed_instances b instances gs). bt_get ig k = None))"
      using False unfolding errors p distinct_append set_append by blast
    ultimately show ?thesis unfolding split list.pred_inject(2) by blast
  next
    case True
    then have ok: "plan_group_ok b instances (gname, g)" "distinct ?xs" "\<forall>k\<in>set ?xs. bt_get ig k = None"
      unfolding errors by blast+
    obtain groups' ig'
      where st: "fst (group_loop b instances j (gname, g) (groups, ig)) = (groups', ig')"
        and dom: "\<forall>k. bt_get ig' k = None \<longleftrightarrow> bt_get ig k = None \<and> k \<notin> set ?xs"
      using group_loop_state [OF True] unfolding list.set_map by blast
    have "snd (for_each (group_loop b instances) j (p # gs) (groups, ig)) = [] \<longleftrightarrow>
        snd (for_each (group_loop b instances) (Suc j) gs (groups', ig')) = []"
      using True by (simp add: p for_each_Cons st)
    also have "\<dots> \<longleftrightarrow> list_all (plan_group_ok b instances) gs \<and> distinct (?xs @ claimed_instances b instances gs) \<and>
        (\<forall>k\<in>set (?xs @ claimed_instances b instances gs). bt_get ig k = None)"
      unfolding Cons.IH claimed_split [OF ok(2,3) dom] ..
    finally show ?thesis unfolding split list.pred_inject(2) using ok(1) unfolding p by blast
  qed
qed (simp add: claimed_instances_def)

lemma bt_insert_last: "\<forall>k'\<in>fst ` set m. k' < k \<Longrightarrow> bt_insert k v m = m @ [(k, v)]"
proof -
  assume less: "\<forall>k'\<in>fst ` set m. k' < k"
  then have "filter (\<lambda>e. fst e < k) m = m" "filter (\<lambda>e. k < fst e) m = []"
    by (auto simp: filter_id_conv filter_empty_conv dest: less_asym)
  then show ?thesis by (simp add: bt_insert_def)
qed

lemma groups_loop_state:
  assumes "snd (for_each (group_loop b instances) j gs (groups, ig)) = []"
    and "sorted_wrt (<) (map fst (rg_members groups) @ map fst gs)"
    and "map fst (rg_declared groups) = map fst (rg_members groups)"
  shows "fst (fst (for_each (group_loop b instances) j gs (groups, ig))) =
     \<lparr>rg_members = rg_members groups @ map (\<lambda>(n, g). (n, routed_members b instances g)) gs,
      rg_declared = rg_declared groups @ map (\<lambda>(n, g). (n, group_members b instances g)) gs\<rparr>"
  using assms
proof (induction gs arbitrary: j groups ig)
  case (Cons p gs)
  obtain gname g where p: "p = (gname, g)" by fastforce
  have first: "snd (group_loop b instances j (gname, g) (groups, ig)) = []"
    using Cons.prems(1) by (simp add: p for_each_Cons)
  have less: "\<forall>k'\<in>fst ` set (rg_members groups). k' < gname"
    using Cons.prems(2) by (simp add: p sorted_wrt_append)
  moreover have "fst ` set (rg_declared groups) = fst ` set (rg_members groups)"
    using Cons.prems(3) by (metis list.set_map)
  ultimately have "\<forall>k'\<in>fst ` set (rg_declared groups). k' < gname" by simp
  with less have ins: "bt_insert gname x (rg_members groups) = rg_members groups @ [(gname, x)]"
    "bt_insert gname x (rg_declared groups) = rg_declared groups @ [(gname, x)]" for x
    by (simp_all only: bt_insert_last)
  from group_loop_state [OF first] obtain ig'
    where st: "fst (group_loop b instances j (gname, g) (groups, ig)) =
      (\<lparr>rg_members = rg_members groups @ [(gname, routed_members b instances g)],
        rg_declared = rg_declared groups @ [(gname, group_members b instances g)]\<rparr>, ig')"
    unfolding ins by blast
  show ?case
    using Cons.prems by (simp add: p for_each_Cons st Cons.IH)
qed simp

lemma resolve_groups_errors: "snd (resolve_groups b instances) = [] \<longleftrightarrow> groups_ok b instances"
  by (simp add: resolve_groups_def Let_def case_prod_unfold groups_loop groups_ok_def)

lemma resolve_groups_result:
  assumes "bt_inv (bundle_groups b)" and "groups_ok b instances"
  shows "fst (resolve_groups b instances) =
     \<lparr>rg_members = map (\<lambda>(n, g). (n, routed_members b instances g)) (bundle_groups b),
      rg_declared = map (\<lambda>(n, g). (n, group_members b instances g)) (bundle_groups b)\<rparr>"
  using assms groups_loop_state [of b instances 0 "bundle_groups b" "\<lparr>rg_members = [], rg_declared = []\<rparr>" "[]"]
  by (simp add: resolve_groups_def Let_def case_prod_unfold groups_loop groups_ok_def bt_inv_def)

section \<open>Moving keeps the groups resolvable\<close>

lemma bundle_instances_move: "bundle_instances (move_instance_to_group b iname d) = bundle_instances b"
  "bundle_blocks (move_instance_to_group b iname d) = bundle_blocks b"
  "bundle_groups (move_instance_to_group b iname d) = moved_groups iname d (bundle_groups b)"
  by (simp_all add: move_instance_to_group_def bundle_instances_def)

lemma reference_ok_move: "reference_ok (move_instance_to_group b iname d) = reference_ok b"
  "kept (move_instance_to_group b iname d) = kept b"
  unfolding fun_eq_iff reference_ok_def kept_def bundle_instances_move by simp_all

lemma find_SomeD: "find P xs = Some x \<Longrightarrow> x \<in> set xs \<and> P x"
  by (induction xs) (auto split: if_splits)

lemma bundle_instances_lookup:
  "bt_get (bundle_instances b) k = map_of (rev (map (\<lambda>i. (pi_name i, i)) (dp_instances (bn_spec b)))) k"
  using bt.get_insert_all [OF bt.inv_empty, of "map (\<lambda>i. (pi_name i, i)) (dp_instances (bn_spec b))" k]
  by (simp add: bundle_instances_def bt_index_def fold_bt_insert_map split: option.splits)

lemma bundle_instances_Some:
  "bt_get (bundle_instances b) k = Some i \<Longrightarrow> i \<in> set (dp_instances (bn_spec b)) \<and> pi_name i = k"
  unfolding bundle_instances_lookup by (auto dest: map_of_SomeD)

lemma bundle_instances_get:
  assumes "iname \<in> pi_name ` set (dp_instances (bn_spec b))"
  shows "\<exists>i. bt_get (bundle_instances b) iname = Some i \<and> i \<in> set (dp_instances (bn_spec b)) \<and> pi_name i = iname"
proof -
  have "iname \<in> fst ` set (rev (map (\<lambda>i. (pi_name i, i)) (dp_instances (bn_spec b))))" using assms by force
  then have "bt_get (bundle_instances b) iname \<noteq> None"
    unfolding bundle_instances_lookup by (simp only: map_of_eq_None_iff) blast
  then show ?thesis using bundle_instances_Some by blast
qed

lemma checked_reference_kept:
  assumes "instances_checked b" and "reference_ok b (bundle_instances b) m"
  shows "kept b (bundle_instances b) m"
proof -
  obtain i where i: "bt_get (bundle_instances b) (reference_instance m) = Some i"
    using assms(2) by (auto simp: reference_ok_def split: option.splits)
  then have "i \<in> snd ` set (bundle_instances b)" by (auto dest: map_of_SomeD intro: rev_image_eqI)
  then have "i \<in> set (dp_instances (bn_spec b))" using bundle_instances_values by blast
  then show ?thesis using assms(1) i by (auto simp: kept_def instances_checked_def list_all_iff)
qed

text \<open>In a checked bundle no member is skipped.\<close>

lemma checked_group_members:
  assumes "instances_checked b" and "list_all (reference_ok b (bundle_instances b)) (pg_instances g)"
  shows "group_members b (bundle_instances b) g = pg_instances g"
  using assms checked_reference_kept by (auto simp: group_members_def list_all_iff intro: filter_True)

lemma moved_reference_ok:
  assumes "instances_checked b" and "list_all (plan_group_ok b (bundle_instances b)) (bundle_groups b)"
    and "iname \<in> pi_name ` set (dp_instances (bn_spec b))"
  shows "reference_ok b (bundle_instances b) (moved_reference iname (bundle_groups b))"
    and "reference_instance (moved_reference iname (bundle_groups b)) = iname"
proof -
  obtain i where i: "bt_get (bundle_instances b) iname = Some i" "i \<in> set (dp_instances (bn_spec b))" "pi_name i = iname"
    using bundle_instances_get [OF assms(3)] by blast
  then have "valid_name iname" using assms(1) by (auto simp: instances_checked_def list_all_iff)
  then have plain: "provider_reference iname = (iname, None)" by (intro reference_plain valid_name_no_slash)
  have "reference_ok b (bundle_instances b) (moved_reference iname (bundle_groups b)) \<and>
      reference_instance (moved_reference iname (bundle_groups b)) = iname"
  proof (cases "moved_member iname (bundle_groups b)")
    case None
    then show ?thesis using i plain by (auto simp: moved_reference_def reference_ok_def split: option.splits)
  next
    case (Some m)
    then have "m \<in> set (concat (map (pg_instances \<circ> snd) (bundle_groups b)))" "reference_instance m = iname"
      unfolding moved_member_def by (blast dest: find_SomeD)+
    then show ?thesis using assms(2) Some
      by (fastforce simp: moved_reference_def plan_group_ok_def list_all_iff)
  qed
  then show "reference_ok b (bundle_instances b) (moved_reference iname (bundle_groups b))"
    "reference_instance (moved_reference iname (bundle_groups b)) = iname" by auto
qed

lemma moved_group_simps:
  "fst (moved_group iname d x p) = fst p"
  "pg_instances (snd (moved_group iname d x p)) =
     filter (\<lambda>m. reference_instance m \<noteq> iname) (pg_instances (snd p)) @ (if fst p = d then [x] else [])"
  "pg_disabled (snd (moved_group iname d x p)) = filter (\<lambda>m. m \<noteq> iname) (pg_disabled (snd p))"
  by (auto simp: moved_group_def without_instance_def Let_def case_prod_unfold)

text \<open>Taking one element out everywhere and adding it in one place keeps a concatenation distinct.\<close>

lemma distinct_move_step:
  assumes "distinct rs" and "distinct rest" and "set rest \<subseteq> (ys - {x}) \<union> (if c then {x} else {})"
    and "set rs \<inter> ys = {}" and "n = d \<Longrightarrow> \<not> c"
  shows "distinct ((filter (\<lambda>y. y \<noteq> x) rs @ (if n = d then [x] else [])) @ rest)"
    and "set ((filter (\<lambda>y. y \<noteq> x) rs @ (if n = d then [x] else [])) @ rest) \<subseteq>
      (set rs \<union> ys - {x}) \<union> (if n = d \<or> c then {x} else {})"
  using assms by (cases c; cases "n = d"; auto)+

lemma distinct_concat_move:
  fixes gs :: "('a \<times> 'b) list" and r :: "'b \<Rightarrow> 'c list"
  assumes "distinct (map fst gs)" and "distinct (concat (map (\<lambda>(n, g). r g) gs))"
  shows "distinct (concat (map (\<lambda>(n, g). filter (\<lambda>y. y \<noteq> x) (r g) @ (if n = d then [x] else [])) gs)) \<and>
     set (concat (map (\<lambda>(n, g). filter (\<lambda>y. y \<noteq> x) (r g) @ (if n = d then [x] else [])) gs)) \<subseteq>
       (set (concat (map (\<lambda>(n, g). r g) gs)) - {x}) \<union> (if d \<in> fst ` set gs then {x} else {})"
  using assms
proof (induction gs)
  case (Cons p gs)
  obtain n g where p: "p = (n, g)" by fastforce
  let ?rest = "concat (map (\<lambda>(n, g). filter (\<lambda>y. y \<noteq> x) (r g) @ (if n = d then [x] else [])) gs)"
  have "n \<notin> fst ` set gs" "distinct (map fst gs)" "distinct (concat (map (\<lambda>(n, g). r g) gs))"
    "distinct (r g)" and disj: "set (r g) \<inter> set (concat (map (\<lambda>(n, g). r g) gs)) = {}"
    using Cons.prems by (simp_all add: p)
  then have ih: "distinct ?rest" and sub: "set ?rest \<subseteq>
       (set (concat (map (\<lambda>(n, g). r g) gs)) - {x}) \<union> (if d \<in> fst ` set gs then {x} else {})"
    using Cons.IH by blast+
  have split: "concat (map (\<lambda>(n, g). filter (\<lambda>y. y \<noteq> x) (r g) @ (if n = d then [x] else [])) (p # gs)) =
      (filter (\<lambda>y. y \<noteq> x) (r g) @ (if n = d then [x] else [])) @ ?rest" by (simp add: p)
  have old: "set (concat (map (\<lambda>(n, g). r g) (p # gs))) = set (r g) \<union> set (concat (map (\<lambda>(n, g). r g) gs))"
    and keys: "d \<in> fst ` set (p # gs) \<longleftrightarrow> n = d \<or> d \<in> fst ` set gs" by (auto simp: p)
  have "n = d \<Longrightarrow> d \<notin> fst ` set gs" using \<open>n \<notin> fst ` set gs\<close> by blast
  then show ?case
    unfolding split old keys
    by (intro conjI distinct_move_step [OF \<open>distinct (r g)\<close> ih sub disj])
qed simp

lemma claimed_checked:
  assumes "instances_checked b" and "list_all (plan_group_ok b (bundle_instances b)) gs"
  shows "claimed_instances b (bundle_instances b) gs = concat (map (\<lambda>(n, g). map reference_instance (pg_instances g)) gs)"
proof -
  have "group_members b (bundle_instances b) g = pg_instances g" if "(n, g) \<in> set gs" for n g
    using that assms by (intro checked_group_members) (auto simp: list_all_iff plan_group_ok_def)
  then show ?thesis unfolding claimed_instances_def by (intro arg_cong [where f = concat] map_cong) auto
qed

lemma filter_map_reference:
  "map reference_instance (filter (\<lambda>m. reference_instance m \<noteq> iname) ms) = filter (\<lambda>y. y \<noteq> iname) (map reference_instance ms)"
  by (induction ms) auto

definition movable :: "plan_bundle \<Rightarrow> string \<Rightarrow> string \<Rightarrow> bool" where
  "movable b iname d \<longleftrightarrow>
     instances_checked b \<and> bt_inv (bundle_groups b) \<and> groups_ok b (bundle_instances b) \<and>
     iname \<in> pi_name ` set (dp_instances (bn_spec b)) \<and> bt_get (bundle_groups b) d \<noteq> None"

lemma movableD:
  assumes "movable b iname d"
  shows "instances_checked b" "bt_inv (bundle_groups b)" "groups_ok b (bundle_instances b)"
    "list_all (plan_group_ok b (bundle_instances b)) (bundle_groups b)"
    "iname \<in> pi_name ` set (dp_instances (bn_spec b))" "bt_get (bundle_groups b) d \<noteq> None"
    "instances_checked (move_instance_to_group b iname d)"
  using assms by (simp_all add: movable_def groups_ok_def instances_checked_def move_instance_to_group_def)

abbreviation moved :: "plan_bundle \<Rightarrow> string \<Rightarrow> string \<Rightarrow> string \<times> plan_group \<Rightarrow> string \<times> plan_group" where
  "moved b iname d \<equiv> moved_group iname d (moved_reference iname (bundle_groups b))"

lemma movable_reference:
  assumes "movable b iname d"
  shows "reference_ok b (bundle_instances b) (moved_reference iname (bundle_groups b))"
    and "reference_instance (moved_reference iname (bundle_groups b)) = iname"
  using moved_reference_ok movableD [OF assms] by blast+

lemma moved_references_ok:
  assumes "movable b iname d" and "p \<in> set (bundle_groups b)"
  shows "list_all (reference_ok b (bundle_instances b)) (pg_instances (snd p))"
    and "list_all (reference_ok b (bundle_instances b)) (pg_instances (snd (moved b iname d p)))"
proof -
  show refs: "list_all (reference_ok b (bundle_instances b)) (pg_instances (snd p))"
    using assms(2) movableD(4) [OF assms(1)] by (auto simp: plan_group_ok_def list_all_iff)
  show "list_all (reference_ok b (bundle_instances b)) (pg_instances (snd (moved b iname d p)))"
    using refs movable_reference(1) [OF assms(1)] by (auto simp: moved_group_simps list_all_iff)
qed

lemma movable_members:
  assumes "movable b iname d" and "p \<in> set (bundle_groups b)"
  shows "group_members b (bundle_instances b) (snd p) = pg_instances (snd p)"
    and "group_members (move_instance_to_group b iname d) (bundle_instances b) (snd (moved b iname d p)) =
      pg_instances (snd (moved b iname d p))"
  using checked_group_members [OF movableD(1) [OF assms(1)]] moved_references_ok [OF assms]
  by (simp_all add: group_members_def reference_ok_move)

lemma moved_group_ok:
  assumes "movable b iname d" and "p \<in> set (bundle_groups b)"
  shows "plan_group_ok (move_instance_to_group b iname d) (bundle_instances b) (moved b iname d p)"
proof -
  have p: "plan_group_ok b (bundle_instances b) p"
    using assms(2) movableD(4) [OF assms(1)] by (auto simp: list_all_iff)
  then have "set (pg_disabled (snd p)) \<subseteq> reference_instance ` set (pg_instances (snd p))"
    using movable_members(1) [OF assms] by (auto simp: plan_group_ok_def)
  then have "set (pg_disabled (snd (moved b iname d p))) \<subseteq> reference_instance ` set (pg_instances (snd (moved b iname d p)))"
    by (auto simp: moved_group_simps image_iff)
  then show ?thesis
    using p moved_references_ok(2) [OF assms] movable_members(2) [OF assms] unfolding plan_group_ok_def case_prod_unfold
    by (auto simp: moved_group_simps reference_ok_move list_all_iff)
qed

lemma moved_groups_ok:
  assumes "movable b iname d"
  shows "groups_ok (move_instance_to_group b iname d) (bundle_instances b)"
proof -
  let ?b = "move_instance_to_group b iname d" and ?m = "moved b iname d"
  have all: "list_all (plan_group_ok ?b (bundle_instances b)) (map ?m (bundle_groups b))"
    using moved_group_ok [OF assms] by (auto simp: list_all_iff)
  have "claimed_instances ?b (bundle_instances b) (map ?m (bundle_groups b)) =
      concat (map (\<lambda>(n, g). filter (\<lambda>y. y \<noteq> iname) (map reference_instance (pg_instances g)) @
        (if n = d then [iname] else [])) (bundle_groups b))"
    using claimed_checked [OF movableD(7) [OF assms] all [unfolded bundle_instances_move(1) [of b iname d, symmetric]]]
    by (simp add: bundle_instances_move comp_def case_prod_unfold moved_group_simps filter_map_reference
        movable_reference(2) [OF assms] if_distrib cong: if_cong)
  moreover have "distinct \<dots>"
    using movableD(3) [OF assms] claimed_checked [OF movableD(1,4) [OF assms]] bt_inv_distinct [OF movableD(2) [OF assms]]
    by (intro distinct_concat_move [THEN conjunct1]) (simp_all add: groups_ok_def)
  ultimately show ?thesis
    using all by (simp add: groups_ok_def bundle_instances_move moved_groups_def)
qed

text \<open>The selected group, by the groups in which the instance is active.\<close>

lemma selected_group_names:
  "selected_group_for_instance groups iname =
     (case map fst (filter (\<lambda>(_, members). list_ex (\<lambda>m. reference_instance m = iname) members) (rg_members groups)) of
        [gname] \<Rightarrow> Some gname | _ \<Rightarrow> None)"
  by (simp add: selected_group_for_instance_def split: list.splits prod.splits)

lemma map_fst_filter_map:
  "map fst (filter (\<lambda>(_, ms). P ms) (map (\<lambda>(n, g). (n, f g)) gs)) = map fst (filter (\<lambda>(_, g). P (f g)) gs)"
  by (induction gs) auto

lemma map_fst_filter_moved:
  assumes "\<And>p. p \<in> set gs \<Longrightarrow> P (snd (h p)) = Q p" and "\<And>p. fst (h p) = fst p"
  shows "map fst (filter (\<lambda>(_, g). P g) (map h gs)) = map fst (filter Q gs)"
  using assms(1) by (induction gs) (auto simp: case_prod_unfold assms(2))

lemma active_in_group:
  assumes "movable b iname d" and "p \<in> set (bundle_groups b)"
  shows "list_ex (\<lambda>m. reference_instance m = k) (routed_members b (bundle_instances b) (snd p)) \<longleftrightarrow>
      k \<in> reference_instance ` set (pg_instances (snd p)) \<and> k \<notin> set (pg_disabled (snd p))"
    and "list_ex (\<lambda>m. reference_instance m = k)
        (routed_members (move_instance_to_group b iname d) (bundle_instances b) (snd (moved b iname d p))) \<longleftrightarrow>
      (if k = iname then fst p = d
       else k \<in> reference_instance ` set (pg_instances (snd p)) \<and> k \<notin> set (pg_disabled (snd p)))"
  unfolding routed_members_def movable_members [OF assms]
  using movable_reference(2) [OF assms(1)] by (auto simp: list_ex_iff moved_group_simps)

lemma filter_key:
  assumes "distinct (map fst gs)" and "bt_get gs d \<noteq> None"
  shows "map fst (filter (\<lambda>p. fst p = d) gs) = [d]"
proof -
  have "d \<in> fst ` set gs" using assms(2) by (metis map_of_eq_None_iff)
  moreover have "map fst (filter (\<lambda>p. fst p = d) gs) = filter (\<lambda>n. n = d) (map fst gs)" by (simp add: filter_map comp_def)
  moreover have "distinct ns \<Longrightarrow> d \<in> set ns \<Longrightarrow> filter (\<lambda>n. n = d) ns = [d]" for ns
    by (induction ns) (auto simp: filter_empty_conv)
  ultimately show ?thesis using assms(1) by simp
qed

lemma selected_after_move:
  assumes "movable b iname d"
  defines "r \<equiv> fst (resolve_groups b (bundle_instances b))"
    and "r' \<equiv> fst (resolve_groups (move_instance_to_group b iname d) (bundle_instances b))"
  shows "selected_group_for_instance r' iname = Some d"
    and "k \<noteq> iname \<Longrightarrow> selected_group_for_instance r' k = selected_group_for_instance r k"
proof -
  let ?b = "move_instance_to_group b iname d"
  have keys: "map fst (moved_groups iname d (bundle_groups b)) = map fst (bundle_groups b)"
    by (simp add: moved_groups_def moved_group_simps)
  have inv': "bt_inv (bundle_groups ?b)"
    using movableD(2) [OF assms(1)] unfolding bt_inv_def bundle_instances_move(3) keys .
  have r: "rg_members r = map (\<lambda>(n, g). (n, routed_members b (bundle_instances b) g)) (bundle_groups b)"
    unfolding r_def resolve_groups_result [OF movableD(2,3) [OF assms(1)]] by simp
  have r': "rg_members r' = map (\<lambda>(n, g). (n, routed_members ?b (bundle_instances b) g)) (map (moved b iname d) (bundle_groups b))"
    unfolding r'_def resolve_groups_result [OF inv' moved_groups_ok [OF assms(1)]]
    by (simp add: bundle_instances_move moved_groups_def)
  have new: "map fst (filter (\<lambda>(_, members). list_ex (\<lambda>m. reference_instance m = k) members) (rg_members r')) =
      map fst (filter (\<lambda>p. if k = iname then fst p = d
        else k \<in> reference_instance ` set (pg_instances (snd p)) \<and> k \<notin> set (pg_disabled (snd p))) (bundle_groups b))" for k
    unfolding r' map_fst_filter_map
    by (rule map_fst_filter_moved) (simp_all only: active_in_group(2) [OF assms(1)] moved_group_simps)
  have old: "map fst (filter (\<lambda>(_, members). list_ex (\<lambda>m. reference_instance m = k) members) (rg_members r)) =
      map fst (filter (\<lambda>p. k \<in> reference_instance ` set (pg_instances (snd p)) \<and> k \<notin> set (pg_disabled (snd p))) (bundle_groups b))" for k
    unfolding r map_fst_filter_map unfolding case_prod_unfold
    by (intro arg_cong [where f = "map fst"] filter_cong refl active_in_group(1) [OF assms(1)])
  show "selected_group_for_instance r' iname = Some d"
    unfolding selected_group_names new
    using filter_key [OF bt_inv_distinct [OF movableD(2) [OF assms(1)]] movableD(6) [OF assms(1)]] by simp
  show "selected_group_for_instance r' k = selected_group_for_instance r k" if "k \<noteq> iname"
    unfolding selected_group_names new old using that by simp
qed

section \<open>The configuration the planner gives to a sidecar\<close>

text \<open>What \<open>validate\<close> has checked of the services, the external instances and the devices.\<close>

definition sidecar_checked ::
  "(plan_probe \<Rightarrow> string list) option \<Rightarrow> plan_bundle \<Rightarrow> (string, planning_device) btree \<Rightarrow> bool" where
  "sidecar_checked probe_messages b devices \<longleftrightarrow>
     valid_name (pm_name (bn_metadata b)) \<and>
     list_all (\<lambda>(_, block). bt_inv (pb_services block) \<and> list_all valid_name (map fst (pb_services block)))
       (bundle_blocks b) \<and>
     list_all (\<lambda>(n, i). is_external i \<longrightarrow>
         validate_external_instance probe_messages i (indexed ''spec.instances'' n) = [])
       (enumerate 0 (dp_instances (bn_spec b))) \<and>
     list_all (\<lambda>(_, device). pv_host device \<noteq> []) devices"

lemma valid_name_identifier:
  "valid_name name \<Longrightarrow> valid_identifier name allow_path"
  "valid_name iname \<Longrightarrow> valid_name sname \<Longrightarrow> valid_identifier (iname @ ''/'' @ sname) True"
  using valid_name_no_slash [of name] valid_name_no_slash [of iname] valid_name_no_slash [of sname]
  by (simp_all add: valid_identifier_def valid_name_segment split_char_notin split_char_append count_list_0_iff)

lemma join_valid_names:
  assumes "valid_name deployment" "valid_name iname" "valid_name sname" "hex_digest digest"
  shows "valid_segment (resource_name digest [deployment, iname, sname])"
proof (rule resource_name_segment [OF assms(4)])
  note chars = valid_name_chars [OF assms(1)] valid_name_chars [OF assms(2)] valid_name_chars [OF assms(3)]
  show "name_chars (join ''--'' [deployment, iname, sname])" using chars by simp
  show "join ''--'' [deployment, iname, sname] \<noteq> []" by simp
  show "is_ascii_alphanumeric (hd (join ''--'' [deployment, iname, sname]))"
    using chars by (simp add: is_ascii_alphanumeric_def)
  have "is_ascii_alphanumeric (last sname)"
    using valid_name_segment [OF assms(3)] by (simp add: valid_segment_def)
  then show "is_ascii_alphanumeric (last (join ''--'' [deployment, iname, sname]))"
    using chars by simp
qed

lemma initial_valid_name: "valid_name ''initial''"
  by code_simp

lemma reference_slash: "CHR ''/'' \<notin> set iname \<Longrightarrow> reference_instance (iname @ ''/'' @ sname) = iname"
  by (simp add: provider_reference_def split_once_append)

lemma members_of_reference_ok:
  assumes checked: "instances_checked b" "sidecar_checked probe_messages b devices" and digest: "hex_digest digest"
    and m: "m \<in> set (members_of_reference digest b (bundle_instances b) devices r)"
  shows "RouterValidate.member_ok m" and "reference_instance (member_component m) = reference_instance r"
proof -
  obtain iname service where r: "provider_reference r = (iname, service)" by fastforce
  obtain i where i: "bt_get (bundle_instances b) iname = Some i"
    using m by (cases "bt_get (bundle_instances b) iname") (auto simp: members_of_reference_def r)
  then have mem: "i \<in> set (dp_instances (bn_spec b))" "pi_name i = iname" using bundle_instances_Some by blast+
  then have name: "valid_name iname" using checked(1) by (auto simp: instances_checked_def list_all_iff)
  then have slash: "CHR ''/'' \<notin> set iname" by (rule valid_name_no_slash)
  have "RouterValidate.member_ok m \<and> reference_instance (member_component m) = iname"
  proof (cases "pi_external i")
    case (Some host)
    obtain n where "(n, i) \<in> set (enumerate 0 (dp_instances (bn_spec b)))"
      using mem(1) map_snd_enumerate [of 0 "dp_instances (bn_spec b)"] by (metis (no_types, lifting) imageE list.set_map prod.collapse)
    then have v: "validate_external_instance probe_messages i (indexed ''spec.instances'' n) = []"
      using checked(2) Some by (auto simp: sidecar_checked_def list_all_iff is_external_def)
    have "m = \<lparr>member_component = iname, member_host = host, member_ports = Some (expanded_external_ports i)\<rparr>"
      using m i Some by (simp add: members_of_reference_def r)
    then show ?thesis
      using external_instance_ports [OF v] external_instance_host [OF v Some] valid_name_identifier(1) [OF name]
      by (simp add: RouterValidate.member_ok_def reference_plain [OF slash])
  next
    case None
    then obtain block sname where block: "bt_get (bundle_blocks b) (pi_block i) = Some block"
      and sname: "sname \<in> fst ` set (pb_services block)"
      and eq: "m = \<lparr>member_component = iname @ ''/'' @ sname,
        member_host = service_host digest devices (pm_name (bn_metadata b)) i iname sname, member_ports = None\<rparr>"
      using m i by (cases "bt_get (bundle_blocks b) (pi_block i)") (auto simp: members_of_reference_def r)
    have "(pi_block i, block) \<in> set (bundle_blocks b)" using block by (rule map_of_SomeD)
    then have sv: "valid_name sname" using sname checked(2) by (fastforce simp: sidecar_checked_def list_all_iff)
    have "valid_name (pm_name (bn_metadata b))" using checked(2) by (simp add: sidecar_checked_def)
    then have "service_name_for digest (pm_name (bn_metadata b)) iname sname \<noteq> []"
      using join_valid_names [OF _ name sv digest] by (auto simp: service_name_for_def valid_segment_def)
    moreover have "pv_host device \<noteq> []" if "bt_get devices k = Some device" for k device
      using checked(2) map_of_SomeD [OF that] by (auto simp: sidecar_checked_def list_all_iff)
    ultimately have "service_host digest devices (pm_name (bn_metadata b)) i iname sname \<noteq> []"
      by (auto simp: service_host_def split: option.splits bind_splits if_splits)
    then show ?thesis
      using valid_name_identifier(2) [OF name sv] reference_slash [OF slash, of sname]
      by (simp add: RouterValidate.member_ok_def eq)
  qed
  then show "RouterValidate.member_ok m" "reference_instance (member_component m) = reference_instance r"
    by (simp_all add: r)
qed

lemma members_of_reference_distinct:
  assumes "sidecar_checked probe_messages b devices"
  shows "distinct (map member_component (members_of_reference digest b instances devices r))"
proof -
  have d: "distinct (map fst (pb_services block))" if "bt_get (bundle_blocks b) k = Some block" for k block
    using assms map_of_SomeD [OF that] by (auto simp: sidecar_checked_def list_all_iff intro: bt_inv_distinct)
  show ?thesis
    by (auto simp: members_of_reference_def Let_def distinct_map comp_def inj_on_def dest!: d
        split: option.splits prod.splits intro!: distinct_filter)
qed

lemma distinct_concat_keys:
  assumes "\<And>x. x \<in> set xs \<Longrightarrow> distinct (f x)" and "\<And>x y. x \<in> set xs \<Longrightarrow> y \<in> set (f x) \<Longrightarrow> key y = k x"
    and "distinct (map k xs)"
  shows "distinct (concat (map f xs))"
  using assms
proof (induction xs)
  case (Cons x xs)
  have "distinct (concat (map f xs))" by (rule Cons.IH) (use Cons.prems in auto)
  moreover have "set (f x) \<inter> set (concat (map f xs)) = {}"
  proof (rule ccontr)
    assume "\<not> ?thesis"
    then obtain y x' where "y \<in> set (f x)" "x' \<in> set xs" "y \<in> set (f x')" by auto
    then have "k x = k x'" using Cons.prems(2) by (metis list.set_intros)
    then show False using Cons.prems(3) \<open>x' \<in> set xs\<close> by (auto simp: image_iff)
  qed
  ultimately show ?case using Cons.prems(1) by simp
qed simp

lemma transparent_members_ok:
  fixes gname :: string
  assumes checked: "instances_checked b" "sidecar_checked probe_messages b devices" and digest: "hex_digest digest"
    and inv: "bt_inv (bundle_groups b)" and ok: "groups_ok b (bundle_instances b)"
  defines "ms \<equiv> transparent_members digest b (bundle_instances b) (fst (resolve_groups b (bundle_instances b))) gname devices"
  shows "\<forall>m\<in>set ms. RouterValidate.member_ok m" and "distinct (map member_component ms)"
proof -
  let ?f = "members_of_reference digest b (bundle_instances b) devices"
  let ?members = "case bt_get (rg_members (fst (resolve_groups b (bundle_instances b)))) gname of None \<Rightarrow> [] | Some m \<Rightarrow> m"
  have ms: "ms = concat (map ?f ?members)" by (simp add: ms_def transparent_members_def)
  show "\<forall>m\<in>set ms. RouterValidate.member_ok m"
    unfolding ms using members_of_reference_ok(1) [OF checked digest] by auto
  have claimed: "distinct (claimed_instances b (bundle_instances b) (bundle_groups b))" using ok by (simp add: groups_ok_def)
  have "distinct (map reference_instance ?members)"
  proof (cases "bt_get (rg_members (fst (resolve_groups b (bundle_instances b)))) gname")
    case (Some members)
    then obtain g where g: "(gname, g) \<in> set (bundle_groups b)" "members = routed_members b (bundle_instances b) g"
      unfolding resolve_groups_result [OF inv ok] by (auto dest!: map_of_SomeD)
    then have "distinct (map reference_instance (group_members b (bundle_instances b) g))"
      using claimed by (force simp: claimed_instances_def distinct_concat_iff)
    then show ?thesis using Some g(2) by (simp add: routed_members_def distinct_map_filter)
  qed simp
  then show "distinct (map member_component ms)"
    unfolding ms map_concat map_map
    by (intro distinct_concat_keys [where key = reference_instance and k = reference_instance])
      (use members_of_reference_distinct [OF checked(2)] members_of_reference_ok(2) [OF checked digest] in \<open>auto simp: comp_def\<close>)
qed

section \<open>Properties of the planner\<close>

text \<open>
  Resolution of groups is exact: it reports nothing if and only if every group is well
  formed (valid names, members that name an existing instance and one of its services, disabled
  entries among the members) and no instance is in two groups or twice in one; then the declared
  members are the authored ones in their authored order and the active members are those whose
  instance is not disabled.
\<close>

theorem groups_resolve_exactly:
  assumes "bt_inv (bundle_groups b)" and "instances_checked b"
  shows "(snd (resolve_groups b (bundle_instances b)) = [] \<longleftrightarrow> groups_ok b (bundle_instances b)) \<and>
     (groups_ok b (bundle_instances b) \<longrightarrow>
        fst (resolve_groups b (bundle_instances b)) =
          \<lparr>rg_members = map (\<lambda>(n, g). (n, filter (\<lambda>m. reference_instance m \<notin> set (pg_disabled g)) (pg_instances g)))
             (bundle_groups b),
           rg_declared = map (\<lambda>(n, g). (n, pg_instances g)) (bundle_groups b)\<rparr>)"
proof -
  have "group_members b (bundle_instances b) g = pg_instances g"
    if "groups_ok b (bundle_instances b)" "(n, g) \<in> set (bundle_groups b)" for n g
    using that by (intro checked_group_members [OF assms(2)]) (auto simp: groups_ok_def plan_group_ok_def list_all_iff)
  then show ?thesis
    using resolve_groups_result [OF assms(1)] by (auto simp: resolve_groups_errors routed_members_def)
qed

theorem groups_resolve_exactly_witness:
  "snd (resolve_groups chained_bundle (bundle_instances chained_bundle)) = [] \<and>
   bt_get (rg_members (fst (resolve_groups chained_bundle (bundle_instances chained_bundle)))) ''dev'' = Some [''green/web'']"
proof -
  have "bt_inv (bundle_groups chained_bundle)" by code_simp
  note exact = groups_resolve_exactly [OF this sample_bundles_checked(1)]
  have ok: "groups_ok chained_bundle (bundle_instances chained_bundle)" by code_simp
  then have "snd (resolve_groups chained_bundle (bundle_instances chained_bundle)) = []" using exact by blast
  moreover have "fst (resolve_groups chained_bundle (bundle_instances chained_bundle)) =
      \<lparr>rg_members = map (\<lambda>(n, g). (n, filter (\<lambda>m. reference_instance m \<notin> set (pg_disabled g)) (pg_instances g)))
         (bundle_groups chained_bundle),
       rg_declared = map (\<lambda>(n, g). (n, pg_instances g)) (bundle_groups chained_bundle)\<rparr>"
    using exact ok by blast
  moreover have "bt_get (map (\<lambda>(n, g). (n, filter (\<lambda>m. reference_instance m \<notin> set (pg_disabled g)) (pg_instances g)))
      (bundle_groups chained_bundle)) ''dev'' = Some [''green/web'']" by code_simp
  ultimately show ?thesis by simp
qed

text \<open>
  C39. A membership move does what it says: when the groups of a bundle resolve, moving an
  instance to an existing group leaves groups that resolve, the instance is routed in exactly
  that group (even if it was disabled before), and every other instance keeps its group.
\<close>

theorem move_takes_instance_along:
  assumes "instances_checked b" and "bt_inv (bundle_groups b)" and "snd (resolve_groups b (bundle_instances b)) = []"
    and "iname \<in> pi_name ` set (dp_instances (bn_spec b))" and "bt_get (bundle_groups b) gname \<noteq> None"
  shows "plan_with_membership plan b iname gname = plan (move_instance_to_group b iname gname) \<and>
     (let b' = move_instance_to_group b iname gname;
          r = fst (resolve_groups b (bundle_instances b));
          r' = fst (resolve_groups b' (bundle_instances b'))
      in snd (resolve_groups b' (bundle_instances b')) = [] \<and>
         selected_group_for_instance r' iname = Some gname \<and>
         (\<forall>k. k \<noteq> iname \<longrightarrow> selected_group_for_instance r' k = selected_group_for_instance r k))"
proof -
  have m: "movable b iname gname" using assms by (simp add: movable_def resolve_groups_errors)
  show ?thesis
    using selected_after_move [OF m] moved_groups_ok [OF m] assms(4,5)
    by (simp add: Let_def bundle_instances_move resolve_groups_errors plan_with_membership_def)
qed

theorem move_takes_instance_along_witness:
  "selected_group_for_instance (fst (resolve_groups (move_instance_to_group chained_bundle ''blue'' ''qa'')
     (bundle_instances (move_instance_to_group chained_bundle ''blue'' ''qa'')))) ''blue'' = Some ''qa''"
proof -
  have "bt_inv (bundle_groups chained_bundle)" by code_simp
  moreover have "snd (resolve_groups chained_bundle (bundle_instances chained_bundle)) = []" by code_simp
  moreover have "''blue'' \<in> pi_name ` set (dp_instances (bn_spec chained_bundle))" by code_simp
  moreover have "bt_get (bundle_groups chained_bundle) ''qa'' \<noteq> None" by code_simp
  ultimately show ?thesis
    using move_takes_instance_along [OF sample_bundles_checked(1)] unfolding Let_def by blast
qed

text \<open>
  C40. What the planner generates the router accepts: for a checked bundle whose groups resolve,
  the configuration of every sidecar, with the members of whatever group is selected, passes the
  validation of the router.
\<close>

theorem sidecar_config_accepted:
  assumes "instances_checked b" and "sidecar_checked probe_messages b devices" and "hex_digest digest"
    and "bt_inv (bundle_groups b)" and "snd (resolve_groups b (bundle_instances b)) = []"
    and "consumer \<in> set (dp_instances (bn_spec b))"
  shows "validate (sidecar_config digest b (bundle_instances b) consumer enabled gname
     (fst (resolve_groups b (bundle_instances b))) devices) = Inr ()"
proof -
  have ok: "groups_ok b (bundle_instances b)" using assms(5) by (simp add: resolve_groups_errors)
  note ms = transparent_members_ok [OF assms(1-4) ok]
  have consumer: "valid_name (pi_name consumer)" using assms(1,6) by (auto simp: instances_checked_def list_all_iff)
  have name: "valid_name (pm_name (bn_metadata b))" using assms(2) by (simp add: sidecar_checked_def)
  have "valid_config (sidecar_config digest b (bundle_instances b) consumer enabled gname
      (fst (resolve_groups b (bundle_instances b))) devices)"
    using ms join_valid_names [OF name consumer initial_valid_name assms(3)]
      valid_name_segment [OF name] valid_name_segment [OF consumer]
    by (auto simp: valid_config_def sidecar_config_def Let_def schema_ok_def exposure_ok_def transparent_ok_def
        single_protocol_def slot_declarations_def API_VERSION_def KIND_def valid_identifier_def
        TRANSPARENT_INTERCEPTION_PORT_def split: option.splits)
  then show ?thesis by (simp only: validate_correct)
qed

definition sample_digest :: "string \<Rightarrow> string" where
  "sample_digest s = replicate 64 CHR ''0''"

lemma sample_hex_digest: "hex_digest sample_digest"
  unfolding hex_digest_def sample_digest_def by (simp add: list_all_iff ascii_defs)

theorem sidecar_config_accepted_witness:
  "validate (sidecar_config sample_digest chained_bundle (bundle_instances chained_bundle)
     (hd (dp_instances (bn_spec chained_bundle))) True (Some ''dev'')
     (fst (resolve_groups chained_bundle (bundle_instances chained_bundle))) []) = Inr ()"
proof (rule sidecar_config_accepted [OF sample_bundles_checked(1) _ sample_hex_digest])
  show "sidecar_checked None chained_bundle []" by code_simp
  show "bt_inv (bundle_groups chained_bundle)" by code_simp
  show "snd (resolve_groups chained_bundle (bundle_instances chained_bundle)) = []" by code_simp
  show "hd (dp_instances (bn_spec chained_bundle)) \<in> set (dp_instances (bn_spec chained_bundle))"
    by (simp add: chained_bundle_def sample_bundle_def)
qed

text \<open>
  Valid names may contain two hyphens in a row, so the names of two services of different
  instances of a deployment can coincide.
\<close>

lemma service_names_collide:
  "valid_name ''a--b'' \<and> valid_name ''b--c'' \<and>
   service_name_for digest ''shop'' ''a--b'' ''c'' = service_name_for digest ''shop'' ''a'' ''b--c''"
  by (simp add: service_name_for_def resource_name_def valid_name_def ascii_defs ends_with_def)

end
