(* ===== verification/Spec2Isabelle.thy ===== *)
theory Spec2Isabelle
  imports HttpForwarding DaemonOps PlanGroups
begin

text \<open>
  Verification library of APM ProjectRunner, the orchestrator of local development topologies.

  \<^bold>\<open>The program.\<close> A planner (\<open>crates/apmpr-planner\<close>) turns deployment bundles into generated
  artifacts, among them router configurations (\<open>crates/router-config\<close>). Router processes
  (\<open>crates/apmpr-router\<close>) compile a configuration into an immutable route snapshot
  (\<open>crates/router-core\<close>), forward HTTP traffic (\<open>crates/router-pingora\<close>) and TCP traffic
  (\<open>crates/router-tcp\<close>) along it, and replace it on an administration socket. The daemon
  (\<open>crates/apmpr-daemon\<close>) runs operations on behalf of the command line, the terminal and the web
  interface, serialized by leases of the state store (\<open>crates/apmpr-state\<close>), which also records
  what was applied, what routers acknowledged and what was observed at run time.

  \<^bold>\<open>Router.\<close>
  \<^item> Theory NetAddr: \<open>IpAddr\<close> and its parser. RouterConfig: the schema of
    \<open>router-config/src/v1alpha1.rs\<close>. RouterValidate: \<open>RouterConfig::validate\<close>, equivalent to the
    declarative well-formedness \<open>valid_config\<close> (C1), and LAN exposure (C2).
  \<^item> RouterCore (\<open>router-core/src/lib.rs\<close>): \<open>compile\<close>, the lookups and \<open>RouteEngine\<close>. Compilation
    of a validated configuration never panics (C3), lookups select what the configuration says (C4
    to C6), the engine changes atomically and only to newer versions, also under interleaved
    appliers (C7, C8).
  \<^item> TransparentTcp and TcpProxy (\<open>router-tcp/src/lib.rs\<close>): transparent interception with its
    listener registry (C9 to C11), and the TCP proxy with reloads as a state machine over
    interleaved connections (C12 to C15).
  \<^item> HttpPlane (definitions), HttpRouting (C16, C17) and HttpForwarding (C18 to C21): the filters
    Pingora calls per request in \<open>router-pingora/src/lib.rs\<close>: what is forwarded and where,
    identity headers, CORS, sanitized upstream requests, accounting and bounded bodies.
  \<^item> RouterControl (definitions) and RouterAdmin (C22 to C25): the process of
    \<open>apmpr-router/src/lib.rs\<close>, its administration protocol, \<open>Apply\<close> and the redacted event log.

  \<^bold>\<open>State store\<close> (\<open>apmpr-state/src/lib.rs\<close> and its SQL migrations).
  \<^item> StateModel: errors, enumerations with their stored texts, secrets, validation.
    StateTables: the tables of the schema and every operation of \<open>StateStore\<close>; StateReconcile:
    \<open>reconcile\<close>. An operation maps the database to an error or a result with the new database.
  \<^item> StateLeases: the lease operations as a state machine of processes that may crash; exclusion
    (C26) and recovery within the longest lifetime (C27).
  \<^item> StateStore: a command per mutating operation, and the invariant of schema constraints,
    validation and absence of literal secrets (C28) through the locale \<open>server\<close>.
  \<^item> StateQueries: the newest-first operation listing and its cursor; StateReports: what router
    bindings show (C30) and what reconciliation reports and retains (C31).

  \<^bold>\<open>Daemon\<close> (\<open>apmpr-daemon/src/contract.rs\<close>, \<open>server.rs\<close>) and its router client
  (\<open>apmpr-router-admin/src/lib.rs\<close>).
  \<^item> DaemonModel: the command contract, the event log of an operation, stored operations as
    the API shows them, and \<open>list_operations\<close>, whose pages list every operation once (C29).
  \<^item> RouterClient: the administration client, its endpoints (a socket, or a container reached with
    \<open>docker exec\<close> after its ownership labels were checked), and the network of router processes it
    talks to, each a process of RouterAdmin. The locale \<open>router_channel\<close> is the contract between
    the daemon and the routers; its interpretation \<open>router_net\<close> discharges it for that network.
    ConfigEncoding shows that its laws on the wire can be met: configurations are countable.
  \<^item> LiveBinding: \<open>apply_live_binding_with_admin\<close>, which moves an instance to another group on
    running routers. Success means that every target router serves its candidate routes, failure
    that later routers are untouched and earlier ones have a truthful rollback attempt; an error
    leaves the routers moved so far as they are (C32). No router of another owner is reached (C33).
  \<^item> DaemonOps: the life of an operation (\<open>begin_operation\<close>, \<open>execute_operation\<close>,
    \<open>execute_clone_operation\<close>, \<open>finish_operation\<close>, cancellation, retention) as the step relation
    \<open>daemon_step\<close>. Operations, tasks, permits and retained results agree in every reachable state
    (C34), results are final (C35), success is recorded exactly when it was earned and never after
    a failed renewal of the lease (C37); the lease of an operation that waits for its permit may be
    lost to another one (C36).

  \<^bold>\<open>Planner\<close> (\<open>apmpr-planner/src/model.rs\<close>, \<open>lib.rs\<close>).
  \<^item> PlanModel: the deployment bundle, external ports with their serialized form, diagnostics,
    names, references and \<open>validate_external_instance\<close>.
  \<^item> PlanGraph: the depth-first search for cycles, which is proved to decide acyclicity, and the
    checks of local and expanded dependencies (C38).
  \<^item> PlanGroups: \<open>resolve_groups\<close>, equivalent to the declarative \<open>groups_ok\<close>; membership moves
    (C39); and the configuration of a sidecar, which the validation of RouterValidate accepts
    (C40), so that planner and router agree.

  \<^bold>\<open>Defects and divergences from the documentation.\<close> \<open>docs/control-plane-api.md\<close> promises a rollback
  of the routers already moved, which an exhausted version skips (C32, lemma
  \<open>exhausted_version_skips_rollback\<close>), and a renewed lease and a conflict for a second mutation, but
  waiting operations and clones do not renew (C36). It says that cancellation records \<open>cancelled\<close>,
  but a cancelled live move is recorded as failed (lemma \<open>live_move_never_cancelled\<close>). Output
  readers left behind add events to a closed stream (C35). The definition of an imported profile is
  stored without the scan for secrets (C28). A bundle with an unknown block makes the planner panic
  instead of returning its diagnostic (C38), and names with two hyphens in a row can give two
  services the same name (lemma \<open>service_names_collide\<close>).

  \<^bold>\<open>Shared vocabulary.\<close> Prelude: Rust byte strings, decimal numbers, results, \<open>i64\<close>, white
  space, and the locales \<open>finite_map\<close> (interpreted as \<open>bt\<close> on the ordered maps that stand for
  \<open>BTreeMap\<close>), \<open>keyed_loop\<close> (the validators' loops), \<open>bounded_log\<close> (interpreted on the telemetry
  of the data plane, on the control log and on the operation event log) and \<open>server\<close> (interpreted
  on the administration interface and on the state store). Json: \<open>serde_json::Value\<close>.

  \<^bold>\<open>Parameters.\<close> Third-party code is never defined here: Pingora's sessions and header maps,
  \<open>serde_json\<close> text, SHA-256, Base64, SQLite's \<open>json_valid\<close>, sockets, name resolution, the file
  system and the clock are arguments of the definitions, collected in records such as
  \<open>header_api\<close>, \<open>control_env\<close>, \<open>store_env\<close> and \<open>admin_wire\<close>. What is assumed of them is stated in
  \<open>header_laws\<close>, \<open>json_text_laws\<close> and \<open>admin_wire_laws\<close> and shown to be satisfiable by the
  witnesses. What the planner generates for a live move or an applied snapshot is a parameter too,
  as are the messages of the probe adapter and the random identifiers of operations.

  \<^bold>\<open>Granularity.\<close> The steps of the daemon are the stretches of code between two points where a task
  waits. The concluding part of an operation takes the store's mutex several times and is one
  step here; other processes may change the database between any two steps, in every way that
  keeps the stored operations. Dropping the permit of heavy work is a step of its own, and events
  may reach the log of an operation at any time after it started. An \<open>Apply\<close> of the router is one
  step, and one request of the data plane sees one state of the network. Containers keep their
  names and labels during a live move.

  \<^bold>\<open>Bounds and fuel.\<close> Machine integers keep their width; an \<open>i64\<close> is an integer with its range
  checked where the code checks it. Loops are structural or have a termination proof; the only
  fuel is the number of requests of a client that follows the cursor of the listing, for which one
  more than the number of operations is proved to be enough.

  \<^bold>\<open>Not modelled.\<close> Of the planner: loading, overlays and portable bundles, the checks of
  \<open>validate\<close> on sources, executions, addresses and host upstreams, the host router and the
  generation of Compose files. The sources, profiles, device and adapter crates, the command
  line, the terminal and web interfaces: most of their work is reading and writing files, YAML,
  Git, SSH and Docker through other programs, or presentation. Of the run actions only the
  specification an operation carries is modelled, of the daemon's HTTP handlers those of operations.
  Within the modelled crates: the set-up of servers and sockets, waiting for shutdown, copying the
  database before a migration, failures of SQLite other than violated constraints.
\<close>

end
